(* ===== verification/Prelude.thy ===== *)
theory Prelude
  imports Main "HOL-Library.Word" "HOL-Library.AList" "HOL-Library.Char_ord"
    "HOL-Library.List_Lexorder" "HOL-Library.Product_Lexorder"
begin

text \<open>
  The vocabulary every component shares. A Rust \<open>String\<close> is its UTF-8 bytes, so it is a
  HOL \<open>string\<close> (a list of 8-bit characters) and \<open>len()\<close> is \<open>length\<close>. A \<open>Uuid\<close> is a
  128-bit word, whose order is the byte order of the Rust type. An instant
  (\<open>DateTime<Utc>\<close>) is an integer number of nanoseconds; where the code calls
  \<open>Utc::now()\<close> the model takes the instant as an argument. \<open>Result<T, E>\<close> is the sum
  \<open>'e + 'a\<close> with the error on the left, \<open>?\<close> is \<open>bind_r\<close>, and a loop whose body may
  return early is \<open>each_r\<close>. A \<open>HashMap\<close> is an association list with distinct keys: its
  list order stands for the unspecified iteration order of the Rust map, so a theorem
  about every such list is a theorem about every iteration order.
\<close>

named_theorems result_simps "inversion of the result combinators"
named_theorems byte_defs "the byte classes of the Rust standard library"

type_synonym u16 = "16 word"
type_synonym u32 = "32 word"
type_synonym u64 = "64 word"
type_synonym uuid = "128 word"
type_synonym instant = int

section \<open>Results\<close>

fun bind_r :: "'e + 'a \<Rightarrow> ('a \<Rightarrow> 'e + 'b) \<Rightarrow> 'e + 'b" where
  "bind_r (Inl e) f = Inl e"
| "bind_r (Inr x) f = f x"

fun then_r :: "'e + unit \<Rightarrow> 'e + 'b \<Rightarrow> 'e + 'b" where
  "then_r (Inl e) r = Inl e"
| "then_r (Inr x) r = r"

definition ensure :: "bool \<Rightarrow> 'e \<Rightarrow> 'e + unit" where
  "ensure b e = (if b then Inr () else Inl e)"

fun each_r :: "('a \<Rightarrow> 'e + unit) \<Rightarrow> 'a list \<Rightarrow> 'e + unit" where
  "each_r f [] = Inr ()"
| "each_r f (x # xs) = then_r (f x) (each_r f xs)"

definition ok_or :: "'a option \<Rightarrow> 'e \<Rightarrow> 'e + 'a" where
  "ok_or x e = (case x of None \<Rightarrow> Inl e | Some a \<Rightarrow> Inr a)"

fun map_err :: "('e \<Rightarrow> 'f) \<Rightarrow> 'e + 'a \<Rightarrow> 'f + 'a" where
  "map_err f (Inl e) = Inl (f e)"
| "map_err f (Inr x) = Inr x"

fun is_ok :: "'e + 'a \<Rightarrow> bool" where
  "is_ok (Inl e) = False"
| "is_ok (Inr x) = True"

lemma bind_r_cong [fundef_cong]:
  "m = m' \<Longrightarrow> (\<And>x. m' = Inr x \<Longrightarrow> f x = f' x) \<Longrightarrow> bind_r m f = bind_r m' f'"
  by (cases m) auto

lemma bind_r_Inr [result_simps]: "bind_r m f = Inr y \<longleftrightarrow> (\<exists>x. m = Inr x \<and> f x = Inr y)"
  by (cases m) auto

lemma bind_r_Inl [result_simps]:
  "bind_r m f = Inl e \<longleftrightarrow> m = Inl e \<or> (\<exists>x. m = Inr x \<and> f x = Inl e)"
  by (cases m) auto

lemma then_r_Inr [result_simps]: "then_r m r = Inr y \<longleftrightarrow> m = Inr () \<and> r = Inr y"
  by (cases m) auto

lemma then_r_Inl [result_simps]: "then_r m r = Inl e \<longleftrightarrow> m = Inl e \<or> (m = Inr () \<and> r = Inl e)"
  by (cases m) auto

lemma if_Inl_Inr [result_simps]: "(if b then Inl e else r) = Inr y \<longleftrightarrow> \<not> b \<and> r = Inr y"
  by simp

lemma if_Inl_Inl [result_simps]:
  "(if b then Inl e else r) = Inl e' \<longleftrightarrow> (b \<and> e = e') \<or> (\<not> b \<and> r = Inl e')"
  by simp

lemma ensure_Inr [result_simps]: "ensure b e = Inr u \<longleftrightarrow> b"
  by (auto simp: ensure_def)

lemma ensure_Inl [result_simps]: "ensure b e = Inl e' \<longleftrightarrow> \<not> b \<and> e' = e"
  by (auto simp: ensure_def)

lemma each_r_Inr [result_simps]: "each_r f xs = Inr u \<longleftrightarrow> (\<forall>x \<in> set xs. f x = Inr ())"
  by (induction xs) (auto simp: result_simps)

lemma ok_or_Inr [result_simps]: "ok_or x e = Inr a \<longleftrightarrow> x = Some a"
  by (auto simp: ok_or_def split: option.splits)

lemma ok_or_Inl [result_simps]: "ok_or x e = Inl e' \<longleftrightarrow> x = None \<and> e' = e"
  by (auto simp: ok_or_def split: option.splits)

lemma map_err_Inr [result_simps]: "map_err f m = Inr x \<longleftrightarrow> m = Inr x"
  by (cases m) auto

lemma each_r_enumerate:
  assumes "\<And>i x. x \<in> set xs \<Longrightarrow> f i x = Inr () \<longleftrightarrow> P x"
  shows "each_r (\<lambda>(i, x). f i x) (enumerate n xs) = Inr () \<longleftrightarrow> (\<forall>x \<in> set xs. P x)"
  using assms by (induction xs arbitrary: n) (auto simp: result_simps)

lemma is_ok_iff: "is_ok m \<longleftrightarrow> (\<exists>x. m = Inr x)"
  by (cases m) auto

lemma is_ok_unit: "is_ok (m :: 'e + unit) \<longleftrightarrow> m = Inr ()"
  by (cases m) auto

section \<open>Bytes and strings\<close>

definition is_ascii_uppercase :: "char \<Rightarrow> bool" where
  [byte_defs]: "is_ascii_uppercase c \<longleftrightarrow> CHR ''A'' \<le> c \<and> c \<le> CHR ''Z''"

definition is_ascii_lowercase :: "char \<Rightarrow> bool" where
  [byte_defs]: "is_ascii_lowercase c \<longleftrightarrow> CHR ''a'' \<le> c \<and> c \<le> CHR ''z''"

definition is_ascii_alphabetic :: "char \<Rightarrow> bool" where
  [byte_defs]: "is_ascii_alphabetic c \<longleftrightarrow> is_ascii_uppercase c \<or> is_ascii_lowercase c"

definition is_ascii_digit :: "char \<Rightarrow> bool" where
  [byte_defs]: "is_ascii_digit c \<longleftrightarrow> CHR ''0'' \<le> c \<and> c \<le> CHR ''9''"

definition is_ascii_alphanumeric :: "char \<Rightarrow> bool" where
  [byte_defs]: "is_ascii_alphanumeric c \<longleftrightarrow> is_ascii_alphabetic c \<or> is_ascii_digit c"

definition is_ascii_hexdigit :: "char \<Rightarrow> bool" where
  [byte_defs]: "is_ascii_hexdigit c \<longleftrightarrow>
     is_ascii_digit c \<or> (CHR ''a'' \<le> c \<and> c \<le> CHR ''f'') \<or> (CHR ''A'' \<le> c \<and> c \<le> CHR ''F'')"

definition is_ascii_control :: "char \<Rightarrow> bool" where
  [byte_defs]: "is_ascii_control c \<longleftrightarrow> c < CHR '' '' \<or> c = CHR 0x7F"

definition is_ascii_whitespace :: "char \<Rightarrow> bool" where
  [byte_defs]: "is_ascii_whitespace c \<longleftrightarrow>
     c \<in> {CHR '' '', CHR 0x09, CHR 0x0A, CHR 0x0C, CHR 0x0D}"

definition is_ascii_byte :: "char \<Rightarrow> bool" where
  [byte_defs]: "is_ascii_byte c \<longleftrightarrow> c \<le> CHR 0x7F"

definition to_ascii_lowercase_byte :: "char \<Rightarrow> char" where
  "to_ascii_lowercase_byte c =
     (if is_ascii_uppercase c then char_of (of_char c + 32 :: nat) else c)"

definition to_ascii_lowercase :: "string \<Rightarrow> string" where
  "to_ascii_lowercase s = map to_ascii_lowercase_byte s"

definition eq_ignore_ascii_case :: "string \<Rightarrow> string \<Rightarrow> bool" where
  "eq_ignore_ascii_case a b \<longleftrightarrow> to_ascii_lowercase a = to_ascii_lowercase b"

definition starts_with :: "string \<Rightarrow> string \<Rightarrow> bool" where
  "starts_with s p \<longleftrightarrow> take (length p) s = p"

definition ends_with :: "string \<Rightarrow> string \<Rightarrow> bool" where
  "ends_with s p \<longleftrightarrow> length p \<le> length s \<and> drop (length s - length p) s = p"

definition strip_prefix :: "string \<Rightarrow> string \<Rightarrow> string option" where
  "strip_prefix s p = (if starts_with s p then Some (drop (length p) s) else None)"

definition strip_suffix :: "string \<Rightarrow> string \<Rightarrow> string option" where
  "strip_suffix s p = (if ends_with s p then Some (take (length s - length p) s) else None)"

fun contains_str :: "string \<Rightarrow> string \<Rightarrow> bool" where
  "contains_str [] p = (p = [])"
| "contains_str (x # xs) p = (starts_with (x # xs) p \<or> contains_str xs p)"

fun split_on :: "char \<Rightarrow> string \<Rightarrow> string list" where
  "split_on c [] = [[]]"
| "split_on c (x # xs) =
     (if x = c then [] # split_on c xs
      else (case split_on c xs of [] \<Rightarrow> [[x]] | w # ws \<Rightarrow> (x # w) # ws))"

fun join_with :: "string \<Rightarrow> string list \<Rightarrow> string" where
  "join_with sep [] = []"
| "join_with sep [w] = w"
| "join_with sep (w # v # ws) = w @ sep @ join_with sep (v # ws)"

text \<open>\<open>str::split_once\<close> cuts at the first occurrence, \<open>str::rsplit_once\<close> at the last one.\<close>

fun split_once :: "string \<Rightarrow> string \<Rightarrow> (string \<times> string) option" where
  "split_once [] p = (if p = [] then Some ([], []) else None)"
| "split_once (x # xs) p =
     (if starts_with (x # xs) p then Some ([], drop (length p) (x # xs))
      else map_option (\<lambda>(a, b). (x # a, b)) (split_once xs p))"

fun rsplit_once :: "char \<Rightarrow> string \<Rightarrow> (string \<times> string) option" where
  "rsplit_once c [] = None"
| "rsplit_once c (x # xs) =
     (case rsplit_once c xs of
        Some (a, b) \<Rightarrow> Some (x # a, b)
      | None \<Rightarrow> if x = c then Some ([], xs) else None)"

text \<open>\<open>str::from_utf8\<close> accepts the well-formed UTF-8 byte sequences.\<close>

definition byte_in :: "nat \<Rightarrow> nat \<Rightarrow> char \<Rightarrow> bool" where
  "byte_in lo hi c \<longleftrightarrow> lo \<le> of_char c \<and> of_char c \<le> hi"

fun valid_utf8 :: "string \<Rightarrow> bool" where
  "valid_utf8 [] = True"
| "valid_utf8 (a # s) =
     (if byte_in 0 0x7F a then valid_utf8 s
      else if byte_in 0xC2 0xDF a then
        (case s of b # s' \<Rightarrow> byte_in 0x80 0xBF b \<and> valid_utf8 s' | _ \<Rightarrow> False)
      else if byte_in 0xE0 0xEF a then
        (case s of b # c # s' \<Rightarrow>
             byte_in (if of_char a = (0xE0 :: nat) then 0xA0 else 0x80)
               (if of_char a = (0xED :: nat) then 0x9F else 0xBF) b
             \<and> byte_in 0x80 0xBF c \<and> valid_utf8 s'
         | _ \<Rightarrow> False)
      else if byte_in 0xF0 0xF4 a then
        (case s of b # c # d # s' \<Rightarrow>
             byte_in (if of_char a = (0xF0 :: nat) then 0x90 else 0x80)
               (if of_char a = (0xF4 :: nat) then 0x8F else 0xBF) b
             \<and> byte_in 0x80 0xBF c \<and> byte_in 0x80 0xBF d \<and> valid_utf8 s'
         | _ \<Rightarrow> False)
      else False)"

definition from_utf8 :: "string \<Rightarrow> string option" where
  "from_utf8 bytes = (if valid_utf8 bytes then Some bytes else None)"

definition trim_start_matches :: "char \<Rightarrow> string \<Rightarrow> string" where
  "trim_start_matches c s = dropWhile (\<lambda>x. x = c) s"

text \<open>
  \<open>str::trim\<close> removes Unicode white space. A text is blank when it is a sequence of the
  UTF-8 encodings of the white-space code points.
\<close>

definition UNICODE_WHITESPACE :: "string list" where
  "UNICODE_WHITESPACE =
     [[CHR 0x09], [CHR 0x0A], [CHR 0x0B], [CHR 0x0C], [CHR 0x0D], [CHR 0x20],
      [CHR 0xC2, CHR 0x85], [CHR 0xC2, CHR 0xA0], [CHR 0xE1, CHR 0x9A, CHR 0x80]]
     @ map (\<lambda>b. [CHR 0xE2, CHR 0x80, b])
         [CHR 0x80, CHR 0x81, CHR 0x82, CHR 0x83, CHR 0x84, CHR 0x85, CHR 0x86, CHR 0x87, CHR 0x88,
          CHR 0x89, CHR 0x8A, CHR 0xA8, CHR 0xA9, CHR 0xAF]
     @ [[CHR 0xE2, CHR 0x81, CHR 0x9F], [CHR 0xE3, CHR 0x80, CHR 0x80]]"

function trim_is_empty :: "string \<Rightarrow> bool" where
  "trim_is_empty t =
     (if t = [] then True
      else (case find (starts_with t) UNICODE_WHITESPACE of
              None \<Rightarrow> False
            | Some w \<Rightarrow> trim_is_empty (drop (length w) t)))"
  by pat_completeness auto
termination
proof (relation "measure length")
  fix t :: string and w
  assume "t \<noteq> []" and "find (starts_with t) UNICODE_WHITESPACE = Some w"
  then have "w \<in> set UNICODE_WHITESPACE" by (auto simp: find_Some_iff)
  then have "w \<noteq> []" by (auto simp: UNICODE_WHITESPACE_def)
  with \<open>t \<noteq> []\<close> show "(drop (length w) t, t) \<in> measure length" by simp
qed simp

declare trim_is_empty.simps [simp del]

lemma valid_utf8_ascii: "list_all is_ascii_byte s \<Longrightarrow> valid_utf8 s"
  by (induction s) (simp_all add: byte_in_def is_ascii_byte_def less_eq_char_def)

lemma split_on_not_Nil [simp]: "split_on c s \<noteq> []"
  by (induction s) (auto split: list.splits)

lemma join_split_on: "join_with [c] (split_on c s) = s"
proof (induction s)
  case (Cons x xs)
  obtain w ws where w: "split_on c xs = w # ws"
    by (cases "split_on c xs") auto
  with Cons.IH show ?case
    by (cases ws) auto
qed simp

lemma split_on_no_sep: "w \<in> set (split_on c s) \<Longrightarrow> c \<notin> set w"
  by (induction s arbitrary: w) (auto split: list.splits if_splits)

lemma set_split_on: "w \<in> set (split_on c s) \<Longrightarrow> set w \<subseteq> set s"
proof (induction s arbitrary: w)
  case (Cons x xs)
  then show ?case by (cases "split_on c xs") (fastforce split: if_splits)+
qed simp

lemma set_split_on_cover: "x \<in> set s \<Longrightarrow> x = c \<or> (\<exists>w \<in> set (split_on c s). x \<in> set w)"
proof (induction s)
  case (Cons y ys)
  then show ?case by (cases "split_on c ys") auto
qed simp

lemma split_on_append_sep: "split_on c (a @ c # b) = split_on c a @ split_on c b"
proof (induction a)
  case (Cons x xs)
  obtain w ws where "split_on c xs = w # ws" by (cases "split_on c xs") auto
  with Cons.IH show ?case by simp
qed simp

lemma starts_with_append [simp]: "starts_with (p @ s) p"
  by (simp add: starts_with_def)

lemma starts_with_iff: "starts_with s p \<longleftrightarrow> (\<exists>r. s = p @ r)"
  by (metis append_take_drop_id starts_with_append starts_with_def)

lemma strip_prefix_Some: "strip_prefix s p = Some r \<longleftrightarrow> s = p @ r"
  by (auto simp: strip_prefix_def starts_with_iff)

lemma strip_prefix_None: "strip_prefix s p = None \<longleftrightarrow> \<not> starts_with s p"
  by (auto simp: strip_prefix_def)

lemma ends_with_iff: "ends_with s p \<longleftrightarrow> (\<exists>r. s = r @ p)"
proof
  assume "ends_with s p"
  then have "s = take (length s - length p) s @ p"
    by (metis append_take_drop_id ends_with_def)
  then show "\<exists>r. s = r @ p" ..
qed (auto simp: ends_with_def)

lemma strip_suffix_Some: "strip_suffix s p = Some r \<longleftrightarrow> s = r @ p"
  by (auto simp: strip_suffix_def ends_with_iff)

lemma contains_str_iff: "contains_str s p \<longleftrightarrow> (\<exists>a b. s = a @ p @ b)"
proof (induction s)
  case (Cons x xs)
  show ?case
  proof
    assume "contains_str (x # xs) p"
    then consider "starts_with (x # xs) p" | "contains_str xs p" by auto
    then show "\<exists>a b. x # xs = a @ p @ b"
    proof cases
      case 1
      then obtain r where "x # xs = [] @ p @ r" by (auto simp: starts_with_iff)
      then show ?thesis by blast
    next
      case 2
      then obtain a b where "xs = a @ p @ b" using Cons.IH by blast
      then have "x # xs = (x # a) @ p @ b" by simp
      then show ?thesis by blast
    qed
  next
    assume "\<exists>a b. x # xs = a @ p @ b"
    then obtain a b where ab: "x # xs = a @ p @ b" by blast
    show "contains_str (x # xs) p"
    proof (cases a)
      case Nil
      with ab have "starts_with (x # xs) p" by (simp add: starts_with_iff)
      then show ?thesis by simp
    next
      case (Cons y ys)
      with ab have "xs = ys @ p @ b" by simp
      with Cons.IH show ?thesis by auto
    qed
  qed
qed auto

lemma rsplit_once_None: "rsplit_once c s = None \<longleftrightarrow> c \<notin> set s"
  by (induction s) (auto split: option.splits)

lemma split_once_Some: "split_once s p = Some (a, b) \<Longrightarrow> s = a @ p @ b"
proof (induction s arbitrary: a)
  case (Cons x xs)
  then show ?case
    by (cases "starts_with (x # xs) p") (auto simp: starts_with_iff)
qed (simp split: if_splits)

lemma rsplit_once_Some: "rsplit_once c s = Some (a, b) \<Longrightarrow> s = a @ c # b \<and> c \<notin> set b"
  by (induction s arbitrary: a) (auto split: option.splits if_splits simp: rsplit_once_None)

lemma length_to_ascii_lowercase [simp]: "length (to_ascii_lowercase s) = length s"
  by (simp add: to_ascii_lowercase_def)

lemma lowercase_not_uppercase: "is_ascii_lowercase c \<Longrightarrow> \<not> is_ascii_uppercase c"
  by (simp add: byte_defs less_eq_char_def)

lemma digit_not_uppercase: "is_ascii_digit c \<Longrightarrow> \<not> is_ascii_uppercase c"
  by (simp add: byte_defs less_eq_char_def)

lemma lower_upper [simp]: "is_ascii_uppercase c \<Longrightarrow> is_ascii_lowercase (to_ascii_lowercase_byte c)"
proof -
  assume u: "is_ascii_uppercase c"
  then have "of_char c + 32 < (256 :: nat)" and "65 \<le> (of_char c :: nat)" "of_char c \<le> (90 :: nat)"
    by (simp_all add: byte_defs less_eq_char_def)
  with u show ?thesis
    by (simp add: to_ascii_lowercase_byte_def is_ascii_lowercase_def less_eq_char_def)
qed

lemma to_ascii_lowercase_byte_idem [simp]:
  "to_ascii_lowercase_byte (to_ascii_lowercase_byte c) = to_ascii_lowercase_byte c"
proof (cases "is_ascii_uppercase c")
  case True
  then have "\<not> is_ascii_uppercase (to_ascii_lowercase_byte c)"
    by (simp add: lowercase_not_uppercase)
  then show ?thesis by (simp add: to_ascii_lowercase_byte_def [of "to_ascii_lowercase_byte c"])
next
  case False
  then show ?thesis by (simp add: to_ascii_lowercase_byte_def)
qed

lemma to_ascii_lowercase_idem [simp]: "to_ascii_lowercase (to_ascii_lowercase s) = to_ascii_lowercase s"
  by (simp add: to_ascii_lowercase_def)

lemma to_ascii_lowercase_id: "\<forall>c \<in> set s. \<not> is_ascii_uppercase c \<Longrightarrow> to_ascii_lowercase s = s"
  by (simp add: to_ascii_lowercase_def to_ascii_lowercase_byte_def map_idI)

lemma eq_ignore_ascii_case_length: "eq_ignore_ascii_case a b \<Longrightarrow> length a = length b"
  by (metis eq_ignore_ascii_case_def length_to_ascii_lowercase)


section \<open>Machine arithmetic\<close>

definition checked_add_w :: "'a::len word \<Rightarrow> 'a word \<Rightarrow> 'a word option" where
  "checked_add_w a b = (if unat a + unat b < 2 ^ LENGTH('a) then Some (a + b) else None)"

definition saturating_add_w :: "'a::len word \<Rightarrow> 'a word \<Rightarrow> 'a word" where
  "saturating_add_w a b = (if unat a + unat b < 2 ^ LENGTH('a) then a + b else - 1)"

definition saturating_sub_w :: "'a::len word \<Rightarrow> 'a word \<Rightarrow> 'a word" where
  "saturating_sub_w a b = (if b \<le> a then a - b else 0)"

lemma checked_add_w_Some:
  fixes a b c :: "'a::len word"
  shows "checked_add_w a b = Some c \<Longrightarrow> unat c = unat a + unat b"
  by (auto simp: checked_add_w_def unat_word_ariths split: if_splits)

lemma checked_add_w_None:
  fixes a b :: "'a::len word"
  shows "checked_add_w a b = None \<longleftrightarrow> 2 ^ LENGTH('a) \<le> unat a + unat b"
  by (auto simp: checked_add_w_def)

lemma checked_add_w_ge:
  fixes a b c :: "'a::len word"
  shows "checked_add_w a b = Some c \<Longrightarrow> a \<le> c"
  by (drule checked_add_w_Some) (simp add: word_le_nat_alt)

lemma saturating_add_w_unat:
  fixes a b :: "'a::len word"
  shows "unat (saturating_add_w a b) = min (unat a + unat b) (2 ^ LENGTH('a) - 1)"
  using unsigned_less[of a] unsigned_less[of b]
  by (auto simp: saturating_add_w_def unat_word_ariths unsigned_minus_1_eq_mask
      mask_eq_exp_minus_1 min_def)

section \<open>Decimal display\<close>

fun show_nat :: "nat \<Rightarrow> string" where
  "show_nat n = (if n < 10 then [char_of (48 + n)] else show_nat (n div 10) @ [char_of (48 + n mod 10)])"

declare show_nat.simps [simp del]

fun read_nat :: "nat \<Rightarrow> string \<Rightarrow> nat" where
  "read_nat a [] = a"
| "read_nat a (c # cs) = read_nat (10 * a + (of_char c - 48)) cs"

lemma read_nat_append: "read_nat a (xs @ ys) = read_nat (read_nat a xs) ys"
  by (induction xs arbitrary: a) auto

lemma of_char_digit: "d < 10 \<Longrightarrow> of_char (char_of (48 + d)) = (48 + d :: nat)"
  by simp

lemma read_show_nat: "read_nat 0 (show_nat n) = n"
proof (induction n rule: show_nat.induct)
  case (1 n)
  then show ?case
    by (cases "n < 10") (simp_all add: show_nat.simps [of n] read_nat_append of_char_digit)
qed

lemma show_nat_inject: "show_nat m = show_nat n \<longleftrightarrow> m = n"
  by (metis read_show_nat)

lemma show_nat_digits: "c \<in> set (show_nat n) \<Longrightarrow> is_ascii_digit c"
proof (induction n rule: show_nat.induct)
  case (1 n)
  then show ?case
    by (cases "n < 10")
      (auto simp: show_nat.simps [of n] is_ascii_digit_def less_eq_char_def)
qed

lemma append_sep_inject:
  "c \<notin> set a \<Longrightarrow> c \<notin> set b \<Longrightarrow> a @ c # x = b @ c # y \<longleftrightarrow> a = b \<and> x = y"
proof (induction a arbitrary: b)
  case Nil
  then show ?case by (cases b) auto
next
  case (Cons z zs)
  then show ?case by (cases b) auto
qed

section \<open>Duplicate detection by sorting\<close>

text \<open>The code finds a duplicate by sorting and comparing neighbours (\<open>windows(2)\<close>).\<close>

fun adjacent_dup :: "'a list \<Rightarrow> 'a option" where
  "adjacent_dup (x # y # zs) = (if x = y then Some x else adjacent_dup (y # zs))"
| "adjacent_dup _ = None"

lemma adjacent_dup_sorted: "sorted xs \<Longrightarrow> adjacent_dup xs = None \<longleftrightarrow> distinct xs"
proof (induction xs rule: adjacent_dup.induct)
  case (1 x y zs)
  then show ?case by (auto simp: order.antisym)
qed auto

lemma adjacent_dup_sort: "adjacent_dup (sort xs) = None \<longleftrightarrow> distinct xs"
  by (simp add: adjacent_dup_sorted)

section \<open>Sorting by a key\<close>

lemma distinct_map_sort_key: "distinct (map f (sort_key g xs)) = distinct (map f xs)"
  by (simp add: distinct_map)

lemma sorted_key_unique:
  assumes "sorted (map f xs)" "distinct (map f xs)" "sorted (map f ys)" "distinct (map f ys)"
    and "set xs = set ys"
  shows "xs = ys"
  using assms by (intro map_sorted_distinct_set_unique [of f]) (auto simp: distinct_map)

section \<open>Hash maps\<close>

definition keys_distinct :: "('k \<times> 'v) list \<Rightarrow> bool" where
  "keys_distinct m \<longleftrightarrow> distinct (map fst m)"

definition values_of :: "('k \<times> 'v) list \<Rightarrow> 'v list" where
  "values_of m = map snd m"

definition keyed_by :: "('v \<Rightarrow> 'k) \<Rightarrow> ('k \<times> 'v) list \<Rightarrow> bool" where
  "keyed_by f m \<longleftrightarrow> (\<forall>(k, v) \<in> set m. f v = k)"

lemma keys_distinct_Nil [simp]: "keys_distinct []"
  by (simp add: keys_distinct_def)

lemma keys_distinct_update [simp]: "keys_distinct m \<Longrightarrow> keys_distinct (AList.update k v m)"
  by (simp add: keys_distinct_def distinct_update)

lemma keys_distinct_delete [simp]: "keys_distinct m \<Longrightarrow> keys_distinct (AList.delete k m)"
  by (simp add: keys_distinct_def distinct_delete)

lemma keyed_by_Nil [simp]: "keyed_by f []"
  by (simp add: keyed_by_def)

lemma set_alist_update: "set (AList.update k v m) \<subseteq> insert (k, v) (set m)"
  by (induction m) auto

lemma keyed_by_update [simp]: "keyed_by f m \<Longrightarrow> f v = k \<Longrightarrow> keyed_by f (AList.update k v m)"
  using set_alist_update[of k v m] by (auto simp: keyed_by_def)

lemma keyed_by_delete [simp]: "keyed_by f m \<Longrightarrow> keyed_by f (AList.delete k m)"
  by (auto simp: keyed_by_def AList.delete_eq)

lemma map_of_update [simp]: "map_of (AList.update k v m) = (map_of m)(k \<mapsto> v)"
  by (rule update_conv')

lemma map_of_delete [simp]: "map_of (AList.delete k m) = (map_of m)(k := None)"
  by (rule delete_conv')

lemma values_of_iff: "keys_distinct m \<Longrightarrow> v \<in> set (values_of m) \<longleftrightarrow> (\<exists>k. map_of m k = Some v)"
  by (force simp: keys_distinct_def values_of_def)

lemma values_of_key:
  "keys_distinct m \<Longrightarrow> keyed_by f m \<Longrightarrow> v \<in> set (values_of m) \<longleftrightarrow> map_of m (f v) = Some v"
  by (force simp: keys_distinct_def values_of_def keyed_by_def)

lemma keyed_by_map_of: "keyed_by f m \<Longrightarrow> map_of m k = Some v \<Longrightarrow> f v = k"
  by (drule map_of_SomeD) (auto simp: keyed_by_def)

lemma distinct_keys_of_values:
  "keys_distinct m \<Longrightarrow> keyed_by f m \<Longrightarrow> distinct (map f (values_of m))"
proof -
  assume "keys_distinct m" and keyed: "keyed_by f m"
  have "map f (values_of m) = map fst m"
    using keyed by (induction m) (auto simp: values_of_def keyed_by_def)
  with \<open>keys_distinct m\<close> show ?thesis by (simp add: keys_distinct_def)
qed

end
