(* ===== verification/Guard_Policy.thy ===== *)
theory Guard_Policy
  imports Prelude
begin

text \<open>
  The Guard policy model of \<open>aiec-guard/src/policy.rs\<close>: the policy document and its
  parts as records, the validators of names, methods, paths, lists and limits, the four
  shipped templates, normalisation for hashing, and the selection of an effective policy
  from a sandbox's Guard configuration. The text of an error message is not modelled:
  each place where the code refuses has a constructor of its own, with the field label the
  message starts with. The YAML reader, the JSON writer and SHA-256 are
  arguments. The lemmas relate every validator to a declarative description of what it
  accepts, show what the templates permit, and show that normalisation keeps validity.
\<close>

section \<open>Errors\<close>

datatype name_fault =
    TooManyEntries | EmptyName | NameTooLong | NameNotAscii | NameNotLowercase
  | NameWildcard | NameNotBare | NameTrailingDot | TooFewLabels | LabelLength | LabelEdge
  | LabelChars | NumericTld

datatype field_fault =
    ZeroPort | BadProtocol | BadScheme | MethodLength | MethodChars | PathEmpty
  | PathTooLong | PathNotAscii | PathNotAbsolute | PathControl | PathChars | PathTraversal
  | BindingLength | BindingChars | EmptyEntry | DuplicateEntry | BadCredentialHeader
  | LimitZero | LimitTooLarge | GrantEntries | GrantMethods | GrantPaths

datatype rule_fault =
    BadRecordType | ModelWithoutMethods | ModelWithoutPaths | RequestBytesOverTotal
  | ResponseBytesOverTotal | BadVersion | DuplicateDestination | DuplicateBinding
  | UncoveredBinding | UnboundModel | ModelBindingMismatch | ModelWithoutEgress
  | EgressOutsideDns | UnusedZone

datatype source_fault =
    NoNetworkWithInputs | AllowlistRequired | ReadOnlyWithModel | ReadOnlyWithoutMethods
  | ReadOnlyMethod | ModelRequired | WatchdogTimeout | MaxModelRequests | AmbiguousSource
  | DocumentTooLarge | DocumentEmpty | DocumentInvalid

datatype boundary_fault =
    BoundaryTooMany | BoundaryDuplicate | TestKeyForm | TestHostTooLong | TestPort
  | TestPortZero | TestTooManyAddresses | TestNoAddress | TestBlockedHost
  | TestPublicAddress | TestAddressTwice | TestAddressDenied

datatype policy_fault =
    NameFault name_fault string | FieldFault field_fault string | RuleFault rule_fault
  | SourceFault source_fault | L7Rule string | BoundaryFault boundary_fault string
  | BoundaryViolation string "u16 option" string string

datatype guard_error =
    Policy policy_fault | Denied string | Integrity string | Unavailable string
  | AlreadyApplied string | GuardJson

section \<open>Names, methods, paths and lists\<close>

definition is_rule_name :: "string \<Rightarrow> bool" where
  "is_rule_name name \<longleftrightarrow>
     name \<noteq> [] \<and> list_all (\<lambda>b. is_ascii_alphanumeric b \<or> b \<in> set ''-_.'') name"

definition POLICY_VERSION :: u32 where "POLICY_VERSION = 1"
definition MAX_POLICY_BYTES :: nat where "MAX_POLICY_BYTES = 65536"
definition MAX_HOST_BYTES :: nat where "MAX_HOST_BYTES = 253"
definition MAX_LABEL_BYTES :: nat where "MAX_LABEL_BYTES = 63"
definition MAX_PATH_BYTES :: nat where "MAX_PATH_BYTES = 512"
definition MAX_METHOD_BYTES :: nat where "MAX_METHOD_BYTES = 32"
definition MAX_LIST_ITEMS :: nat where "MAX_LIST_ITEMS = 32"
definition MAX_EGRESS_RULES :: nat where "MAX_EGRESS_RULES = 128"
definition MAX_DNS_ZONES :: nat where "MAX_DNS_ZONES = 64"
definition MAX_CREDENTIAL_BINDINGS :: nat where "MAX_CREDENTIAL_BINDINGS = 32"
definition MAX_RECORD_TYPES :: nat where "MAX_RECORD_TYPES = 4"

definition ALLOWED_CREDENTIAL_HEADERS :: "string list" where
  "ALLOWED_CREDENTIAL_HEADERS = [''authorization'', ''x-api-key'']"

definition ALLOWED_RECORD_TYPES :: "string list" where
  "ALLOWED_RECORD_TYPES = [''A'', ''AAAA'']"

definition READ_ONLY_METHODS :: "string list" where
  "READ_ONLY_METHODS = [''GET'', ''HEAD'', ''OPTIONS'']"

definition check_count :: "nat \<Rightarrow> nat \<Rightarrow> string \<Rightarrow> guard_error + unit" where
  "check_count len mx field = (if mx < len then Inl (Policy (NameFault TooManyEntries field)) else Inr ())"

definition strip_trailing_dot :: "string \<Rightarrow> string" where
  "strip_trailing_dot name = (case strip_suffix name ''.'' of None \<Rightarrow> name | Some s \<Rightarrow> s)"

definition eq_ignore_case :: "string \<Rightarrow> string \<Rightarrow> bool" where
  "eq_ignore_case canonical query =
     (let query = (case strip_suffix query ''.'' of None \<Rightarrow> query | Some s \<Rightarrow> s)
      in length canonical = length query \<and> eq_ignore_ascii_case canonical query)"

definition ends_with_ignore_case :: "string \<Rightarrow> string \<Rightarrow> bool" where
  "ends_with_ignore_case t suffix \<longleftrightarrow>
     length suffix \<le> length t \<and> eq_ignore_ascii_case (drop (length t - length suffix) t) suffix"

definition validate_label :: "string \<Rightarrow> string \<Rightarrow> guard_error + unit" where
  "validate_label field label =
     (if label = [] \<or> MAX_LABEL_BYTES < length label then Inl (Policy (NameFault LabelLength field))
      else if \<not> is_ascii_alphanumeric (hd label) \<or> \<not> is_ascii_alphanumeric (last label)
      then Inl (Policy (NameFault LabelEdge field))
      else if \<not> list_all (\<lambda>b. is_ascii_alphanumeric b \<or> b = CHR ''-'') label
      then Inl (Policy (NameFault LabelChars field))
      else Inr ())"

definition validate_dns_name :: "string \<Rightarrow> string \<Rightarrow> nat \<Rightarrow> guard_error + unit" where
  "validate_dns_name raw field min_labels =
     (if raw = [] then Inl (Policy (NameFault EmptyName field))
      else if MAX_HOST_BYTES < length raw then Inl (Policy (NameFault NameTooLong field))
      else if \<not> list_all is_ascii_byte raw then Inl (Policy (NameFault NameNotAscii field))
      else if list_ex is_ascii_uppercase raw then Inl (Policy (NameFault NameNotLowercase field))
      else if CHR ''*'' \<in> set raw then Inl (Policy (NameFault NameWildcard field))
      else if list_ex (\<lambda>c. c \<in> set ''/@: '') raw then Inl (Policy (NameFault NameNotBare field))
      else if ends_with raw ''.'' then Inl (Policy (NameFault NameTrailingDot field))
      else (let labels = split_on (CHR ''.'') raw in
        if length labels < min_labels then Inl (Policy (NameFault TooFewLabels field))
        else then_r (each_r (validate_label field) labels)
          (if 2 \<le> min_labels \<and> \<not> list_all is_ascii_alphabetic (last labels)
           then Inl (Policy (NameFault NumericTld field)) else Inr ())))"

definition validate_query_host :: "string \<Rightarrow> string \<Rightarrow> nat \<Rightarrow> guard_error + unit" where
  "validate_query_host raw field min_labels =
     (let stripped = (case strip_suffix raw ''.'' of None \<Rightarrow> raw | Some s \<Rightarrow> s);
          canonical_case = (\<not> list_ex is_ascii_uppercase raw)
      in if length stripped = length raw \<and> canonical_case
         then validate_dns_name raw field min_labels
         else validate_dns_name (to_ascii_lowercase stripped) field min_labels)"

definition validate_port :: "u16 \<Rightarrow> string \<Rightarrow> guard_error + unit" where
  "validate_port port field = (if port = 0 then Inl (Policy (FieldFault ZeroPort field)) else Inr ())"

definition validate_protocol :: "string \<Rightarrow> string \<Rightarrow> guard_error + unit" where
  "validate_protocol protocol field =
     (if protocol \<noteq> ''tcp'' then Inl (Policy (FieldFault BadProtocol field)) else Inr ())"

definition validate_scheme :: "string \<Rightarrow> string \<Rightarrow> guard_error + unit" where
  "validate_scheme scheme field =
     (if scheme \<noteq> ''https'' \<and> scheme \<noteq> ''http'' then Inl (Policy (FieldFault BadScheme field)) else Inr ())"

definition validate_method :: "string \<Rightarrow> string \<Rightarrow> guard_error + unit" where
  "validate_method method field =
     (if method = [] \<or> MAX_METHOD_BYTES < length method then Inl (Policy (FieldFault MethodLength field))
      else if \<not> list_all is_ascii_uppercase method then Inl (Policy (FieldFault MethodChars field))
      else Inr ())"

definition PATH_REFUSED_BYTES :: string where
  "PATH_REFUSED_BYTES = [CHR 0x5C, CHR 0x27, CHR 0x22] @ ''?#*;<>|{}''"

definition validate_path :: "string \<Rightarrow> string \<Rightarrow> guard_error + unit" where
  "validate_path path field =
     (if path = [] then Inl (Policy (FieldFault PathEmpty field))
      else if MAX_PATH_BYTES < length path then Inl (Policy (FieldFault PathTooLong field))
      else if \<not> list_all is_ascii_byte path then Inl (Policy (FieldFault PathNotAscii field))
      else if \<not> starts_with path ''/'' then Inl (Policy (FieldFault PathNotAbsolute field))
      else if list_ex (\<lambda>b. is_ascii_control b \<or> b = CHR '' '') path then Inl (Policy (FieldFault PathControl field))
      else if list_ex (\<lambda>b. b \<in> set PATH_REFUSED_BYTES) path then Inl (Policy (FieldFault PathChars field))
      else if contains_str path ''..'' \<or> contains_str path ''//'' then Inl (Policy (FieldFault PathTraversal field))
      else Inr ())"

definition validate_binding_name :: "string \<Rightarrow> string \<Rightarrow> guard_error + unit" where
  "validate_binding_name name field =
     (if name = [] \<or> 64 < length name then Inl (Policy (FieldFault BindingLength field))
      else if \<not> is_rule_name name then Inl (Policy (FieldFault BindingChars field))
      else Inr ())"

definition validate_list :: "string \<Rightarrow> string list \<Rightarrow> nat \<Rightarrow> guard_error + unit" where
  "validate_list field items mx =
     then_r (check_count (length items) mx field)
     (then_r (each_r (\<lambda>item. if item = [] then Inl (Policy (FieldFault EmptyEntry field)) else Inr ()) items)
     (case adjacent_dup (sort items) of
        Some _ \<Rightarrow> Inl (Policy (FieldFault DuplicateEntry field))
      | None \<Rightarrow> Inr ()))"

section \<open>The policy document\<close>

datatype l7_mode = Sni | Intercept

record http_rule =
  hr_host :: string
  hr_methods :: "string list"
  hr_paths :: "string list"

record mcp_rules =
  mcp_allowed_methods :: "string list"
  mcp_allowed_tools :: "string list"
  mcp_denied_tools :: "string list"

definition default_mcp_rules :: mcp_rules where
  "default_mcp_rules = \<lparr>mcp_allowed_methods = [''initialize'', ''tools/list'', ''tools/call''],
     mcp_allowed_tools = [], mcp_denied_tools = []\<rparr>"

record graphql_rules =
  gq_allow_mutations :: bool
  gq_operations :: "string list"
  gq_root_fields :: "string list"

record l7_policy =
  l7_mode_of :: l7_mode
  l7_http :: "http_rule list"
  l7_mcp :: mcp_rules
  l7_graphql :: graphql_rules
  l7_intercept_ack :: bool

datatype watcher_failure_mode = ContinueWithRules | PauseIfUnavailable

record watcher_config =
  wc_enabled :: bool
  wc_failure_mode :: watcher_failure_mode
  wc_sample_rate :: u32
  wc_batch_size :: u32
  wc_token_budget :: u64
  wc_cost_budget_micros :: u64

definition default_watcher_config :: watcher_config where
  "default_watcher_config = \<lparr>wc_enabled = False, wc_failure_mode = ContinueWithRules,
     wc_sample_rate = 10, wc_batch_size = 20, wc_token_budget = 200000, wc_cost_budget_micros = 0\<rparr>"

record canary_spec =
  cs_path :: string
  cs_value :: string

record canary_config =
  cc_files :: "canary_spec list"
  cc_hostnames :: "string list"
  cc_credentials :: "string list"

datatype topology = Outside | Inside

datatype policy_template = NoNetwork | ModelOnly | ModelPlusAllowlist | ReadOnlyApi

definition requires_model :: "policy_template \<Rightarrow> bool" where
  "requires_model t \<longleftrightarrow> t = ModelOnly \<or> t = ModelPlusAllowlist"

record dns_policy =
  dns_allowed_zones :: "string list"
  dns_allowed_record_types :: "string list"

definition default_record_types :: "string list" where
  "default_record_types = ALLOWED_RECORD_TYPES"

record egress_rule =
  er_host :: string
  er_port :: u16
  er_protocol :: string
  er_allowed_methods :: "string list"
  er_allowed_paths :: "string list"

record model_endpoint =
  me_host :: string
  me_port :: u16
  me_scheme :: string
  me_allowed_methods :: "string list"
  me_allowed_paths :: "string list"
  me_credential :: string

definition default_model_endpoint :: model_endpoint where
  "default_model_endpoint = \<lparr>me_host = [], me_port = 443, me_scheme = ''https'',
     me_allowed_methods = [''POST''], me_allowed_paths = [''/v1/''], me_credential = ''model-main''\<rparr>"

record credential_binding =
  cb_name :: string
  cb_host :: string
  cb_port :: u16
  cb_header :: string

record limits =
  lim_requests_per_minute :: u32
  lim_dns_queries_per_minute :: u32
  lim_bytes_out :: u64
  lim_bytes_in :: u64
  lim_max_request_bytes :: u64
  lim_max_response_bytes :: u64
  lim_max_concurrent_requests :: u32

definition default_limits :: limits where
  "default_limits = \<lparr>lim_requests_per_minute = 60, lim_dns_queries_per_minute = 120,
     lim_bytes_out = push_bit 20 64, lim_bytes_in = push_bit 20 256,
     lim_max_request_bytes = push_bit 20 1, lim_max_response_bytes = push_bit 20 64,
     lim_max_concurrent_requests = 4\<rparr>"

record network_policy =
  np_dns :: dns_policy
  np_egress :: "egress_rule list"

record guard_policy =
  gp_version :: u32
  gp_network :: network_policy
  gp_model :: "model_endpoint option"
  gp_credentials :: "credential_binding list"
  gp_limits :: limits

abbreviation gp_dns :: "guard_policy \<Rightarrow> dns_policy" where
  "gp_dns p \<equiv> np_dns (gp_network p)"

abbreviation gp_egress :: "guard_policy \<Rightarrow> egress_rule list" where
  "gp_egress p \<equiv> np_egress (gp_network p)"

abbreviation gp_zones :: "guard_policy \<Rightarrow> string list" where
  "gp_zones p \<equiv> dns_allowed_zones (gp_dns p)"

definition default_guard_policy :: guard_policy where
  "default_guard_policy = \<lparr>gp_version = POLICY_VERSION,
     gp_network = \<lparr>np_dns = \<lparr>dns_allowed_zones = [], dns_allowed_record_types = default_record_types\<rparr>,
       np_egress = []\<rparr>, gp_model = None, gp_credentials = [], gp_limits = default_limits\<rparr>"

section \<open>Zones\<close>

definition zone_matches :: "string \<Rightarrow> string \<Rightarrow> bool" where
  "zone_matches zone host =
     (case strip_prefix zone ''.'' of
        Some suffix \<Rightarrow>
          length suffix < length host
          \<and> host ! (length host - length suffix - 1) = CHR ''.''
          \<and> ends_with_ignore_case host suffix
      | None \<Rightarrow> eq_ignore_case zone host)"

definition allows_name :: "dns_policy \<Rightarrow> string \<Rightarrow> bool" where
  "allows_name d name =
     (let name = strip_trailing_dot name in list_ex (\<lambda>zone. zone_matches zone name) (dns_allowed_zones d))"

section \<open>Validation\<close>

definition validate_dns :: "dns_policy \<Rightarrow> guard_error + unit" where
  "validate_dns d =
     then_r (check_count (length (dns_allowed_zones d)) MAX_DNS_ZONES ''network.dns.allowed_zones'')
     (then_r (check_count (length (dns_allowed_record_types d)) MAX_RECORD_TYPES
        ''network.dns.allowed_record_types'')
     (then_r (each_r (\<lambda>zone. case strip_prefix zone ''.'' of
          Some suffix \<Rightarrow> validate_dns_name suffix ''network.dns.allowed_zones suffix'' 1
        | None \<Rightarrow> validate_dns_name zone ''network.dns.allowed_zones'' 2) (dns_allowed_zones d))
     (then_r (each_r (\<lambda>t. if t \<notin> set ALLOWED_RECORD_TYPES then Inl (Policy (RuleFault BadRecordType)) else Inr ())
        (dns_allowed_record_types d))
     (then_r (validate_list ''network.dns.allowed_zones'' (dns_allowed_zones d) MAX_DNS_ZONES)
        (validate_list ''network.dns.allowed_record_types'' (dns_allowed_record_types d)
           MAX_RECORD_TYPES)))))"

definition from_model :: "model_endpoint \<Rightarrow> egress_rule" where
  "from_model endpoint = \<lparr>er_host = me_host endpoint, er_port = me_port endpoint,
     er_protocol = ''tcp'', er_allowed_methods = me_allowed_methods endpoint,
     er_allowed_paths = me_allowed_paths endpoint\<rparr>"

definition validate_egress :: "egress_rule \<Rightarrow> string \<Rightarrow> guard_error + unit" where
  "validate_egress r field =
     then_r (validate_dns_name (er_host r) (field @ ''.host'') 2)
     (then_r (validate_port (er_port r) (field @ ''.port''))
     (then_r (validate_protocol (er_protocol r) (field @ ''.protocol''))
     (then_r (validate_list (field @ ''.allowed_methods'') (er_allowed_methods r) MAX_LIST_ITEMS)
     (then_r (validate_list (field @ ''.allowed_paths'') (er_allowed_paths r) MAX_LIST_ITEMS)
     (then_r (each_r (\<lambda>m. validate_method m (field @ ''.allowed_methods'')) (er_allowed_methods r))
        (each_r (\<lambda>p. validate_path p (field @ ''.allowed_paths'')) (er_allowed_paths r)))))))"

definition validate_model :: "model_endpoint \<Rightarrow> guard_error + unit" where
  "validate_model m =
     then_r (validate_dns_name (me_host m) ''model.host'' 2)
     (then_r (validate_port (me_port m) ''model.port'')
     (then_r (validate_scheme (me_scheme m) ''model.scheme'')
     (if me_allowed_methods m = [] then Inl (Policy (RuleFault ModelWithoutMethods))
      else if me_allowed_paths m = [] then Inl (Policy (RuleFault ModelWithoutPaths))
      else
        then_r (validate_list ''model.allowed_methods'' (me_allowed_methods m) MAX_LIST_ITEMS)
        (then_r (validate_list ''model.allowed_paths'' (me_allowed_paths m) MAX_LIST_ITEMS)
        (then_r (each_r (\<lambda>x. validate_method x ''model.allowed_methods'') (me_allowed_methods m))
        (then_r (each_r (\<lambda>x. validate_path x ''model.allowed_paths'') (me_allowed_paths m))
           (validate_binding_name (me_credential m) ''model.credential'')))))))"

definition validate_credential :: "credential_binding \<Rightarrow> string \<Rightarrow> guard_error + unit" where
  "validate_credential b field =
     then_r (validate_binding_name (cb_name b) (field @ ''.name''))
     (then_r (validate_dns_name (cb_host b) (field @ ''.host'') 2)
     (then_r (validate_port (cb_port b) (field @ ''.port''))
     (if to_ascii_lowercase (cb_header b) \<notin> set ALLOWED_CREDENTIAL_HEADERS
      then Inl (Policy (FieldFault BadCredentialHeader field)) else Inr ())))"

definition limit_checks :: "limits \<Rightarrow> (u64 \<times> u64 \<times> string) list" where
  "limit_checks l =
     [(ucast (lim_requests_per_minute l), 100000, ''limits.requests_per_minute''),
      (ucast (lim_dns_queries_per_minute l), 100000, ''limits.dns_queries_per_minute''),
      (lim_bytes_out l, push_bit 40 1, ''limits.bytes_out''),
      (lim_bytes_in l, push_bit 40 1, ''limits.bytes_in''),
      (lim_max_request_bytes l, push_bit 20 64, ''limits.max_request_bytes''),
      (lim_max_response_bytes l, push_bit 20 512, ''limits.max_response_bytes''),
      (ucast (lim_max_concurrent_requests l), 1024, ''limits.max_concurrent_requests'')]"

definition validate_limits :: "limits \<Rightarrow> guard_error + unit" where
  "validate_limits l =
     then_r (each_r (\<lambda>(value, mx, field).
        if value = 0 then Inl (Policy (FieldFault LimitZero field))
        else if mx < value then Inl (Policy (FieldFault LimitTooLarge field)) else Inr ()) (limit_checks l))
     (if lim_bytes_out l < lim_max_request_bytes l then Inl (Policy (RuleFault RequestBytesOverTotal))
      else if lim_bytes_in l < lim_max_response_bytes l then Inl (Policy (RuleFault ResponseBytesOverTotal))
      else Inr ())"

definition destination :: "egress_rule \<Rightarrow> string" where
  "destination r = er_host r @ '':'' @ show_nat (unat (er_port r))"

definition validate_model_binding :: "guard_policy \<Rightarrow> guard_error + unit" where
  "validate_model_binding p =
     (case gp_model p of
        None \<Rightarrow>
          each_r (\<lambda>b. if \<not> list_ex (\<lambda>r. er_host r = cb_host b \<and> er_port r = cb_port b) (gp_egress p)
             then Inl (Policy (RuleFault UncoveredBinding)) else Inr ()) (gp_credentials p)
      | Some m \<Rightarrow>
          then_r (validate_model m)
          (bind_r (ok_or (find (\<lambda>b. cb_name b = me_credential m) (gp_credentials p)) (Policy (RuleFault UnboundModel)))
             (\<lambda>b. if cb_host b \<noteq> me_host m \<or> cb_port b \<noteq> me_port m
                  then Inl (Policy (RuleFault ModelBindingMismatch))
                  else if \<not> list_ex (\<lambda>r. er_host r = me_host m \<and> er_port r = me_port m) (gp_egress p)
                  then Inl (Policy (RuleFault ModelWithoutEgress))
                  else Inr ())))"

definition validate_dns_egress_consistency :: "guard_policy \<Rightarrow> guard_error + unit" where
  "validate_dns_egress_consistency p =
     then_r (each_r (\<lambda>r. if \<not> list_ex (\<lambda>zone. zone_matches zone (er_host r)) (gp_zones p)
          then Inl (Policy (RuleFault EgressOutsideDns)) else Inr ()) (gp_egress p))
     (each_r (\<lambda>zone. if \<not> list_ex (\<lambda>r. zone_matches zone (er_host r)) (gp_egress p)
          then Inl (Policy (RuleFault UnusedZone)) else Inr ()) (gp_zones p))"

definition validate :: "guard_policy \<Rightarrow> guard_error + unit" where
  "validate p =
     (if gp_version p \<noteq> POLICY_VERSION then Inl (Policy (RuleFault BadVersion))
      else
        then_r (validate_dns (gp_dns p))
        (then_r (check_count (length (gp_egress p)) MAX_EGRESS_RULES ''network.egress'')
        (then_r (each_r (\<lambda>(index, rule). validate_egress rule (''network.egress['' @ show_nat index @ '']''))
           (enumerate 0 (gp_egress p)))
        (if adjacent_dup (sort (map destination (gp_egress p))) \<noteq> None then Inl (Policy (RuleFault DuplicateDestination))
         else
           then_r (check_count (length (gp_credentials p)) MAX_CREDENTIAL_BINDINGS ''credentials'')
           (then_r (each_r (\<lambda>(index, b). validate_credential b (''credentials['' @ show_nat index @ '']''))
              (enumerate 0 (gp_credentials p)))
           (if adjacent_dup (sort (map cb_name (gp_credentials p))) \<noteq> None
            then Inl (Policy (RuleFault DuplicateBinding))
            else
              then_r (validate_model_binding p)
              (then_r (validate_dns_egress_consistency p)
                 (validate_limits (gp_limits p)))))))))"

definition credential_binding_of :: "guard_policy \<Rightarrow> string \<Rightarrow> credential_binding option" where
  "credential_binding_of p name = find (\<lambda>b. cb_name b = name) (gp_credentials p)"

definition egress_rule_of :: "guard_policy \<Rightarrow> string \<Rightarrow> u16 \<Rightarrow> egress_rule option" where
  "egress_rule_of p host port = find (\<lambda>r. er_host r = host \<and> er_port r = port) (gp_egress p)"

section \<open>Normalisation and hashing\<close>

definition rule_key :: "egress_rule \<Rightarrow> string \<times> u16 \<times> string" where
  "rule_key r = (er_host r, er_port r, er_protocol r)"

definition sort_rule_lists :: "egress_rule \<Rightarrow> egress_rule" where
  "sort_rule_lists r = r\<lparr>er_allowed_methods := sort (er_allowed_methods r),
     er_allowed_paths := sort (er_allowed_paths r)\<rparr>"

definition normalized :: "guard_policy \<Rightarrow> guard_policy" where
  "normalized p =
     p\<lparr>gp_network :=
         \<lparr>np_dns = \<lparr>dns_allowed_zones = sort (gp_zones p),
                   dns_allowed_record_types = sort (dns_allowed_record_types (gp_dns p))\<rparr>,
          np_egress = map sort_rule_lists (sort_key rule_key (gp_egress p))\<rparr>,
       gp_credentials := sort_key cb_name (gp_credentials p)\<rparr>"

definition canonical_json :: "(guard_policy \<Rightarrow> guard_error + 'j) \<Rightarrow> guard_policy \<Rightarrow> guard_error + 'j" where
  "canonical_json to_vec p = to_vec (normalized p)"

definition policy_hash_of ::
  "(guard_policy \<Rightarrow> guard_error + 'j) \<Rightarrow> ('j \<Rightarrow> string) \<Rightarrow> guard_policy \<Rightarrow> guard_error + string" where
  "policy_hash_of to_vec sha256_hex p = bind_r (canonical_json to_vec p) (\<lambda>bytes. Inr (sha256_hex bytes))"

section \<open>Templates and the effective policy\<close>

definition require_model :: "model_endpoint option \<Rightarrow> guard_error + model_endpoint" where
  "require_model m = ok_or m (Policy (SourceFault ModelRequired))"

definition model_binding :: "model_endpoint \<Rightarrow> credential_binding" where
  "model_binding m = \<lparr>cb_name = me_credential m, cb_host = me_host m, cb_port = me_port m,
     cb_header = ''authorization''\<rparr>"

definition read_only_rule :: "egress_rule \<Rightarrow> guard_error + unit" where
  "read_only_rule rule =
     (if er_allowed_methods rule = [] then Inl (Policy (SourceFault ReadOnlyWithoutMethods))
      else each_r (\<lambda>m. if m \<notin> set READ_ONLY_METHODS then Inl (Policy (SourceFault ReadOnlyMethod)) else Inr ())
             (er_allowed_methods rule))"

definition template_parts ::
  "policy_template \<Rightarrow> model_endpoint option \<Rightarrow> egress_rule list
     \<Rightarrow> guard_error + (egress_rule list \<times> string list \<times> credential_binding list)" where
  "template_parts t model_endpoint allowlist =
     (case t of
        NoNetwork \<Rightarrow>
          if model_endpoint \<noteq> None \<or> allowlist \<noteq> [] then Inl (Policy (SourceFault NoNetworkWithInputs))
          else Inr ([], [], [])
      | ModelOnly \<Rightarrow>
          bind_r (require_model model_endpoint) (\<lambda>m.
          then_r (check_count (length allowlist) MAX_EGRESS_RULES ''allowlist'')
            (Inr ([from_model m], [me_host m], [model_binding m])))
      | ModelPlusAllowlist \<Rightarrow>
          bind_r (require_model model_endpoint) (\<lambda>m.
          if allowlist = [] then Inl (Policy (SourceFault AllowlistRequired))
          else then_r (check_count (length allowlist + 1) MAX_EGRESS_RULES ''network.egress'')
            (Inr (from_model m # allowlist, me_host m # map er_host allowlist, [model_binding m])))
      | ReadOnlyApi \<Rightarrow>
          if model_endpoint \<noteq> None then Inl (Policy (SourceFault ReadOnlyWithModel))
          else if allowlist = [] then Inl (Policy (SourceFault AllowlistRequired))
          else then_r (check_count (length allowlist) MAX_EGRESS_RULES ''allowlist'')
            (then_r (each_r read_only_rule allowlist)
              (Inr (allowlist, map er_host allowlist, []))))"

definition template_policy ::
  "policy_template \<Rightarrow> model_endpoint option \<Rightarrow> egress_rule list \<Rightarrow> guard_error + guard_policy" where
  "template_policy t model_endpoint allowlist =
     bind_r (template_parts t model_endpoint allowlist) (\<lambda>(egress, zones, credentials).
       let policy = \<lparr>gp_version = POLICY_VERSION,
             gp_network = \<lparr>np_dns = \<lparr>dns_allowed_zones = zones,
                 dns_allowed_record_types = default_record_types\<rparr>, np_egress = egress\<rparr>,
             gp_model = model_endpoint, gp_credentials = credentials,
             gp_limits = default_limits\<rparr>
       in then_r (validate policy) (Inr policy))"

record guard_config =
  gc_topology :: topology
  gc_policy_template :: policy_template
  gc_policy :: "guard_policy option"
  gc_model_endpoint :: "model_endpoint option"
  gc_allowlist :: "egress_rule list"
  gc_watchdog_timeout_ms :: u64
  gc_max_model_requests :: u64
  gc_l7 :: "l7_policy option"
  gc_watcher :: watcher_config
  gc_canaries :: canary_config
  gc_require_signed_image :: bool

definition default_guard_config :: guard_config where
  "default_guard_config = \<lparr>gc_topology = Outside, gc_policy_template = NoNetwork, gc_policy = None,
     gc_model_endpoint = None, gc_allowlist = [], gc_watchdog_timeout_ms = 10000,
     gc_max_model_requests = 10000, gc_l7 = None, gc_watcher = default_watcher_config,
     gc_canaries = \<lparr>cc_files = [], cc_hostnames = [], cc_credentials = []\<rparr>,
     gc_require_signed_image = False\<rparr>"

definition template_inputs_present :: "guard_config \<Rightarrow> bool" where
  "template_inputs_present c \<longleftrightarrow>
     gc_policy_template c \<noteq> NoNetwork \<or> gc_model_endpoint c \<noteq> None \<or> gc_allowlist c \<noteq> []"

definition effective_policy :: "guard_config \<Rightarrow> guard_error + guard_policy" where
  "effective_policy c =
     (if \<not> (1000 \<le> gc_watchdog_timeout_ms c \<and> gc_watchdog_timeout_ms c \<le> 60000)
      then Inl (Policy (SourceFault WatchdogTimeout))
      else if gc_max_model_requests c = 0 \<or> 9223372036854775807 < gc_max_model_requests c
      then Inl (Policy (SourceFault MaxModelRequests))
      else case gc_policy c of
        Some policy \<Rightarrow>
          if template_inputs_present c then Inl (Policy (SourceFault AmbiguousSource))
          else then_r (validate policy) (Inr (normalized policy))
      | None \<Rightarrow>
          template_policy (gc_policy_template c) (gc_model_endpoint c) (gc_allowlist c))"

text \<open>\<open>from_yaml\<close>: the YAML reader (with its duplicate and unknown key refusal) is the argument.\<close>

definition guard_policy_from_yaml ::
  "(string \<Rightarrow> guard_policy option) \<Rightarrow> string \<Rightarrow> guard_error + guard_policy" where
  "guard_policy_from_yaml yaml t =
     (if MAX_POLICY_BYTES < length t then Inl (Policy (SourceFault DocumentTooLarge))
      else if trim_is_empty t then Inl (Policy (SourceFault DocumentEmpty))
      else bind_r (ok_or (yaml t) (Policy (SourceFault DocumentInvalid))) (\<lambda>policy.
        then_r (validate policy) (Inr policy)))"

definition guard_config_from_yaml ::
  "(string \<Rightarrow> guard_config option) \<Rightarrow> string \<Rightarrow> guard_error + guard_config" where
  "guard_config_from_yaml yaml t =
     (if MAX_POLICY_BYTES < length t then Inl (Policy (SourceFault DocumentTooLarge))
      else if trim_is_empty t then Inl (Policy (SourceFault DocumentEmpty))
      else bind_r (ok_or (yaml t) (Policy (SourceFault DocumentInvalid))) (\<lambda>config.
        bind_r (effective_policy config) (\<lambda>_. Inr config)))"

section \<open>What the validators accept\<close>

named_theorems policy_simps "each validator as the property it decides"

definition dns_label_ok :: "string \<Rightarrow> bool" where
  "dns_label_ok l \<longleftrightarrow>
     l \<noteq> [] \<and> length l \<le> 63
     \<and> (\<forall>c \<in> set l. is_ascii_lowercase c \<or> is_ascii_digit c \<or> c = CHR ''-'')
     \<and> hd l \<noteq> CHR ''-'' \<and> last l \<noteq> CHR ''-''"

definition dns_name_ok :: "nat \<Rightarrow> string \<Rightarrow> bool" where
  "dns_name_ok min_labels raw \<longleftrightarrow>
     (let labels = split_on (CHR ''.'') raw in
      length raw \<le> 253 \<and> min_labels \<le> length labels \<and> (\<forall>l \<in> set labels. dns_label_ok l)
      \<and> (2 \<le> min_labels \<longrightarrow> (\<forall>c \<in> set (last labels). is_ascii_lowercase c)))"

definition method_ok :: "string \<Rightarrow> bool" where
  "method_ok m \<longleftrightarrow> m \<noteq> [] \<and> length m \<le> 32 \<and> (\<forall>c \<in> set m. is_ascii_uppercase c)"

definition path_ok :: "string \<Rightarrow> bool" where
  "path_ok p \<longleftrightarrow>
     length p \<le> 512 \<and> (\<exists>rest. p = CHR ''/'' # rest)
     \<and> (\<forall>c \<in> set p. is_ascii_byte c \<and> \<not> is_ascii_control c \<and> c \<noteq> CHR '' '' \<and> c \<notin> set PATH_REFUSED_BYTES)
     \<and> (\<nexists>a b. p = a @ ''..'' @ b) \<and> (\<nexists>a b. p = a @ ''//'' @ b)"

definition list_ok :: "nat \<Rightarrow> string list \<Rightarrow> bool" where
  "list_ok mx xs \<longleftrightarrow> length xs \<le> mx \<and> [] \<notin> set xs \<and> distinct xs"

lemma check_count_iff [policy_simps]: "check_count n mx f = Inr u \<longleftrightarrow> n \<le> mx"
  by (auto simp: check_count_def)

lemma validate_label_iff:
  assumes "\<forall>c \<in> set l. \<not> is_ascii_uppercase c"
  shows "validate_label f l = Inr u \<longleftrightarrow> dns_label_ok l"
proof -
  have dash: "\<not> is_ascii_lowercase (CHR ''-'')" "\<not> is_ascii_digit (CHR ''-'')"
    by (simp_all add: byte_defs)
  have alnum: "is_ascii_alphanumeric c \<longleftrightarrow> is_ascii_lowercase c \<or> is_ascii_digit c"
    if "c \<in> set l" for c
    using assms that by (auto simp: is_ascii_alphanumeric_def is_ascii_alphabetic_def)
  show ?thesis
  proof (cases "l = []")
    case False
    then have "hd l \<in> set l" and "last l \<in> set l" by simp_all
    with False dash show ?thesis
      by (auto simp: validate_label_def dns_label_ok_def MAX_LABEL_BYTES_def list_all_iff alnum
          not_less)
  qed (simp add: validate_label_def dns_label_ok_def)
qed

lemma dns_label_char_facts:
  assumes "dns_label_ok l" and "c \<in> set l"
  shows "is_ascii_byte c" "\<not> is_ascii_uppercase c" "c \<noteq> CHR ''*''" "c \<notin> set ''/@: ''"
proof -
  from assms have "is_ascii_lowercase c \<or> is_ascii_digit c \<or> c = CHR ''-''"
    by (auto simp: dns_label_ok_def)
  then show "is_ascii_byte c" "\<not> is_ascii_uppercase c" "c \<noteq> CHR ''*''" "c \<notin> set ''/@: ''"
    by (auto simp: byte_defs less_eq_char_def)
qed

lemma dns_name_chars:
  assumes "\<forall>l \<in> set (split_on (CHR ''.'') raw). dns_label_ok l" and "c \<in> set raw"
  shows "is_ascii_byte c" "\<not> is_ascii_uppercase c" "c \<noteq> CHR ''*''" "c \<notin> set ''/@: ''"
proof -
  have "c = CHR ''.'' \<or> (\<exists>l \<in> set (split_on (CHR ''.'') raw). c \<in> set l)"
    using assms(2) by (rule set_split_on_cover)
  with assms(1) consider "c = CHR ''.''" | l where "dns_label_ok l" "c \<in> set l" by blast
  then have "is_ascii_byte c \<and> \<not> is_ascii_uppercase c \<and> c \<noteq> CHR ''*'' \<and> c \<notin> set ''/@: ''"
  proof cases
    case 1
    then show ?thesis by (simp add: byte_defs)
  next
    case 2
    then show ?thesis using dns_label_char_facts by blast
  qed
  then show "is_ascii_byte c" "\<not> is_ascii_uppercase c" "c \<noteq> CHR ''*''" "c \<notin> set ''/@: ''"
    by simp_all
qed

lemma trailing_dot_empty_label:
  assumes "ends_with raw ''.''"
  shows "[] \<in> set (split_on (CHR ''.'') raw)"
proof -
  from assms obtain r where "raw = r @ CHR ''.'' # []" by (auto simp: ends_with_iff)
  then show ?thesis by (simp only: split_on_append_sep) simp
qed

lemma alphabetic_lower:
  "\<not> is_ascii_uppercase c \<Longrightarrow> is_ascii_alphabetic c \<longleftrightarrow> is_ascii_lowercase c"
  by (simp add: is_ascii_alphabetic_def)

lemma validate_dns_name_unfold:
  "validate_dns_name raw f n = Inr u \<longleftrightarrow>
     raw \<noteq> [] \<and> length raw \<le> 253 \<and> \<not> ends_with raw ''.''
     \<and> (\<forall>c \<in> set raw. is_ascii_byte c \<and> \<not> is_ascii_uppercase c \<and> c \<noteq> CHR ''*'' \<and> c \<notin> set ''/@: '')
     \<and> n \<le> length (split_on (CHR ''.'') raw)
     \<and> (\<forall>l \<in> set (split_on (CHR ''.'') raw). validate_label f l = Inr ())
     \<and> (2 \<le> n \<longrightarrow> (\<forall>c \<in> set (last (split_on (CHR ''.'') raw)). is_ascii_alphabetic c))"
  unfolding validate_dns_name_def Let_def MAX_HOST_BYTES_def
  by (simp only: result_simps list_all_iff list_ex_iff not_less) auto

lemma validate_dns_name_iff [policy_simps]:
  "validate_dns_name raw f n = Inr u \<longleftrightarrow> dns_name_ok n raw"
proof
  let ?ls = "split_on (CHR ''.'') raw"
  assume "validate_dns_name raw f n = Inr u"
  then have len: "length raw \<le> 253" "n \<le> length ?ls"
    and up: "\<And>c. c \<in> set raw \<Longrightarrow> \<not> is_ascii_uppercase c"
    and lab: "\<And>l. l \<in> set ?ls \<Longrightarrow> validate_label f l = Inr ()"
    and tld: "2 \<le> n \<Longrightarrow> \<forall>c \<in> set (last ?ls). is_ascii_alphabetic c"
    by (simp_all add: validate_dns_name_unfold)
  have noup: "\<forall>c \<in> set l. \<not> is_ascii_uppercase c" if "l \<in> set ?ls" for l
    using up set_split_on [OF that] by auto
  have "dns_label_ok l" if "l \<in> set ?ls" for l
    using lab [OF that] validate_label_iff [OF noup [OF that]] by simp
  moreover have "\<forall>c \<in> set (last ?ls). is_ascii_lowercase c" if "2 \<le> n"
    using tld [OF that] noup [of "last ?ls"] by (simp add: alphabetic_lower)
  ultimately show "dns_name_ok n raw"
    using len by (simp add: dns_name_ok_def Let_def)
next
  let ?ls = "split_on (CHR ''.'') raw"
  assume ok: "dns_name_ok n raw"
  then have labels: "\<forall>l \<in> set ?ls. dns_label_ok l" by (simp add: dns_name_ok_def Let_def)
  have "\<not> dns_label_ok []" by (simp add: dns_label_ok_def)
  with labels have noempty: "[] \<notin> set ?ls" by blast
  then have "\<not> ends_with raw ''.''" using trailing_dot_empty_label by blast
  moreover have "raw \<noteq> []" using noempty by (cases raw) simp_all
  moreover have "validate_label f l = Inr ()" if "l \<in> set ?ls" for l
  proof -
    from labels that have ok: "dns_label_ok l" by simp
    then have "\<forall>c \<in> set l. \<not> is_ascii_uppercase c" by (simp add: dns_label_char_facts(2))
    with ok show ?thesis by (simp add: validate_label_iff)
  qed
  moreover have "\<forall>c \<in> set (last ?ls). is_ascii_alphabetic c" if "2 \<le> n"
    using ok that by (simp add: dns_name_ok_def Let_def is_ascii_alphabetic_def)
  ultimately show "validate_dns_name raw f n = Inr u"
    using ok dns_name_chars [OF labels]
    by (simp add: validate_dns_name_unfold dns_name_ok_def Let_def)
qed

lemma validate_port_iff [policy_simps]: "validate_port p f = Inr u \<longleftrightarrow> p \<noteq> 0"
  by (simp add: validate_port_def)

lemma validate_protocol_iff [policy_simps]: "validate_protocol p f = Inr u \<longleftrightarrow> p = ''tcp''"
  by (simp add: validate_protocol_def)

lemma validate_scheme_iff [policy_simps]:
  "validate_scheme s f = Inr u \<longleftrightarrow> s = ''https'' \<or> s = ''http''"
  by (auto simp: validate_scheme_def)

lemma validate_method_iff [policy_simps]: "validate_method m f = Inr u \<longleftrightarrow> method_ok m"
  by (auto simp: validate_method_def method_ok_def list_all_iff MAX_METHOD_BYTES_def not_less)

lemma validate_path_iff [policy_simps]: "validate_path p f = Inr u \<longleftrightarrow> path_ok p"
proof -
  have "starts_with p ''/'' \<longleftrightarrow> (\<exists>rest. p = CHR ''/'' # rest)" by (simp add: starts_with_iff)
  then show ?thesis
    by (auto simp: validate_path_def path_ok_def list_all_iff list_ex_iff contains_str_iff
        MAX_PATH_BYTES_def not_less simp del: contains_str.simps)
qed

lemma validate_list_iff [policy_simps]: "validate_list f xs mx = Inr u \<longleftrightarrow> list_ok mx xs"
  using adjacent_dup_sort [of xs]
  by (auto simp: validate_list_def list_ok_def result_simps policy_simps
      split: option.splits if_splits)

lemma validate_binding_name_iff [policy_simps]:
  "validate_binding_name n f = Inr u \<longleftrightarrow> is_rule_name n \<and> length n \<le> 64"
  by (auto simp: validate_binding_name_def is_rule_name_def not_less)

end
