(* ===== verification/Core_Domain.thy ===== *)
theory Core_Domain
  imports Guard_Policy
begin

text \<open>
  The domain model shared by the whole control plane (\<^verbatim>\<open>aiec-core/src/lib.rs\<close>,
  \<^verbatim>\<open>aiec-core/src/network.rs\<close>, \<^verbatim>\<open>aiec-core/src/snapshots.rs\<close>): sandboxes and their life
  cycle, tenant quotas, environments, scopes and principals, tool approvals, and the intake
  validators every request passes. Base64, hexadecimal decoding and SHA-256 are third-party code
  and arguments of the definitions that use them.
\<close>

section \<open>Errors and enumerations\<close>

text \<open>
  \<^verbatim>\<open>InvalidPolicy e\<close> stands for \<^verbatim>\<open>CoreError::InvalidRequest(e.to_string())\<close>, where the code turns a
  Guard error into its text.
\<close>

datatype core_error =
    InvalidRequest string
  | InvalidPolicy guard_error
  | NotFound string
  | Conflict string
  | Forbidden string
  | LimitExceeded string
  | QuotaExceeded string
  | Unavailable string
  | Transient string
  | Unsupported string
  | Backend string

definition MAX_FILE :: nat where "MAX_FILE = 16 * 1024 * 1024"
definition MAX_VCPU :: u32 where "MAX_VCPU = 32"
definition MAX_MEMORY_MB :: u32 where "MAX_MEMORY_MB = 131072"
definition MAX_DISK_MB :: u32 where "MAX_DISK_MB = 1048576"
definition MAX_EXEC_SECONDS :: u64 where "MAX_EXEC_SECONDS = 3600"
definition MAX_EXEC_ENV_VARS :: nat where "MAX_EXEC_ENV_VARS = 256"
definition MAX_EXEC_ENV_KEY :: nat where "MAX_EXEC_ENV_KEY = 256"
definition MAX_EXEC_ENV_VALUE :: nat where "MAX_EXEC_ENV_VALUE = 4096"
definition MAX_EXEC_ENV_TOTAL :: nat where "MAX_EXEC_ENV_TOTAL = 65536"
definition MAX_LIFETIME_SECONDS :: u64 where "MAX_LIFETIME_SECONDS = 86400"

datatype runtime_kind = Firecracker | Docker | BwrapDev | Hosted

fun runtime_kind_str :: "runtime_kind \<Rightarrow> string" where
  "runtime_kind_str Docker = ''docker''"
| "runtime_kind_str Firecracker = ''firecracker''"
| "runtime_kind_str BwrapDev = ''bwrap-dev''"
| "runtime_kind_str Hosted = ''hosted''"

datatype sandbox_state =
  Creating | Starting | Running | Paused | Quarantined | Stopping | Stopped | Snapshotting
  | Restoring | Failed | Destroying | Destroyed

fun sandbox_state_str :: "sandbox_state \<Rightarrow> string" where
  "sandbox_state_str Creating = ''creating''"
| "sandbox_state_str Starting = ''starting''"
| "sandbox_state_str Running = ''running''"
| "sandbox_state_str Paused = ''paused''"
| "sandbox_state_str Quarantined = ''quarantined''"
| "sandbox_state_str Stopping = ''stopping''"
| "sandbox_state_str Stopped = ''stopped''"
| "sandbox_state_str Snapshotting = ''snapshotting''"
| "sandbox_state_str Restoring = ''restoring''"
| "sandbox_state_str Failed = ''failed''"
| "sandbox_state_str Destroying = ''destroying''"
| "sandbox_state_str Destroyed = ''destroyed''"

definition consumes :: "sandbox_state \<Rightarrow> bool" where
  "consumes s \<longleftrightarrow> s \<in> {Creating, Starting, Running, Stopping, Snapshotting, Restoring}"

definition can_transition_to :: "sandbox_state \<Rightarrow> sandbox_state \<Rightarrow> bool" where
  "can_transition_to s t \<longleftrightarrow>
     s = Creating \<and> t \<in> {Starting, Failed, Destroying}
     \<or> s = Starting \<and> t \<in> {Running, Failed, Destroying}
     \<or> s \<in> {Creating, Starting, Running, Paused, Stopping, Stopped, Snapshotting, Restoring, Failed}
         \<and> t = Quarantined
     \<or> s = Running \<and> t \<in> {Stopping, Snapshotting, Failed, Destroying}
     \<or> s = Running \<and> t = Paused
     \<or> s = Paused \<and> t = Running
     \<or> s = Stopping \<and> t \<in> {Stopped, Failed}
     \<or> s = Stopped \<and> t \<in> {Starting, Destroying}
     \<or> s = Snapshotting \<and> t \<in> {Running, Stopped, Failed}
     \<or> s = Restoring \<and> t \<in> {Running, Failed}
     \<or> s = Failed \<and> t \<in> {Starting, Destroying}
     \<or> s = Destroying \<and> t \<in> {Destroyed, Failed}
     \<or> s = Destroyed \<and> t = Creating"

section \<open>Network policy of a sandbox\<close>

text \<open>The wire form of a network policy is the compatibility record its decoder reads.\<close>

datatype sandbox_network = Disabled | Internet | Restricted "string list"

record network_wire =
  nw_enabled :: bool
  nw_allowed_hosts :: "string list"

definition is_enabled :: "sandbox_network \<Rightarrow> bool" where
  "is_enabled p \<longleftrightarrow> p \<noteq> Disabled"

fun allowed_hosts :: "sandbox_network \<Rightarrow> string list" where
  "allowed_hosts (Restricted hosts) = hosts"
| "allowed_hosts _ = []"

definition network_serialize :: "sandbox_network \<Rightarrow> network_wire" where
  "network_serialize p = \<lparr>nw_enabled = is_enabled p, nw_allowed_hosts = allowed_hosts p\<rparr>"

definition network_deserialize :: "network_wire \<Rightarrow> sandbox_network" where
  "network_deserialize w =
     (if \<not> nw_enabled w then Disabled
      else if nw_allowed_hosts w = [] then Internet
      else Restricted (nw_allowed_hosts w))"

section \<open>Environments, sandboxes and requests\<close>

datatype workspace_spec =
    EmptyWorkspace
  | Git (git_repo: string) (git_reference: "string option") (git_shallow: bool)
  | SnapshotWorkspace (ws_snapshot_id: uuid)

record toolkit_spec =
  tk_name :: string
  tk_setup_commands :: "string list list"

datatype layer_kind = BaseLayer | WorkspaceLayer | ToolkitLayer

record layer_spec =
  ly_kind :: layer_kind
  ly_name :: string
  ly_content_digest :: string
  ly_content_base64 :: string

record environment_spec =
  es_workspace :: workspace_spec
  es_toolkits :: "toolkit_spec list"
  es_layers :: "layer_spec list"
  es_guard :: "guard_config option"
  es_guard_policy_hash :: "string option"

definition default_environment_spec :: environment_spec where
  "default_environment_spec = \<lparr>es_workspace = EmptyWorkspace, es_toolkits = [], es_layers = [],
     es_guard = None, es_guard_policy_hash = None\<rparr>"

record create_sandbox_request =
  cr_image :: string
  cr_cpu :: u32
  cr_memory_mb :: u32
  cr_disk_mb :: u32
  cr_timeout_seconds :: u64
  cr_network :: sandbox_network
  cr_environment :: environment_spec

record sandbox =
  sb_id :: uuid
  sb_tenant_id :: uuid
  sb_node_id :: "uuid option"
  sb_image_id :: string
  sb_state :: sandbox_state
  sb_runtime :: runtime_kind
  sb_cpu :: u32
  sb_memory_mb :: u32
  sb_disk_mb :: u32
  sb_timeout_seconds :: u64
  sb_network :: sandbox_network
  sb_environment :: environment_spec
  sb_created_at :: instant
  sb_updated_at :: instant
  sb_runtime_path :: "string option"

record exec_request =
  ex_command :: "string list"
  ex_working_directory :: "string option"
  ex_environment :: "(string \<times> string) list"
  ex_timeout_seconds :: u64
  ex_stdin :: "string option"

record snapshot =
  sn_id :: uuid
  sn_tenant_id :: uuid
  sn_sandbox_id :: uuid
  sn_object_key :: string
  sn_size_bytes :: u64
  sn_image_id :: string
  sn_created_at :: instant

section \<open>Tenant quotas\<close>

record quota_limits =
  ql_max_active_sandboxes :: u32
  ql_max_vcpus :: u32
  ql_max_memory_mb :: u64
  ql_max_disk_mb :: u64

record quota_usage =
  qu_active_sandboxes :: u32
  qu_vcpus :: u32
  qu_memory_mb :: u64
  qu_disk_mb :: u64

definition no_usage :: quota_usage where
  "no_usage = \<lparr>qu_active_sandboxes = 0, qu_vcpus = 0, qu_memory_mb = 0, qu_disk_mb = 0\<rparr>"

definition quota_checked_add :: "quota_usage \<Rightarrow> sandbox \<Rightarrow> quota_usage option" where
  "quota_checked_add u s =
     (case checked_add_w (qu_active_sandboxes u) 1 of
        None \<Rightarrow> None
      | Some active \<Rightarrow>
      (case checked_add_w (qu_vcpus u) (sb_cpu s) of
        None \<Rightarrow> None
      | Some vcpus \<Rightarrow>
      (case checked_add_w (qu_memory_mb u) (ucast (sb_memory_mb s)) of
        None \<Rightarrow> None
      | Some memory \<Rightarrow>
      (case checked_add_w (qu_disk_mb u) (ucast (sb_disk_mb s)) of
        None \<Rightarrow> None
      | Some disk \<Rightarrow>
          Some \<lparr>qu_active_sandboxes = active, qu_vcpus = vcpus, qu_memory_mb = memory,
            qu_disk_mb = disk\<rparr>))))"

definition exceeds :: "quota_usage \<Rightarrow> quota_limits \<Rightarrow> bool" where
  "exceeds u l \<longleftrightarrow>
     ql_max_active_sandboxes l < qu_active_sandboxes u \<or> ql_max_vcpus l < qu_vcpus u
     \<or> ql_max_memory_mb l < qu_memory_mb u \<or> ql_max_disk_mb l < qu_disk_mb u"

section \<open>Scopes and principals\<close>

datatype scope =
  SandboxesRead | SandboxesWrite | SnapshotsRead | SnapshotsWrite | GuardRead | GuardHeartbeat
  | GuardQuarantine | GuardPropose | GuardApprove | GuardRelease | Admin

definition scope_parse :: "string \<Rightarrow> core_error + scope" where
  "scope_parse value =
     (if value = ''sandboxes:read'' then Inr SandboxesRead
      else if value = ''sandboxes:write'' then Inr SandboxesWrite
      else if value = ''snapshots:read'' then Inr SnapshotsRead
      else if value = ''snapshots:write'' then Inr SnapshotsWrite
      else if value = ''guard:read'' then Inr GuardRead
      else if value = ''guard:heartbeat'' then Inr GuardHeartbeat
      else if value = ''guard:quarantine'' then Inr GuardQuarantine
      else if value = ''guard:propose'' then Inr GuardPropose
      else if value = ''guard:approve'' then Inr GuardApprove
      else if value = ''guard:release'' then Inr GuardRelease
      else if value = ''admin'' then Inr Admin
      else Inl (InvalidRequest ''unknown scope''))"

record api_key_record =
  ak_id :: uuid
  ak_tenant_id :: uuid
  ak_digest :: string
  ak_scopes :: "scope list"
  ak_expires_at :: "instant option"
  ak_revoked_at :: "instant option"
  ak_name :: string
  ak_created_at :: instant
  ak_last_used_at :: "instant option"

record principal =
  pr_tenant_id :: uuid
  pr_key_id :: uuid
  pr_scopes :: "scope list"

definition authorize :: "principal \<Rightarrow> scope \<Rightarrow> core_error + unit" where
  "authorize p required =
     (if Admin \<in> set (pr_scopes p) \<or> required \<in> set (pr_scopes p) then Inr ()
      else Inl (Forbidden ''missing scope''))"

section \<open>Tool approvals\<close>

datatype approval_state = ApprovalPending | Granted | Denied

record guard_tool_approval =
  ta_id :: uuid
  ta_sandbox_id :: uuid
  ta_tenant_id :: uuid
  ta_tool :: string
  ta_request_digest :: string
  ta_detail :: "string option"
  ta_requested_by_key_id :: uuid
  ta_requested_by_label :: string
  ta_state :: approval_state
  ta_decided_by_key_id :: "uuid option"
  ta_decided_by_label :: "string option"
  ta_decided_at :: "instant option"
  ta_expires_at :: instant
  ta_consumed_at :: "instant option"
  ta_created_at :: instant

definition authorises :: "guard_tool_approval \<Rightarrow> string \<Rightarrow> string \<Rightarrow> instant \<Rightarrow> bool" where
  "authorises a tool request_digest now \<longleftrightarrow>
     ta_state a = Granted \<and> ta_consumed_at a = None \<and> now < ta_expires_at a
     \<and> ta_tool a = tool \<and> ta_request_digest a = request_digest"

section \<open>Intake validators\<close>

definition contains_nul :: "string \<Rightarrow> bool" where
  "contains_nul s \<longleftrightarrow> CHR 0x00 \<in> set s"

definition layer_name_byte :: "char \<Rightarrow> bool" where
  "layer_name_byte c \<longleftrightarrow> is_ascii_alphanumeric c \<or> c \<in> set ''-_.''"

definition toolkit_name_byte :: "char \<Rightarrow> bool" where
  "toolkit_name_byte c \<longleftrightarrow> is_ascii_alphanumeric c \<or> c \<in> set ''-_''"

definition validate_layer_payload ::
  "(string \<Rightarrow> string option) \<Rightarrow> (string \<Rightarrow> string) \<Rightarrow> layer_spec \<Rightarrow> core_error + unit" where
  "validate_layer_payload base64_decode sha256_hex layer =
     (if ly_content_base64 layer = [] then Inr ()
      else
        bind_r (ok_or (base64_decode (ly_content_base64 layer))
          (InvalidRequest ''invalid environment layer payload''))
        (\<lambda>bytes.
          if MAX_FILE < length bytes then Inl (LimitExceeded ''environment layer is too large'')
          else if sha256_hex bytes \<noteq> ly_content_digest layer
          then Inl (InvalidRequest ''environment layer digest mismatch'')
          else Inr ()))"

fun validate_layers ::
  "(string \<Rightarrow> string option) \<Rightarrow> (string \<Rightarrow> string) \<Rightarrow> (layer_kind \<times> string) list \<Rightarrow> layer_spec list
    \<Rightarrow> core_error + unit" where
  "validate_layers base64_decode sha256_hex layer_names [] = Inr ()"
| "validate_layers base64_decode sha256_hex layer_names (layer # layers) =
     (if ly_name layer = [] \<or> 128 < length (ly_name layer) \<or> contains_nul (ly_name layer)
        \<or> \<not> list_all layer_name_byte (ly_name layer)
        \<or> (ly_kind layer, ly_name layer) \<in> set layer_names
      then Inl (InvalidRequest ''invalid or duplicate environment layer'')
      else if length (ly_content_digest layer) \<noteq> 64 \<or> \<not> list_all is_ascii_hexdigit (ly_content_digest layer)
      then Inl (InvalidRequest ''invalid environment layer digest'')
      else
        then_r (validate_layer_payload base64_decode sha256_hex layer)
          (validate_layers base64_decode sha256_hex ((ly_kind layer, ly_name layer) # layer_names) layers))"

definition validate_git_repo :: "string \<Rightarrow> core_error + unit" where
  "validate_git_repo repo =
     (if repo = [] \<or> 2048 < length repo \<or> contains_nul repo
      then Inl (InvalidRequest ''invalid git repository'')
      else if \<not> (starts_with repo ''https://'' \<or> starts_with repo ''git@''
                 \<or> starts_with repo ''ssh://'' \<or> starts_with repo ''git://'')
      then Inl (InvalidRequest ''git repository must use https, ssh, or git transport'')
      else case split_once repo ''://'' of
        Some (scheme, rest) \<Rightarrow>
          if CHR ''@'' \<in> set (hd (split_on (CHR ''/'') rest))
          then Inl (InvalidRequest ''git repository credentials must use scoped secret injection'')
          else Inr ()
      | None \<Rightarrow> Inr ())"

definition https_repository_host :: "string \<Rightarrow> string option" where
  "https_repository_host repo =
     (case (case strip_prefix repo ''https://'' of Some r \<Rightarrow> Some r | None \<Rightarrow> strip_prefix repo ''git://'') of
        None \<Rightarrow> None
      | Some rest \<Rightarrow>
          let authority = hd (split_on (CHR ''/'') rest) in
          if authority = [] then None
          else
            let host = (case rsplit_once (CHR ''@'') authority of
                          Some (user, host) \<Rightarrow> if user \<noteq> [] \<and> host \<noteq> [] then host else authority
                        | None \<Rightarrow> authority);
                host = (case rsplit_once (CHR '':'') host of
                          Some (h, port) \<Rightarrow> if port \<noteq> [] \<and> list_all is_ascii_digit port then h else host
                        | None \<Rightarrow> host)
            in if host \<noteq> [] \<and> list_all (\<lambda>b. is_ascii_alphanumeric b \<or> b \<in> set ''-._'') host
               then Some (to_ascii_lowercase host) else None)"

definition validate_toolkit :: "toolkit_spec \<Rightarrow> core_error + unit" where
  "validate_toolkit toolkit =
     (if tk_name toolkit = [] \<or> 64 < length (tk_name toolkit) \<or> \<not> list_all toolkit_name_byte (tk_name toolkit)
      then Inl (InvalidRequest ''invalid toolkit name'')
      else if 32 < length (tk_setup_commands toolkit)
        \<or> list_ex (\<lambda>command. command = [] \<or> 64 < length command
            \<or> list_ex (\<lambda>arg. arg = [] \<or> 4096 < length arg \<or> contains_nul arg) command)
          (tk_setup_commands toolkit)
      then Inl (InvalidRequest ''invalid toolkit commands'')
      else Inr ())"

definition validate_workspace :: "workspace_spec \<Rightarrow> core_error + unit" where
  "validate_workspace w =
     (case w of
        Git repo reference shallow \<Rightarrow>
          then_r (validate_git_repo repo)
            (case reference of
               Some value \<Rightarrow>
                 if value = [] \<or> 256 < length value \<or> contains_nul value
                 then Inl (InvalidRequest ''invalid git reference'') else Inr ()
             | None \<Rightarrow> Inr ())
      | _ \<Rightarrow> Inr ())"

definition validate_environment ::
  "(string \<Rightarrow> string option) \<Rightarrow> (string \<Rightarrow> string) \<Rightarrow> environment_spec \<Rightarrow> core_error + unit" where
  "validate_environment base64_decode sha256_hex e =
     then_r (case es_guard e of
               Some guard \<Rightarrow> (case effective_policy guard of
                   Inl error \<Rightarrow> Inl (InvalidPolicy error) | Inr p \<Rightarrow> Inr ())
             | None \<Rightarrow> Inr ())
     (if 16 < length (es_toolkits e) then Inl (LimitExceeded ''too many toolkits'')
      else if 32 < length (es_layers e) then Inl (LimitExceeded ''too many environment layers'')
      else
        then_r (validate_layers base64_decode sha256_hex [] (es_layers e))
        (then_r (validate_workspace (es_workspace e))
          (each_r validate_toolkit (es_toolkits e))))"

definition validate_api_key :: "(string \<Rightarrow> string option) \<Rightarrow> string \<Rightarrow> core_error + unit" where
  "validate_api_key hex_decode raw =
     (case strip_prefix raw ''af_live_'' of
        None \<Rightarrow> Inl (InvalidRequest ''invalid API key prefix'')
      | Some body \<Rightarrow>
          if \<not> (48 \<le> length body \<and> length body \<le> 64) \<or> length body mod 2 \<noteq> 0 \<or> hex_decode body = None
          then Inl (InvalidRequest ''invalid API key encoding'')
          else Inr ())"

definition validate_image :: "string \<Rightarrow> core_error + unit" where
  "validate_image img =
     (if img = [] \<or> 1024 < length img
        \<or> list_ex (\<lambda>byte. is_ascii_control byte \<or> is_ascii_whitespace byte) img
        \<or> starts_with img ''-'' \<or> contains_str img ''..'' \<or> contains_str img ''://''
      then Inl (InvalidRequest (''invalid image reference: '' @ img))
      else Inr ())"

definition validate_create ::
  "(string \<Rightarrow> string option) \<Rightarrow> (string \<Rightarrow> string) \<Rightarrow> create_sandbox_request \<Rightarrow> u64 \<Rightarrow> core_error + unit" where
  "validate_create base64_decode sha256_hex req max_lifetime =
     then_r (validate_image (cr_image req))
     (if cr_cpu req = 0 \<or> MAX_VCPU < cr_cpu req then Inl (LimitExceeded ''cpu'')
      else if cr_memory_mb req < 64 \<or> MAX_MEMORY_MB < cr_memory_mb req then Inl (LimitExceeded ''memory_mb'')
      else if cr_disk_mb req < 512 \<or> MAX_DISK_MB < cr_disk_mb req then Inl (LimitExceeded ''disk_mb'')
      else if cr_timeout_seconds req = 0 \<or> min max_lifetime MAX_LIFETIME_SECONDS < cr_timeout_seconds req
      then Inl (LimitExceeded ''timeout_seconds'')
      else validate_environment base64_decode sha256_hex (cr_environment req))"

text \<open>
  The running total saturates at the width of \<^verbatim>\<open>usize\<close> in the code. It never gets there: it is at
  most 65536 before a variable is added and a variable adds at most 4352 bytes.
\<close>

fun validate_env_vars :: "nat \<Rightarrow> (string \<times> string) list \<Rightarrow> core_error + unit" where
  "validate_env_vars tot [] = Inr ()"
| "validate_env_vars tot ((key, value) # environment) =
     (if key = [] \<or> MAX_EXEC_ENV_KEY < length key \<or> CHR ''='' \<in> set key \<or> contains_nul key
        \<or> MAX_EXEC_ENV_VALUE < length value \<or> contains_nul value
      then Inl (InvalidRequest ''invalid environment variable'')
      else
        let tot = tot + length key + length value in
        if MAX_EXEC_ENV_TOTAL < tot then Inl (LimitExceeded ''environment variables'')
        else validate_env_vars tot environment)"

definition validate_exec_environment :: "(string \<times> string) list \<Rightarrow> core_error + unit" where
  "validate_exec_environment environment =
     (if MAX_EXEC_ENV_VARS < length environment then Inl (LimitExceeded ''environment variables'')
      else validate_env_vars 0 environment)"

section \<open>Workspace paths\<close>

text \<open>\<^verbatim>\<open>std::path::Path::components\<close> and \<^verbatim>\<open>PathBuf::push\<close> on Unix.\<close>

datatype path_component = RootDir | CurDir | ParentDir | Normal string

definition path_components :: "string \<Rightarrow> path_component list" where
  "path_components s =
     (let parts = split_on (CHR ''/'') s
      in (if starts_with s ''/'' then [RootDir] else if hd parts = ''.'' then [CurDir] else [])
         @ map (\<lambda>p. if p = ''..'' then ParentDir else Normal p) (filter (\<lambda>p. p \<noteq> [] \<and> p \<noteq> ''.'') parts))"

definition path_push :: "string \<Rightarrow> string \<Rightarrow> string" where
  "path_push base part =
     (if starts_with part ''/'' then part
      else if base = [] \<or> ends_with base ''/'' then base @ part
      else base @ ''/'' @ part)"

fun push_components :: "string \<Rightarrow> path_component list \<Rightarrow> core_error + string" where
  "push_components built [] = Inr built"
| "push_components built (component # rest) =
     (case component of
        Normal part \<Rightarrow> push_components (path_push built part) rest
      | CurDir \<Rightarrow> push_components built rest
      | _ \<Rightarrow> Inl (Forbidden ''path traversal''))"

definition safe_path :: "string \<Rightarrow> core_error + string" where
  "safe_path raw =
     (if raw = [] \<or> 4096 < length raw \<or> \<not> starts_with raw ''/''
      then Inl (InvalidRequest ''path must be absolute'')
      else if raw \<noteq> ''/workspace'' \<and> \<not> starts_with raw ''/workspace/''
      then Inl (Forbidden ''outside workspace'')
      else
        let relative = trim_start_matches (CHR ''/'')
              (case strip_prefix raw ''/workspace'' of Some r \<Rightarrow> r | None \<Rightarrow> [])
        in push_components ''/workspace'' (path_components relative))"

definition validate_exec :: "exec_request \<Rightarrow> core_error + unit" where
  "validate_exec req =
     (if ex_command req = [] \<or> 64 < length (ex_command req)
        \<or> list_ex (\<lambda>v. v = [] \<or> contains_nul v) (ex_command req)
      then Inl (InvalidRequest ''invalid command argv'')
      else if ex_timeout_seconds req = 0 \<or> MAX_EXEC_SECONDS < ex_timeout_seconds req
      then Inl (LimitExceeded ''command timeout'')
      else if (case ex_stdin req of Some v \<Rightarrow> MAX_FILE < length v | None \<Rightarrow> False)
      then Inl (LimitExceeded ''stdin'')
      else
        then_r (case ex_working_directory req of
                  Some path \<Rightarrow> bind_r (safe_path path) (\<lambda>p. Inr ())
                | None \<Rightarrow> Inr ())
          (validate_exec_environment (ex_environment req)))"

end
