(* ===== verification/Policy_Laws.thy ===== *)
theory Policy_Laws
  imports Guard_Policy
begin

text \<open>
  What the network policy layer guarantees. A well-formed policy is described declaratively,
  without the order of checks or the early returns of the validators, and
  \<^verbatim>\<open>GuardPolicy::validate\<close> is shown to accept exactly the well-formed policies. The normal form used
  for hashing is shown to identify exactly the policies that agree up to the order of their
  set-like lists, and the templates are shown to open exactly the destinations they name.
\<close>

section \<open>Well-formed policies, declaratively\<close>

definition zone_ok :: "string \<Rightarrow> bool" where
  "zone_ok zone \<longleftrightarrow>
     (case strip_prefix zone ''.'' of Some suffix \<Rightarrow> dns_name_ok 1 suffix | None \<Rightarrow> dns_name_ok 2 zone)"

definition dns_ok :: "dns_policy \<Rightarrow> bool" where
  "dns_ok d \<longleftrightarrow>
     length (dns_allowed_zones d) \<le> 64 \<and> (\<forall>z \<in> set (dns_allowed_zones d). zone_ok z)
     \<and> distinct (dns_allowed_zones d)
     \<and> set (dns_allowed_record_types d) \<subseteq> {''A'', ''AAAA''} \<and> distinct (dns_allowed_record_types d)"

definition rule_lists_ok :: "string list \<Rightarrow> string list \<Rightarrow> bool" where
  "rule_lists_ok methods paths \<longleftrightarrow>
     list_ok 32 methods \<and> list_ok 32 paths
     \<and> (\<forall>m \<in> set methods. method_ok m) \<and> (\<forall>p \<in> set paths. path_ok p)"

definition egress_ok :: "egress_rule \<Rightarrow> bool" where
  "egress_ok r \<longleftrightarrow>
     dns_name_ok 2 (er_host r) \<and> er_port r \<noteq> 0 \<and> er_protocol r = ''tcp''
     \<and> rule_lists_ok (er_allowed_methods r) (er_allowed_paths r)"

definition model_ok :: "model_endpoint \<Rightarrow> bool" where
  "model_ok m \<longleftrightarrow>
     dns_name_ok 2 (me_host m) \<and> me_port m \<noteq> 0 \<and> me_scheme m \<in> {''https'', ''http''}
     \<and> me_allowed_methods m \<noteq> [] \<and> me_allowed_paths m \<noteq> []
     \<and> rule_lists_ok (me_allowed_methods m) (me_allowed_paths m)
     \<and> is_rule_name (me_credential m) \<and> length (me_credential m) \<le> 64"

definition credential_ok :: "credential_binding \<Rightarrow> bool" where
  "credential_ok b \<longleftrightarrow>
     is_rule_name (cb_name b) \<and> length (cb_name b) \<le> 64 \<and> dns_name_ok 2 (cb_host b) \<and> cb_port b \<noteq> 0
     \<and> to_ascii_lowercase (cb_header b) \<in> {''authorization'', ''x-api-key''}"

definition limits_ok :: "limits \<Rightarrow> bool" where
  "limits_ok l \<longleftrightarrow>
     (\<forall>(v, mx, f) \<in> set (limit_checks l). 0 < v \<and> v \<le> mx)
     \<and> lim_max_request_bytes l \<le> lim_bytes_out l \<and> lim_max_response_bytes l \<le> lim_bytes_in l"

definition endpoint_of_rule :: "egress_rule \<Rightarrow> string \<times> u16" where
  "endpoint_of_rule r = (er_host r, er_port r)"

definition endpoints :: "guard_policy \<Rightarrow> (string \<times> u16) set" where
  "endpoints p = endpoint_of_rule ` set (gp_egress p)"

text \<open>
  With a model endpoint, the binding it names is declared and bound to exactly the model's
  destination, which has an egress rule. Without one, every binding's destination has one.
\<close>

definition binding_ok :: "guard_policy \<Rightarrow> bool" where
  "binding_ok p \<longleftrightarrow>
     (case gp_model p of
        None \<Rightarrow> \<forall>b \<in> set (gp_credentials p). (cb_host b, cb_port b) \<in> endpoints p
      | Some m \<Rightarrow> model_ok m \<and> (me_host m, me_port m) \<in> endpoints p
          \<and> (\<exists>b \<in> set (gp_credentials p). cb_name b = me_credential m
               \<and> cb_host b = me_host m \<and> cb_port b = me_port m))"

definition policy_ok :: "guard_policy \<Rightarrow> bool" where
  "policy_ok p \<longleftrightarrow>
     gp_version p = 1 \<and> dns_ok (gp_dns p)
     \<and> length (gp_egress p) \<le> 128 \<and> (\<forall>r \<in> set (gp_egress p). egress_ok r)
     \<and> distinct (map endpoint_of_rule (gp_egress p))
     \<and> length (gp_credentials p) \<le> 32 \<and> (\<forall>b \<in> set (gp_credentials p). credential_ok b)
     \<and> distinct (map cb_name (gp_credentials p))
     \<and> binding_ok p
     \<and> (\<forall>r \<in> set (gp_egress p). \<exists>z \<in> set (gp_zones p). zone_matches z (er_host r))
     \<and> (\<forall>z \<in> set (gp_zones p). \<exists>r \<in> set (gp_egress p). zone_matches z (er_host r))
     \<and> limits_ok (gp_limits p)"

text \<open>Two policies that differ only in the order of the lists the code treats as sets.\<close>

definition rule_view :: "egress_rule \<Rightarrow> string \<times> u16 \<times> string \<times> string set \<times> string set" where
  "rule_view r = (er_host r, er_port r, er_protocol r, set (er_allowed_methods r), set (er_allowed_paths r))"

definition policy_equiv :: "guard_policy \<Rightarrow> guard_policy \<Rightarrow> bool" where
  "policy_equiv p q \<longleftrightarrow>
     gp_version p = gp_version q \<and> gp_model p = gp_model q \<and> gp_limits p = gp_limits q
     \<and> set (gp_zones p) = set (gp_zones q)
     \<and> set (dns_allowed_record_types (gp_dns p)) = set (dns_allowed_record_types (gp_dns q))
     \<and> rule_view ` set (gp_egress p) = rule_view ` set (gp_egress q)
     \<and> set (gp_credentials p) = set (gp_credentials q)"

definition rule_of_view :: "string \<times> u16 \<times> string \<times> string set \<times> string set \<Rightarrow> egress_rule" where
  "rule_of_view = (\<lambda>(h, q, pr, ms, ps). \<lparr>er_host = h, er_port = q, er_protocol = pr,
     er_allowed_methods = sorted_list_of_set ms, er_allowed_paths = sorted_list_of_set ps\<rparr>)"

text \<open>The destinations a template is documented to open.\<close>

definition template_endpoints :: "policy_template \<Rightarrow> model_endpoint option \<Rightarrow> egress_rule list \<Rightarrow> (string \<times> u16) set" where
  "template_endpoints t m al =
     (case t of
        NoNetwork \<Rightarrow> {}
      | ModelOnly \<Rightarrow> (\<lambda>m. (me_host m, me_port m)) ` set_option m
      | ModelPlusAllowlist \<Rightarrow> (\<lambda>m. (me_host m, me_port m)) ` set_option m \<union> endpoint_of_rule ` set al
      | ReadOnlyApi \<Rightarrow> endpoint_of_rule ` set al)"

section \<open>The validators accept the well-formed policies\<close>

lemma dns_name_not_Nil: "dns_name_ok n raw \<Longrightarrow> raw \<noteq> []"
  by (cases raw) (simp_all add: dns_name_ok_def dns_label_ok_def)

lemma zone_ok_not_Nil: "zone_ok z \<Longrightarrow> z \<noteq> []"
  by (cases z) (auto simp: zone_ok_def strip_prefix_def starts_with_def dest: dns_name_not_Nil)

lemma record_types_length:
  assumes "set xs \<subseteq> {''A'', ''AAAA''}" and "distinct xs"
  shows "length xs \<le> 4"
proof -
  have "length xs = card (set xs)" using assms(2) by (simp add: distinct_card)
  also have "\<dots> \<le> card {''A'', ''AAAA''}" using assms(1) by (intro card_mono) simp_all
  finally show ?thesis by simp
qed

lemma zone_check_iff:
  "(case strip_prefix z ''.'' of Some s \<Rightarrow> validate_dns_name s f 1 | None \<Rightarrow> validate_dns_name z g 2) = Inr u
     \<longleftrightarrow> zone_ok z"
  by (simp add: zone_ok_def validate_dns_name_iff split: option.split)

lemma validate_dns_iff [policy_simps]: "validate_dns d = Inr u \<longleftrightarrow> dns_ok d"
proof -
  have "validate_dns d = Inr u \<longleftrightarrow>
      length (dns_allowed_zones d) \<le> 64 \<and> length (dns_allowed_record_types d) \<le> 4
      \<and> (\<forall>z \<in> set (dns_allowed_zones d). zone_ok z)
      \<and> (\<forall>t \<in> set (dns_allowed_record_types d). t \<in> set ALLOWED_RECORD_TYPES)
      \<and> list_ok 64 (dns_allowed_zones d) \<and> list_ok 4 (dns_allowed_record_types d)"
    unfolding validate_dns_def
    by (simp only: result_simps policy_simps zone_check_iff MAX_DNS_ZONES_def MAX_RECORD_TYPES_def) simp
  moreover have "[] \<notin> set (dns_allowed_zones d)" if "\<forall>z \<in> set (dns_allowed_zones d). zone_ok z"
    using that zone_ok_not_Nil by blast
  moreover have "list_ok 4 (dns_allowed_record_types d) \<longleftrightarrow> distinct (dns_allowed_record_types d)"
    if "set (dns_allowed_record_types d) \<subseteq> {''A'', ''AAAA''}"
    using that record_types_length [OF that] by (auto simp: list_ok_def)
  ultimately show ?thesis
    by (auto simp: dns_ok_def list_ok_def ALLOWED_RECORD_TYPES_def subset_iff)
qed

lemma validate_egress_iff [policy_simps]: "validate_egress r f = Inr u \<longleftrightarrow> egress_ok r"
  unfolding validate_egress_def egress_ok_def rule_lists_ok_def
  by (simp only: result_simps policy_simps MAX_LIST_ITEMS_def)

lemma validate_model_iff [policy_simps]: "validate_model m = Inr u \<longleftrightarrow> model_ok m"
  unfolding validate_model_def model_ok_def rule_lists_ok_def
  by (simp only: result_simps policy_simps MAX_LIST_ITEMS_def) blast

lemma validate_credential_iff [policy_simps]: "validate_credential b f = Inr u \<longleftrightarrow> credential_ok b"
  unfolding validate_credential_def credential_ok_def ALLOWED_CREDENTIAL_HEADERS_def
  by (simp only: result_simps policy_simps) auto

lemma validate_limits_iff [policy_simps]: "validate_limits l = Inr u \<longleftrightarrow> limits_ok l"
  unfolding validate_limits_def limits_ok_def
  by (auto simp: result_simps not_less word_gt_0 split: if_splits)

lemma dns_name_no_colon: "dns_name_ok n raw \<Longrightarrow> CHR '':'' \<notin> set raw"
  using dns_name_chars(4) [of raw "CHR '':''"] by (auto simp: dns_name_ok_def Let_def)

lemma destination_inject:
  assumes "egress_ok r" and "egress_ok s"
  shows "destination r = destination s \<longleftrightarrow> endpoint_of_rule r = endpoint_of_rule s"
proof -
  have "CHR '':'' \<notin> set (er_host r)" and "CHR '':'' \<notin> set (er_host s)"
    using assms dns_name_no_colon by (auto simp: egress_ok_def)
  then show ?thesis
    by (simp add: destination_def endpoint_of_rule_def append_sep_inject show_nat_inject
        word_unat_eq_iff)
qed

lemma distinct_destinations:
  assumes "\<forall>r \<in> set rs. egress_ok r"
  shows "distinct (map destination rs) \<longleftrightarrow> distinct (map endpoint_of_rule rs)"
proof -
  have "inj_on destination (set rs) \<longleftrightarrow> inj_on endpoint_of_rule (set rs)"
    using assms destination_inject by (simp add: inj_on_def)
  then show ?thesis by (simp add: distinct_map)
qed

lemma in_endpoints: "(h, q) \<in> endpoints p \<longleftrightarrow> (\<exists>r \<in> set (gp_egress p). er_host r = h \<and> er_port r = q)"
  by (auto simp: endpoints_def endpoint_of_rule_def)

lemma find_named_iff:
  assumes "distinct (map f xs)"
  shows "find (\<lambda>x. f x = n) xs = Some x \<longleftrightarrow> x \<in> set xs \<and> f x = n"
  using assms by (induction xs) (auto simp: rev_image_eqI)

lemma validate_model_binding_iff:
  assumes "distinct (map cb_name (gp_credentials p))"
  shows "validate_model_binding p = Inr u \<longleftrightarrow> binding_ok p"
proof (cases "gp_model p")
  case None
  then show ?thesis
    by (simp add: validate_model_binding_def binding_ok_def result_simps list_ex_iff in_endpoints)
next
  case (Some m)
  have f: "find (\<lambda>b. cb_name b = me_credential m) (gp_credentials p) = Some b \<longleftrightarrow>
      b \<in> set (gp_credentials p) \<and> cb_name b = me_credential m" for b
    using assms by (rule find_named_iff)
  with Some show ?thesis
    by (auto simp: validate_model_binding_def binding_ok_def result_simps policy_simps list_ex_iff
        in_endpoints f)
qed

lemma validate_consistency_iff [policy_simps]:
  "validate_dns_egress_consistency p = Inr u \<longleftrightarrow>
     (\<forall>r \<in> set (gp_egress p). \<exists>z \<in> set (gp_zones p). zone_matches z (er_host r))
     \<and> (\<forall>z \<in> set (gp_zones p). \<exists>r \<in> set (gp_egress p). zone_matches z (er_host r))"
  by (simp add: validate_dns_egress_consistency_def result_simps list_ex_iff)

lemma validate_unfold:
  "validate p = Inr u \<longleftrightarrow>
     gp_version p = 1 \<and> dns_ok (gp_dns p)
     \<and> length (gp_egress p) \<le> 128 \<and> (\<forall>r \<in> set (gp_egress p). egress_ok r)
     \<and> distinct (map destination (gp_egress p))
     \<and> length (gp_credentials p) \<le> 32 \<and> (\<forall>b \<in> set (gp_credentials p). credential_ok b)
     \<and> distinct (map cb_name (gp_credentials p))
     \<and> validate_model_binding p = Inr ()
     \<and> validate_dns_egress_consistency p = Inr ()
     \<and> limits_ok (gp_limits p)"
proof -
  have rules: "each_r (\<lambda>(index, rule). validate_egress rule (''network.egress['' @ show_nat index @ '']''))
      (enumerate 0 (gp_egress p)) = Inr () \<longleftrightarrow> (\<forall>r \<in> set (gp_egress p). egress_ok r)"
    by (rule each_r_enumerate) (rule validate_egress_iff)
  have bindings: "each_r (\<lambda>(index, b). validate_credential b (''credentials['' @ show_nat index @ '']''))
      (enumerate 0 (gp_credentials p)) = Inr () \<longleftrightarrow> (\<forall>b \<in> set (gp_credentials p). credential_ok b)"
    by (rule each_r_enumerate) (rule validate_credential_iff)
  show ?thesis
    unfolding validate_def POLICY_VERSION_def MAX_EGRESS_RULES_def MAX_CREDENTIAL_BINDINGS_def
    by (simp only: then_r_Inr if_Inl_Inr rules bindings validate_dns_iff check_count_iff
        validate_limits_iff adjacent_dup_sort not_not)
qed

lemma validate_iff_policy_ok: "validate p = Inr u \<longleftrightarrow> policy_ok p"
  using distinct_destinations [of "gp_egress p"] validate_model_binding_iff [of p]
  unfolding validate_unfold policy_ok_def validate_consistency_iff by blast

section \<open>Zones\<close>

lemma zone_matches_suffix:
  "zone_matches (CHR ''.'' # suffix) host \<longleftrightarrow>
     (\<exists>sub rest. host = sub @ CHR ''.'' # rest \<and> to_ascii_lowercase rest = to_ascii_lowercase suffix)"
proof
  let ?k = "length host - length suffix - 1"
  assume m: "zone_matches (CHR ''.'' # suffix) host"
  then have len: "length suffix < length host" and dot: "host ! ?k = CHR ''.''"
    and ends: "ends_with_ignore_case host suffix"
    by (auto simp: zone_matches_def strip_prefix_def starts_with_def)
  then have "?k < length host" and Suc: "Suc ?k = length host - length suffix" by auto
  then have "host = take ?k host @ CHR ''.'' # drop (length host - length suffix) host"
    by (metis dot id_take_nth_drop)
  then show "\<exists>sub rest. host = sub @ CHR ''.'' # rest \<and> to_ascii_lowercase rest = to_ascii_lowercase suffix"
    using ends unfolding ends_with_ignore_case_def eq_ignore_ascii_case_def by blast
next
  assume "\<exists>sub rest. host = sub @ CHR ''.'' # rest \<and> to_ascii_lowercase rest = to_ascii_lowercase suffix"
  then obtain sub rest where h: "host = sub @ CHR ''.'' # rest"
    and low: "to_ascii_lowercase rest = to_ascii_lowercase suffix" by blast
  then have "length rest = length suffix" by (metis length_to_ascii_lowercase)
  with h low show "zone_matches (CHR ''.'' # suffix) host"
    by (simp add: zone_matches_def strip_prefix_def starts_with_def ends_with_ignore_case_def
        eq_ignore_ascii_case_def nth_append)
qed

lemma zone_matches_exact:
  assumes "zone \<noteq> []" and "hd zone \<noteq> CHR ''.''"
  shows "zone_matches zone host \<longleftrightarrow> to_ascii_lowercase (strip_trailing_dot host) = to_ascii_lowercase zone"
proof -
  have "strip_prefix zone ''.'' = None"
    using assms by (cases zone) (simp_all add: strip_prefix_def starts_with_def)
  then show ?thesis
    by (auto simp: zone_matches_def eq_ignore_case_def eq_ignore_ascii_case_def strip_trailing_dot_def Let_def
        dest: arg_cong [where f = length] split: option.splits)
qed

section \<open>Normalisation\<close>

lemma normalized_simps [simp]:
  "gp_version (normalized p) = gp_version p" "gp_model (normalized p) = gp_model p"
  "gp_limits (normalized p) = gp_limits p"
  "gp_zones (normalized p) = sort (gp_zones p)"
  "dns_allowed_record_types (gp_dns (normalized p)) = sort (dns_allowed_record_types (gp_dns p))"
  "gp_egress (normalized p) = map sort_rule_lists (sort_key rule_key (gp_egress p))"
  "gp_credentials (normalized p) = sort_key cb_name (gp_credentials p)"
  by (simp_all add: normalized_def)

lemma sort_rule_lists_simps [simp]:
  "er_host (sort_rule_lists r) = er_host r" "er_port (sort_rule_lists r) = er_port r"
  "er_protocol (sort_rule_lists r) = er_protocol r"
  "er_allowed_methods (sort_rule_lists r) = sort (er_allowed_methods r)"
  "er_allowed_paths (sort_rule_lists r) = sort (er_allowed_paths r)"
  "endpoint_of_rule (sort_rule_lists r) = endpoint_of_rule r"
  "rule_key (sort_rule_lists r) = rule_key r"
  by (simp_all add: sort_rule_lists_def endpoint_of_rule_def rule_key_def)

lemma egress_ok_sort [simp]: "egress_ok (sort_rule_lists r) = egress_ok r"
  by (simp add: egress_ok_def rule_lists_ok_def list_ok_def)

lemma endpoints_normalized [simp]: "endpoints (normalized p) = endpoints p"
  by (simp add: endpoints_def image_image)

lemma normalized_policy_ok: "policy_ok (normalized p) \<longleftrightarrow> policy_ok p"
proof -
  have "distinct (map endpoint_of_rule (gp_egress (normalized p)))
      = distinct (map endpoint_of_rule (gp_egress p))"
    by (simp add: comp_def distinct_map_sort_key)
  then show ?thesis
    by (simp add: policy_ok_def dns_ok_def binding_ok_def distinct_map_sort_key
        del: map_map split: option.split)
qed

section \<open>The normal form identifies equivalent policies\<close>

lemma sort_distinct_set: "distinct xs \<Longrightarrow> sort xs = sorted_list_of_set (set xs)"
  by (simp add: sorted_list_of_set_sort_remdups distinct_remdups_id)

lemma sort_rule_view: "egress_ok r \<Longrightarrow> sort_rule_lists r = rule_of_view (rule_view r)"
  by (simp add: sort_rule_lists_def rule_of_view_def rule_view_def egress_ok_def rule_lists_ok_def
      list_ok_def sort_distinct_set)

lemma rule_view_sort [simp]: "rule_view (sort_rule_lists r) = rule_view r"
  by (simp add: rule_view_def)

lemma distinct_rule_keys:
  assumes "distinct (map endpoint_of_rule rs)"
  shows "distinct (map rule_key rs)"
proof -
  have "map endpoint_of_rule rs = map (\<lambda>(h, q, pr). (h, q)) (map rule_key rs)"
    by (simp add: endpoint_of_rule_def rule_key_def comp_def)
  with assms have "distinct (map (\<lambda>(h, q, pr). (h, q)) (map rule_key rs))" by simp
  then show ?thesis by (simp add: distinct_map del: map_map)
qed

lemma sorted_normal_rules:
  assumes "policy_ok p"
  shows "sorted (map rule_key (gp_egress (normalized p)))"
    and "distinct (map rule_key (gp_egress (normalized p)))"
proof -
  show "sorted (map rule_key (gp_egress (normalized p)))" by (simp add: comp_def)
  show "distinct (map rule_key (gp_egress (normalized p)))"
    using assms distinct_rule_keys by (simp add: policy_ok_def comp_def distinct_map_sort_key)
qed

lemma normalized_egress_eq:
  assumes p: "policy_ok p" and q: "policy_ok q"
    and eq: "rule_view ` set (gp_egress p) = rule_view ` set (gp_egress q)"
  shows "gp_egress (normalized p) = gp_egress (normalized q)"
proof (rule sorted_key_unique [of rule_key])
  have view: "set (gp_egress (normalized x)) = rule_of_view ` rule_view ` set (gp_egress x)"
    if "policy_ok x" for x
    using that by (auto simp: policy_ok_def sort_rule_view image_image intro!: image_cong)
  show "set (gp_egress (normalized p)) = set (gp_egress (normalized q))"
    unfolding view [OF p] view [OF q] eq ..
qed (rule sorted_normal_rules [OF p] sorted_normal_rules [OF q])+

lemma guard_policy_eqI:
  assumes "gp_version p = gp_version q" "gp_dns p = gp_dns q" "gp_egress p = gp_egress q"
    and "gp_model p = gp_model q" "gp_credentials p = gp_credentials q" "gp_limits p = gp_limits q"
  shows "(p :: guard_policy) = q"
  using assms by (cases p, cases q) (auto intro: network_policy.equality)

lemma normalized_eq_iff:
  assumes p: "policy_ok p" and q: "policy_ok q"
  shows "normalized p = normalized q \<longleftrightarrow> policy_equiv p q"
proof
  assume eq: "normalized p = normalized q"
  have "set (gp_zones (normalized p)) = set (gp_zones (normalized q))" using eq by simp
  moreover have "set (dns_allowed_record_types (gp_dns (normalized p)))
      = set (dns_allowed_record_types (gp_dns (normalized q)))" using eq by simp
  moreover have "rule_view ` set (gp_egress (normalized p)) = rule_view ` set (gp_egress (normalized q))"
    using eq by simp
  moreover have "set (gp_credentials (normalized p)) = set (gp_credentials (normalized q))"
    using eq by simp
  moreover have "gp_version (normalized p) = gp_version (normalized q)"
    "gp_model (normalized p) = gp_model (normalized q)"
    "gp_limits (normalized p) = gp_limits (normalized q)" using eq by simp_all
  ultimately show "policy_equiv p q"
    by (simp add: policy_equiv_def image_image)
next
  assume eqv: "policy_equiv p q"
  have "sort (gp_zones p) = sort (gp_zones q)"
    using p q eqv by (simp add: policy_ok_def dns_ok_def policy_equiv_def sort_distinct_set)
  moreover have "sort (dns_allowed_record_types (gp_dns p)) = sort (dns_allowed_record_types (gp_dns q))"
    using p q eqv by (simp add: policy_ok_def dns_ok_def policy_equiv_def sort_distinct_set)
  moreover have "sort_key cb_name (gp_credentials p) = sort_key cb_name (gp_credentials q)"
    using p q eqv
    by (intro sorted_key_unique [of cb_name])
      (simp_all add: policy_ok_def policy_equiv_def distinct_map_sort_key)
  moreover have "gp_egress (normalized p) = gp_egress (normalized q)"
    using p q eqv by (intro normalized_egress_eq) (simp_all add: policy_equiv_def)
  ultimately show "normalized p = normalized q"
    using eqv
    by (intro guard_policy_eqI dns_policy.equality) (simp_all add: policy_equiv_def)
qed

lemma normalized_idem: "policy_ok p \<Longrightarrow> normalized (normalized p) = normalized p"
  by (subst normalized_eq_iff) (simp_all add: normalized_policy_ok policy_equiv_def image_image)

section \<open>Templates\<close>

lemma template_policy_ok: "template_policy t m al = Inr p \<Longrightarrow> policy_ok p"
  by (auto simp: template_policy_def result_simps Let_def validate_iff_policy_ok split: prod.splits)

lemma template_parts_cases:
  assumes "template_parts t m al = Inr (egress, zones, credentials)"
  shows "endpoint_of_rule ` set egress = template_endpoints t m al"
    and "requires_model t \<longleftrightarrow> m \<noteq> None"
    and "t = ReadOnlyApi \<Longrightarrow> egress = al \<and> (\<forall>r \<in> set al. read_only_rule r = Inr ())"
    and "t = NoNetwork \<Longrightarrow> egress = [] \<and> zones = [] \<and> credentials = []"
    and "set credentials = model_binding ` set_option m"
  using assms
  by (auto simp: template_parts_def template_endpoints_def result_simps require_model_def requires_model_def
      from_model_def endpoint_of_rule_def split: policy_template.splits if_splits)

lemma template_permits:
  assumes "template_policy t m al = Inr p"
  shows "endpoints p = template_endpoints t m al" and "gp_model p = m"
    and "set (gp_credentials p) = model_binding ` set_option m"
    and "t = ReadOnlyApi \<Longrightarrow> r \<in> set (gp_egress p) \<Longrightarrow>
      er_allowed_methods r \<noteq> [] \<and> set (er_allowed_methods r) \<subseteq> {''GET'', ''HEAD'', ''OPTIONS''}"
proof -
  obtain egress zones credentials
    where parts: "template_parts t m al = Inr (egress, zones, credentials)"
      and p: "gp_egress p = egress" "gp_model p = m" "gp_credentials p = credentials"
    using assms by (auto simp: template_policy_def result_simps Let_def split: prod.splits)
  note c = template_parts_cases [OF parts]
  show "endpoints p = template_endpoints t m al" using c(1) p by (simp add: endpoints_def)
  show "gp_model p = m" by (rule p)
  show "set (gp_credentials p) = model_binding ` set_option m" using c(5) p by simp
  assume "t = ReadOnlyApi" and "r \<in> set (gp_egress p)"
  then have "read_only_rule r = Inr ()" using c(3) p by simp
  then show "er_allowed_methods r \<noteq> [] \<and> set (er_allowed_methods r) \<subseteq> {''GET'', ''HEAD'', ''OPTIONS''}"
    by (auto simp: read_only_rule_def READ_ONLY_METHODS_def result_simps split: if_splits)
qed

section \<open>The effective policy\<close>

lemma effective_policy_ok: "effective_policy c = Inr p \<Longrightarrow> policy_ok p"
  by (auto simp: effective_policy_def result_simps validate_iff_policy_ok normalized_policy_ok
      template_policy_ok split: option.splits)

lemma effective_policy_cases:
  assumes "effective_policy c = Inr p"
  shows "1000 \<le> gc_watchdog_timeout_ms c \<and> gc_watchdog_timeout_ms c \<le> 60000"
    and "0 < gc_max_model_requests c"
    and "gc_policy c = Some q \<Longrightarrow> \<not> template_inputs_present c \<and> p = normalized q"
    and "gc_policy c = None \<Longrightarrow>
      template_policy (gc_policy_template c) (gc_model_endpoint c) (gc_allowlist c) = Inr p"
  using assms
  by (auto simp: effective_policy_def result_simps word_gt_0 split: option.splits)

section \<open>Names a policy resolves\<close>

definition zone_covers :: "string \<Rightarrow> string \<Rightarrow> bool" where
  "zone_covers zone host \<longleftrightarrow>
     (if hd zone = CHR ''.'' then \<exists>sub rest. host = sub @ CHR ''.'' # rest \<and> to_ascii_lowercase rest = tl zone
      else to_ascii_lowercase (strip_trailing_dot host) = zone)"

lemma dns_name_lower: "dns_name_ok n raw \<Longrightarrow> to_ascii_lowercase raw = raw"
  using dns_name_chars(2) [of raw] unfolding dns_name_ok_def Let_def
  by (intro to_ascii_lowercase_id) blast

lemma zone_matches_covers:
  assumes "zone_ok z"
  shows "zone_matches z host \<longleftrightarrow> zone_covers z host"
proof (cases "hd z = CHR ''.''")
  case True
  then obtain s where z: "z = CHR ''.'' # s" using zone_ok_not_Nil [OF assms] by (cases z) auto
  then have "dns_name_ok 1 s" using assms by (simp add: zone_ok_def strip_prefix_def starts_with_def)
  then show ?thesis using dns_name_lower [of 1 s] by (simp add: z zone_matches_suffix zone_covers_def)
next
  case False
  moreover have ne: "z \<noteq> []" using assms by (rule zone_ok_not_Nil)
  ultimately have "strip_prefix z ''.'' = None" by (cases z) (simp_all add: strip_prefix_def starts_with_def)
  then have "dns_name_ok 2 z" using assms by (simp add: zone_ok_def)
  then show ?thesis using False ne dns_name_lower [of 2 z] by (simp add: zone_matches_exact zone_covers_def)
qed


section \<open>Guarantees\<close>


definition sample_rule :: "string \<Rightarrow> string list \<Rightarrow> egress_rule" where
  "sample_rule host methods = \<lparr>er_host = host, er_port = 443, er_protocol = ''tcp'',
     er_allowed_methods = methods, er_allowed_paths = []\<rparr>"

definition sample_policy :: "string list \<Rightarrow> egress_rule list \<Rightarrow> guard_policy" where
  "sample_policy zones rules = default_guard_policy\<lparr>gp_network := \<lparr>
     np_dns = \<lparr>dns_allowed_zones = zones, dns_allowed_record_types = [''A'', ''AAAA'']\<rparr>,
     np_egress = rules\<rparr>\<rparr>"


text \<open>
  C26. The policy hash does not depend on the order of the set-like lists. For valid policies the
  normal forms, which are what is serialised and hashed, agree exactly when the two policies have
  the same version, model and limits, the same sets of zones, record types and bindings, and the
  same rules up to the order of rules, methods and paths; then the hashes agree.
\<close>

theorem policy_hash_order_independent:
  assumes "validate p = Inr ()" and "validate q = Inr ()"
  shows "(normalized p = normalized q \<longleftrightarrow> policy_equiv p q)
    \<and> (policy_equiv p q \<longrightarrow> policy_hash_of to_vec sha256_hex p = policy_hash_of to_vec sha256_hex q)"
proof -
  have eq: "normalized p = normalized q \<longleftrightarrow> policy_equiv p q"
    using normalized_eq_iff [of p q] assms by (simp add: validate_iff_policy_ok)
  then have "policy_equiv p q \<longrightarrow> canonical_json to_vec p = canonical_json to_vec q"
    by (simp add: canonical_json_def eq [symmetric])
  with eq show ?thesis by (simp add: policy_hash_of_def)
qed

theorem policy_hash_order_independent_witness:
  "policy_hash_of Inr (\<lambda>j. ''h'')
     (sample_policy [''b.io'', ''.a.io''] [sample_rule ''b.io'' [''PUT'', ''GET''], sample_rule ''x.a.io'' []])
   = policy_hash_of Inr (\<lambda>j. ''h'')
     (sample_policy [''.a.io'', ''b.io''] [sample_rule ''x.a.io'' [], sample_rule ''b.io'' [''GET'', ''PUT'']])"
proof -
  let ?p = "sample_policy [''b.io'', ''.a.io''] [sample_rule ''b.io'' [''PUT'', ''GET''], sample_rule ''x.a.io'' []]"
  let ?q = "sample_policy [''.a.io'', ''b.io''] [sample_rule ''x.a.io'' [], sample_rule ''b.io'' [''GET'', ''PUT'']]"
  have p: "validate ?p = Inr ()" by code_simp
  have q: "validate ?q = Inr ()" by code_simp
  have "policy_equiv ?p ?q"
    by (auto simp: policy_equiv_def sample_policy_def sample_rule_def rule_view_def default_guard_policy_def)
  then show ?thesis using policy_hash_order_independent [OF p q] by blast
qed

text \<open>
  C27. Under a valid policy a name resolves exactly when a zone covers it: an entry without a leading
  dot covers the name itself, in any case and with or without a trailing dot; an entry with a leading
  dot covers names that end in it at a label boundary, so neither the zone apex nor a name that
  merely ends in the same letters is covered.
\<close>

theorem allows_name_iff_covered:
  assumes "validate p = Inr ()"
  shows "allows_name (gp_dns p) name \<longleftrightarrow> (\<exists>z \<in> set (gp_zones p). zone_covers z (strip_trailing_dot name))"
proof -
  have "\<forall>z \<in> set (gp_zones p). zone_ok z"
    using assms by (simp add: validate_iff_policy_ok policy_ok_def dns_ok_def)
  then have "\<forall>z \<in> set (gp_zones p). zone_matches z h = zone_covers z h" for h
    using zone_matches_covers by blast
  then show ?thesis by (simp add: allows_name_def list_ex_iff Let_def)
qed

theorem allows_name_iff_covered_witness:
  "allows_name (gp_dns (sample_policy [''.a.io''] [sample_rule ''x.a.io'' []])) ''Y.A.io.''
   \<and> \<not> allows_name (gp_dns (sample_policy [''.a.io''] [sample_rule ''x.a.io'' []])) ''a.io''"
proof -
  let ?p = "sample_policy [''.a.io''] [sample_rule ''x.a.io'' []]"
  have p: "validate ?p = Inr ()" by code_simp
  have z: "set (gp_zones ?p) = {''.a.io''}" by (simp add: sample_policy_def)
  have d: "strip_trailing_dot ''Y.A.io.'' = ''Y'' @ CHR ''.'' # ''A.io''" by code_simp
  have l: "to_ascii_lowercase ''A.io'' = ''a.io''" by code_simp
  have "zone_covers ''.a.io'' (sub @ CHR ''.'' # ''A.io'')" for sub
    using l by (auto simp only: zone_covers_def list.sel if_True simp_thms)
  then have "zone_covers ''.a.io'' (strip_trailing_dot ''Y.A.io.'')" unfolding d .
  moreover have "strip_trailing_dot ''a.io'' = ''a.io''" by code_simp
  moreover have "\<not> zone_covers ''.a.io'' ''a.io''"
  proof
    assume "zone_covers ''.a.io'' ''a.io''"
    then obtain sub rest where h: "''a.io'' = sub @ CHR ''.'' # rest" and r: "to_ascii_lowercase rest = ''a.io''"
      unfolding zone_covers_def list.sel simp_thms if_True by blast
    from arg_cong [OF r, of length] have "length rest = 4" by simp
    with arg_cong [OF h, of length] show False by simp
  qed
  ultimately show ?thesis using allows_name_iff_covered [OF p] z by simp
qed

text \<open>
  C25. A template opens exactly the destinations it names: none, the model endpoint only, the model
  endpoint and the allowlist, or the allowlist only. It carries exactly one credential binding, the
  model's, when there is a model; a read-only template only ever permits the methods GET, HEAD and
  OPTIONS; and the policy it produces is well-formed.
\<close>

theorem template_opens_exactly:
  assumes "template_policy t model allowlist = Inr p"
  shows "policy_ok p \<and> endpoints p = template_endpoints t model allowlist \<and> gp_model p = model
    \<and> set (gp_credentials p) = model_binding ` set_option model
    \<and> (t = ReadOnlyApi \<longrightarrow> (\<forall>r \<in> set (gp_egress p). er_allowed_methods r \<noteq> []
          \<and> set (er_allowed_methods r) \<subseteq> {''GET'', ''HEAD'', ''OPTIONS''}))"
  using template_permits [OF assms] template_policy_ok [OF assms] by blast

theorem template_opens_exactly_witness:
  "\<exists>p. template_policy ReadOnlyApi None [sample_rule ''b.io'' [''GET'']] = Inr p
     \<and> endpoints p = {(''b.io'', 443)} \<and> gp_credentials p = []"
proof -
  have "is_ok (template_policy ReadOnlyApi None [sample_rule ''b.io'' [''GET'']])" by code_simp
  then obtain p where p: "template_policy ReadOnlyApi None [sample_rule ''b.io'' [''GET'']] = Inr p"
    by (auto simp: is_ok_iff)
  show ?thesis
    using template_opens_exactly [OF p] p
    by (simp add: template_endpoints_def endpoint_of_rule_def sample_rule_def)
qed

text \<open>
  C22. Whatever a sandbox's guard configuration, the policy that takes effect is well-formed and has
  exactly one source: an explicit policy, in normal form, with no template input beside it; or the
  template applied to the configured model and allowlist. The watchdog timeout lies between one and
  sixty seconds and the model request budget is positive. The default configuration takes effect as
  the policy that opens nothing.
\<close>

theorem effective_policy_single_source:
  "effective_policy default_guard_config = Inr default_guard_policy \<and> endpoints default_guard_policy = {}
   \<and> (effective_policy c = Inr p \<longrightarrow> policy_ok p
        \<and> 1000 \<le> gc_watchdog_timeout_ms c \<and> gc_watchdog_timeout_ms c \<le> 60000 \<and> 0 < gc_max_model_requests c
        \<and> (case gc_policy c of
             Some q \<Rightarrow> \<not> template_inputs_present c \<and> p = normalized q
           | None \<Rightarrow> template_policy (gc_policy_template c) (gc_model_endpoint c) (gc_allowlist c) = Inr p))"
proof (intro conjI impI)
  show "effective_policy default_guard_config = Inr default_guard_policy" by code_simp
  show "endpoints default_guard_policy = {}" by (simp add: endpoints_def default_guard_policy_def)
  assume e: "effective_policy c = Inr p"
  show "policy_ok p" by (rule effective_policy_ok [OF e])
  show "1000 \<le> gc_watchdog_timeout_ms c" "gc_watchdog_timeout_ms c \<le> 60000"
    "0 < gc_max_model_requests c"
    using effective_policy_cases(1,2) [OF e] by simp_all
  show "case gc_policy c of
      Some q \<Rightarrow> \<not> template_inputs_present c \<and> p = normalized q
    | None \<Rightarrow> template_policy (gc_policy_template c) (gc_model_endpoint c) (gc_allowlist c) = Inr p"
    using effective_policy_cases(3,4) [OF e] by (simp split: option.split)
qed

theorem effective_policy_single_source_witness:
  "policy_ok default_guard_policy \<and> template_policy NoNetwork None [] = Inr default_guard_policy"
proof -
  have e: "effective_policy default_guard_config = Inr default_guard_policy" by code_simp
  show ?thesis
    using effective_policy_single_source [of default_guard_config default_guard_policy] e
    by (simp add: default_guard_config_def)
qed


end
