(* ===== verification/Core_Laws.thy ===== *)
theory Core_Laws
  imports Core_Domain Policy_Laws
begin

text \<open>
  What the intake layer guarantees: confinement of workspace paths, the exact acceptance conditions
  of the validators, quota arithmetic that cannot wrap, the reachable part of the sandbox life cycle,
  and the wire form of the network policy.
\<close>

section \<open>Workspace paths\<close>

definition path_part :: "string \<Rightarrow> bool" where
  "path_part x \<longleftrightarrow> x \<noteq> [] \<and> x \<noteq> ''.''"

definition render_parts :: "string list \<Rightarrow> string" where
  "render_parts parts = concat (map ((#) (CHR ''/'')) parts)"

lemma render_parts_simps [simp]:
  "render_parts [] = []" "render_parts (x # xs) = CHR ''/'' # x @ render_parts xs"
  "render_parts (xs @ ys) = render_parts xs @ render_parts ys"
  by (simp_all add: render_parts_def)

lemma split_on_single: "c \<notin> set y \<Longrightarrow> split_on c y = [y]"
  by (induction y) auto

lemma split_render_parts:
  assumes "\<forall>x \<in> set parts. CHR ''/'' \<notin> set x"
  shows "split_on (CHR ''/'') (render_parts parts) = [] # parts"
  using assms
proof (induction parts)
  case (Cons x xs)
  then have "split_on (CHR ''/'') (x @ render_parts xs) = x # xs"
    by (cases xs) (simp_all add: split_on_append_sep split_on_single)
  then show ?case by simp
qed simp

lemma push_components_Inr:
  assumes "\<forall>c \<in> set cs. \<forall>x. c = Normal x \<longrightarrow> x \<noteq> [] \<and> CHR ''/'' \<notin> set x"
    and "b \<noteq> []" and "last b \<noteq> CHR ''/''"
  shows "push_components b cs = Inr p \<longleftrightarrow>
    (\<forall>c \<in> set cs. c \<noteq> RootDir \<and> c \<noteq> ParentDir)
    \<and> p = b @ render_parts (concat (map (\<lambda>c. case c of Normal x \<Rightarrow> [x] | _ \<Rightarrow> []) cs))"
  using assms
proof (induction cs arbitrary: b)
  case (Cons c cs)
  have ends: "\<not> ends_with b ''/''" using Cons.prems by (auto simp: ends_with_iff)
  show ?case
  proof (cases c)
    case (Normal x)
    with Cons.prems have x: "x \<noteq> []" "CHR ''/'' \<notin> set x" by simp_all
    then have push: "path_push b x = b @ CHR ''/'' # x"
      using ends Cons.prems(2) by (cases x) (auto simp: path_push_def starts_with_def)
    have "last (b @ CHR ''/'' # x) \<noteq> CHR ''/''"
      using x last_in_set [of x] by (metis last_ConsR last_appendR list.discI)
    with Cons.IH [of "b @ CHR ''/'' # x"] Cons.prems show ?thesis
      by (auto simp: Normal push)
  qed (use Cons in auto)
qed auto

lemma split_dropWhile:
  "filter P (split_on c (dropWhile (\<lambda>x. x = c) r)) = filter P (split_on c r)" if "\<not> P []"
  using that by (induction r) auto

lemma dropWhile_no_start: "\<not> starts_with (dropWhile (\<lambda>x. x = c) r) [c]"
  by (induction r) (auto simp: starts_with_def)

lemma workspace_split:
  assumes "raw = ''/workspace'' \<or> starts_with raw ''/workspace/''"
    and "relative = trim_start_matches (CHR ''/'') (case strip_prefix raw ''/workspace'' of Some r \<Rightarrow> r | None \<Rightarrow> [])"
    and "\<not> P []"
  shows "filter P (split_on (CHR ''/'') raw) = filter P [''workspace''] @ filter P (split_on (CHR ''/'') relative)"
proof -
  have w: "split_on (CHR ''/'') ''/workspace'' = [[], ''workspace'']" by code_simp
  obtain r where raw: "raw = ''/workspace'' @ r" and r: "r = [] \<or> (\<exists>t. r = CHR ''/'' # t)"
  proof (cases "raw = ''/workspace''")
    case True
    then show ?thesis using that [of "[]"] by simp
  next
    case False
    with assms(1) obtain t where "raw = ''/workspace'' @ CHR ''/'' # t" by (auto simp: starts_with_iff)
    then show ?thesis using that [of "CHR ''/'' # t"] by blast
  qed
  have "strip_prefix raw ''/workspace'' = Some r" unfolding strip_prefix_Some by (rule raw)
  then have rel: "relative = dropWhile (\<lambda>x. x = CHR ''/'') r"
    using assms(2) by (simp add: trim_start_matches_def)
  from r show ?thesis
  proof
    assume "r = []"
    with rel raw w assms(3) show ?thesis by simp
  next
    assume "\<exists>t. r = CHR ''/'' # t"
    then obtain t where t: "r = CHR ''/'' # t" ..
    have "split_on (CHR ''/'') raw = [[], ''workspace''] @ split_on (CHR ''/'') t"
      unfolding raw t split_on_append_sep w ..
    with rel t assms(3) show ?thesis
      using split_dropWhile [of P "CHR ''/''" t] by simp
  qed
qed

lemma path_components_relative:
  assumes "\<not> starts_with s ''/''"
  shows "push_components ''/workspace'' (path_components s) = Inr p \<longleftrightarrow>
    ''..'' \<notin> set (split_on (CHR ''/'') s)
    \<and> p = render_parts (''workspace'' # filter path_part (split_on (CHR ''/'') s))"
proof -
  let ?parts = "filter path_part (split_on (CHR ''/'') s)"
  let ?norm = "map (\<lambda>p. if p = ''..'' then ParentDir else Normal p) ?parts"
  obtain lead where comps: "path_components s = lead @ ?norm" and lead: "set lead \<subseteq> {CurDir}"
    using assms that by (auto simp: path_components_def Let_def path_part_def [abs_def])
  have "\<forall>x \<in> set ?parts. x \<noteq> [] \<and> CHR ''/'' \<notin> set x"
    using split_on_no_sep by (auto simp: path_part_def)
  then have "\<forall>c \<in> set (path_components s). \<forall>x. c = Normal x \<longrightarrow> x \<noteq> [] \<and> CHR ''/'' \<notin> set x"
    using lead by (auto simp: comps split: if_splits)
  then have "push_components ''/workspace'' (path_components s) = Inr p \<longleftrightarrow>
    (\<forall>c \<in> set (path_components s). c \<noteq> RootDir \<and> c \<noteq> ParentDir)
    \<and> p = ''/workspace'' @ render_parts (concat (map (\<lambda>c. case c of Normal x \<Rightarrow> [x] | _ \<Rightarrow> []) (path_components s)))"
    by (rule push_components_Inr) simp_all
  moreover have "(\<forall>c \<in> set (path_components s). c \<noteq> RootDir \<and> c \<noteq> ParentDir)
      \<longleftrightarrow> ''..'' \<notin> set (split_on (CHR ''/'') s)"
    using lead by (auto simp: comps path_part_def split: if_splits)
  moreover have "concat (map (\<lambda>c. case c of Normal x \<Rightarrow> [x] | _ \<Rightarrow> []) (path_components s)) = ?parts"
    if "''..'' \<notin> set (split_on (CHR ''/'') s)"
  proof -
    have "concat (map (\<lambda>c. case c of Normal x \<Rightarrow> [x] | _ \<Rightarrow> []) lead) = []" using lead by auto
    moreover have "?norm = map Normal ?parts" using that by auto
    moreover have "concat (map (\<lambda>c. case c of Normal x \<Rightarrow> [x] | _ \<Rightarrow> []) (map Normal xs)) = xs" for xs
      by (induction xs) auto
    ultimately show ?thesis by (simp only: comps map_append concat_append append_Nil)
  qed
  ultimately show ?thesis by auto
qed

lemma safe_path_iff:
  "safe_path raw = Inr p \<longleftrightarrow>
     length raw \<le> 4096 \<and> (raw = ''/workspace'' \<or> starts_with raw ''/workspace/'')
     \<and> ''..'' \<notin> set (split_on (CHR ''/'') raw)
     \<and> p = render_parts (filter path_part (split_on (CHR ''/'') raw))"
proof (cases "raw = ''/workspace'' \<or> starts_with raw ''/workspace/''")
  case True
  define relative where "relative =
    trim_start_matches (CHR ''/'') (case strip_prefix raw ''/workspace'' of Some r \<Rightarrow> r | None \<Rightarrow> [])"
  have abs: "raw \<noteq> []" "starts_with raw ''/''" using True by (auto simp: starts_with_iff)
  have "\<not> starts_with relative ''/''"
    unfolding relative_def trim_start_matches_def by (rule dropWhile_no_start)
  note comps = path_components_relative [OF this, of p]
  note split = workspace_split [OF True relative_def]
  have "filter path_part (split_on (CHR ''/'') raw) = ''workspace'' # filter path_part (split_on (CHR ''/'') relative)"
    using split [of path_part] by (simp add: path_part_def)
  moreover have "''..'' \<in> set (split_on (CHR ''/'') raw) \<longleftrightarrow> ''..'' \<in> set (split_on (CHR ''/'') relative)"
    using arg_cong [OF split [of "\<lambda>x. x = ''..''"], of set] by auto
  ultimately show ?thesis
    using True abs comps unfolding safe_path_def relative_def [symmetric] Let_def
    by (simp add: not_less) blast
next
  case False
  then show ?thesis by (auto simp: safe_path_def)
qed

lemma length_render_split: "length (render_parts (split_on c s)) = Suc (length s)"
proof (induction s)
  case (Cons x xs)
  then show ?case by (cases "split_on c xs") auto
qed simp

lemma length_render_filter: "length (render_parts (filter P xs)) \<le> length (render_parts xs)"
  by (induction xs) auto

lemma safe_path_parts:
  assumes "safe_path raw = Inr p"
  obtains parts where "p = ''/workspace'' @ render_parts parts"
    and "\<forall>x \<in> set parts. x \<noteq> [] \<and> x \<noteq> ''.'' \<and> x \<noteq> ''..'' \<and> CHR ''/'' \<notin> set x"
    and "filter path_part (split_on (CHR ''/'') raw) = ''workspace'' # parts"
proof -
  have ok: "raw = ''/workspace'' \<or> starts_with raw ''/workspace/''" "''..'' \<notin> set (split_on (CHR ''/'') raw)"
    and p: "p = render_parts (filter path_part (split_on (CHR ''/'') raw))"
    using assms by (simp_all add: safe_path_iff)
  have "\<exists>parts. filter path_part (split_on (CHR ''/'') raw) = ''workspace'' # parts"
    using workspace_split [OF ok(1) refl, of path_part] by (simp add: path_part_def)
  then obtain parts where parts: "filter path_part (split_on (CHR ''/'') raw) = ''workspace'' # parts" ..
  have "x \<noteq> [] \<and> x \<noteq> ''.'' \<and> x \<noteq> ''..'' \<and> CHR ''/'' \<notin> set x" if "x \<in> set parts" for x
  proof -
    from that parts have "x \<in> set (filter path_part (split_on (CHR ''/'') raw))" by simp
    then show ?thesis using ok(2) split_on_no_sep by (auto simp: path_part_def)
  qed
  with that parts p show thesis by simp
qed

lemma safe_path_idem:
  assumes "safe_path raw = Inr p"
  shows "safe_path p = Inr p"
proof -
  obtain parts where p: "p = ''/workspace'' @ render_parts parts"
    and parts: "\<forall>x \<in> set parts. x \<noteq> [] \<and> x \<noteq> ''.'' \<and> x \<noteq> ''..'' \<and> CHR ''/'' \<notin> set x"
    and split: "filter path_part (split_on (CHR ''/'') raw) = ''workspace'' # parts"
    using assms by (rule safe_path_parts)
  have p': "p = render_parts (''workspace'' # parts)" by (simp add: p)
  have sp: "split_on (CHR ''/'') p = [] # ''workspace'' # parts"
    unfolding p' using parts by (intro split_render_parts) simp
  obtain t where t: "raw = CHR ''/'' # t"
    using assms by (auto simp: safe_path_iff starts_with_iff)
  have "p = render_parts (filter path_part (split_on (CHR ''/'') raw))" unfolding split by (rule p')
  then have "length p \<le> length raw"
    using length_render_filter [of path_part "split_on (CHR ''/'') t"]
    by (simp add: t path_part_def [of "[]"] length_render_split)
  moreover have "length raw \<le> 4096" using assms by (simp add: safe_path_iff)
  ultimately have len: "length p \<le> 4096" by simp
  have pre: "p = ''/workspace'' \<or> starts_with p ''/workspace/''"
    unfolding p by (cases parts) (simp_all add: starts_with_def)
  have "filter path_part parts = parts" using parts by (intro filter_True) (simp add: path_part_def)
  then have "filter path_part (split_on (CHR ''/'') p) = ''workspace'' # parts"
    by (simp add: sp path_part_def [of "[]"] path_part_def [of "''workspace''"])
  moreover have "''..'' \<notin> set (split_on (CHR ''/'') p)" unfolding sp using parts by auto
  ultimately show ?thesis unfolding safe_path_iff using len pre p' by metis
qed

section \<open>Exec environments\<close>

definition env_var_ok :: "string \<times> string \<Rightarrow> bool" where
  "env_var_ok = (\<lambda>(key, value). key \<noteq> [] \<and> length key \<le> 256 \<and> CHR ''='' \<notin> set key \<and> \<not> contains_nul key
     \<and> length value \<le> 4096 \<and> \<not> contains_nul value)"

definition env_bytes :: "(string \<times> string) list \<Rightarrow> nat" where
  "env_bytes environment = sum_list (map (\<lambda>(key, value). length key + length value) environment)"

lemma validate_env_vars_iff:
  "tot \<le> 65536 \<Longrightarrow> validate_env_vars tot environment = Inr u \<longleftrightarrow>
     (\<forall>kv \<in> set environment. env_var_ok kv) \<and> tot + env_bytes environment \<le> 65536"
proof (induction environment arbitrary: tot)
  case Nil
  then show ?case by (simp add: env_bytes_def)
next
  case (Cons kv environment)
  obtain key v where kv: "kv = (key, v)" by (cases kv)
  show ?case
  proof (cases "tot + length key + length v \<le> 65536")
    case True
    then show ?thesis
      using Cons.IH [OF True]
      by (auto simp: kv env_var_ok_def env_bytes_def not_less MAX_EXEC_ENV_KEY_def MAX_EXEC_ENV_VALUE_def
          MAX_EXEC_ENV_TOTAL_def Let_def)
  next
    case False
    then show ?thesis
      by (auto simp: kv env_bytes_def Let_def MAX_EXEC_ENV_TOTAL_def)
  qed
qed

lemma validate_exec_environment_iff:
  "validate_exec_environment environment = Inr u \<longleftrightarrow>
     length environment \<le> 256 \<and> (\<forall>kv \<in> set environment. env_var_ok kv) \<and> env_bytes environment \<le> 65536"
  by (auto simp: validate_exec_environment_def validate_env_vars_iff MAX_EXEC_ENV_VARS_def not_less)

section \<open>Quotas\<close>

fun quota_add_all :: "quota_usage \<Rightarrow> sandbox list \<Rightarrow> quota_usage option" where
  "quota_add_all u [] = Some u"
| "quota_add_all u (s # ss) = (case quota_checked_add u s of None \<Rightarrow> None | Some u' \<Rightarrow> quota_add_all u' ss)"

definition true_usage :: "sandbox list \<Rightarrow> nat \<times> nat \<times> nat \<times> nat" where
  "true_usage ss = (length ss, sum_list (map (\<lambda>s. unat (sb_cpu s)) ss),
     sum_list (map (\<lambda>s. unat (sb_memory_mb s)) ss), sum_list (map (\<lambda>s. unat (sb_disk_mb s)) ss))"

definition within_quota :: "nat \<times> nat \<times> nat \<times> nat \<Rightarrow> quota_limits \<Rightarrow> bool" where
  "within_quota = (\<lambda>(active, vcpus, memory, disk) l.
     active \<le> unat (ql_max_active_sandboxes l) \<and> vcpus \<le> unat (ql_max_vcpus l)
     \<and> memory \<le> unat (ql_max_memory_mb l) \<and> disk \<le> unat (ql_max_disk_mb l))"

definition usage_nat :: "quota_usage \<Rightarrow> nat \<times> nat \<times> nat \<times> nat" where
  "usage_nat u = (unat (qu_active_sandboxes u), unat (qu_vcpus u), unat (qu_memory_mb u), unat (qu_disk_mb u))"

lemma unat_ucast_32_64: "unat (ucast (x :: u32) :: u64) = unat x"
proof -
  have "unat x < 2 ^ 64" by (rule order.strict_trans2 [OF unsigned_less]) simp
  then show ?thesis by (simp add: unsigned_ucast_eq take_bit_nat_eq_self)
qed

lemma quota_checked_add_Some:
  assumes "quota_checked_add u s = Some u'"
  shows "unat (qu_active_sandboxes u') = Suc (unat (qu_active_sandboxes u))"
    and "unat (qu_vcpus u') = unat (qu_vcpus u) + unat (sb_cpu s)"
    and "unat (qu_memory_mb u') = unat (qu_memory_mb u) + unat (sb_memory_mb s)"
    and "unat (qu_disk_mb u') = unat (qu_disk_mb u) + unat (sb_disk_mb s)"
  using assms
  by (auto simp: quota_checked_add_def unat_ucast_32_64 dest!: checked_add_w_Some split: option.splits)

lemma quota_checked_add_None:
  "quota_checked_add u s = None \<longleftrightarrow>
     2 ^ 32 \<le> unat (qu_active_sandboxes u) + 1 \<or> 2 ^ 32 \<le> unat (qu_vcpus u) + unat (sb_cpu s)
     \<or> 2 ^ 64 \<le> unat (qu_memory_mb u) + unat (sb_memory_mb s)
     \<or> 2 ^ 64 \<le> unat (qu_disk_mb u) + unat (sb_disk_mb s)"
  by (auto simp: quota_checked_add_def checked_add_w_def unat_ucast_32_64 split: option.splits if_splits)

lemma exceeds_iff: "exceeds u l \<longleftrightarrow> \<not> within_quota (usage_nat u) l"
  by (auto simp: exceeds_def within_quota_def usage_nat_def word_less_nat_alt)

lemma quota_add_all_nat:
  "quota_add_all u ss = Some u' \<Longrightarrow>
     usage_nat u' = (case usage_nat u of (a, v, m, d) \<Rightarrow> case true_usage ss of (a', v', m', d') \<Rightarrow>
       (a + a', v + v', m + m', d + d'))"
proof (induction ss arbitrary: u)
  case (Cons s ss)
  then obtain u1 where u1: "quota_checked_add u s = Some u1" "quota_add_all u1 ss = Some u'"
    by (auto split: option.splits)
  show ?case
    using Cons.IH [OF u1(2)] quota_checked_add_Some [OF u1(1)]
    by (simp add: usage_nat_def true_usage_def)
qed (simp add: usage_nat_def true_usage_def)

lemma quota_add_all_total:
  assumes "within_quota (case usage_nat u of (a, v, m, d) \<Rightarrow> case true_usage ss of (a', v', m', d') \<Rightarrow>
       (a + a', v + v', m + m', d + d')) l"
  shows "\<exists>u'. quota_add_all u ss = Some u'"
  using assms
proof (induction ss arbitrary: u)
  case (Cons s ss)
  have "unat (ql_max_active_sandboxes l) < 2 ^ 32" "unat (ql_max_vcpus l) < 2 ^ 32"
    "unat (ql_max_memory_mb l) < 2 ^ 64" "unat (ql_max_disk_mb l) < 2 ^ 64"
    by (rule order.strict_trans2 [OF unsigned_less], simp)+
  with Cons.prems have "quota_checked_add u s \<noteq> None"
    unfolding quota_checked_add_None by (simp add: within_quota_def usage_nat_def true_usage_def)
  then obtain u1 where u1: "quota_checked_add u s = Some u1" by auto
  have "\<exists>u'. quota_add_all u1 ss = Some u'"
    using Cons.prems quota_checked_add_Some [OF u1]
    by (intro Cons.IH) (simp add: within_quota_def usage_nat_def true_usage_def)
  then show ?case by (simp add: u1)
qed simp

lemma quota_admission_iff:
  "(\<exists>u. quota_add_all no_usage ss = Some u \<and> \<not> exceeds u l) \<longleftrightarrow> within_quota (true_usage ss) l"
proof -
  have zero: "usage_nat no_usage = (0, 0, 0, 0)" by (simp add: usage_nat_def no_usage_def)
  then have "usage_nat u = true_usage ss" if "quota_add_all no_usage ss = Some u" for u
    using quota_add_all_nat [OF that] by (simp add: true_usage_def)
  moreover have "within_quota (true_usage ss) l \<Longrightarrow> \<exists>u. quota_add_all no_usage ss = Some u"
    using quota_add_all_total [where u = no_usage and ss = ss and l = l] zero by (simp add: true_usage_def)
  ultimately show ?thesis by (auto simp: exceeds_iff)
qed

section \<open>Life cycle\<close>

lemma quarantined_absorbing: "can_transition_to\<^sup>*\<^sup>* Quarantined s \<Longrightarrow> s = Quarantined"
  by (induction rule: rtranclp_induct) (auto simp: can_transition_to_def)

lemma restoring_unreachable:
  assumes "can_transition_to\<^sup>*\<^sup>* s t" and "s \<noteq> Restoring"
  shows "t \<noteq> Restoring"
  using assms by (induction rule: rtranclp_induct) (auto simp: can_transition_to_def)

lemma reachable_from_creating: "can_transition_to\<^sup>*\<^sup>* Creating t \<longleftrightarrow> t \<noteq> Restoring"
proof
  assume "t \<noteq> Restoring"
  have step: "can_transition_to\<^sup>*\<^sup>* Creating s \<Longrightarrow> can_transition_to s t \<Longrightarrow> can_transition_to\<^sup>*\<^sup>* Creating t" for s t
    by (rule rtranclp.rtrancl_into_rtrancl)
  have c: "can_transition_to\<^sup>*\<^sup>* Creating Creating" by simp
  have st: "can_transition_to\<^sup>*\<^sup>* Creating Starting" using step [OF c] by (simp add: can_transition_to_def)
  have r: "can_transition_to\<^sup>*\<^sup>* Creating Running" using step [OF st] by (simp add: can_transition_to_def)
  have sg: "can_transition_to\<^sup>*\<^sup>* Creating Stopping" using step [OF r] by (simp add: can_transition_to_def)
  have d: "can_transition_to\<^sup>*\<^sup>* Creating Destroying" using step [OF c] by (simp add: can_transition_to_def)
  show "can_transition_to\<^sup>*\<^sup>* Creating t"
    using \<open>t \<noteq> Restoring\<close> c st r sg d step [OF c] step [OF r] step [OF sg] step [OF d]
    by (cases t) (simp_all add: can_transition_to_def)
qed (use restoring_unreachable in blast)

section \<open>Environments and create requests\<close>

definition layer_ok :: "(string \<Rightarrow> string option) \<Rightarrow> (string \<Rightarrow> string) \<Rightarrow> layer_spec \<Rightarrow> bool" where
  "layer_ok base64_decode sha256_hex layer \<longleftrightarrow>
     ly_name layer \<noteq> [] \<and> length (ly_name layer) \<le> 128 \<and> (\<forall>c \<in> set (ly_name layer). layer_name_byte c)
     \<and> length (ly_content_digest layer) = 64 \<and> (\<forall>c \<in> set (ly_content_digest layer). is_ascii_hexdigit c)
     \<and> (ly_content_base64 layer = []
        \<or> (\<exists>bytes. base64_decode (ly_content_base64 layer) = Some bytes
             \<and> length bytes \<le> 16 * 1024 * 1024 \<and> sha256_hex bytes = ly_content_digest layer))"

lemma layer_payload_iff:
  "validate_layer_payload base64_decode sha256_hex layer = Inr u \<longleftrightarrow>
     ly_content_base64 layer = []
     \<or> (\<exists>bytes. base64_decode (ly_content_base64 layer) = Some bytes
          \<and> length bytes \<le> 16 * 1024 * 1024 \<and> sha256_hex bytes = ly_content_digest layer)"
  by (auto simp: validate_layer_payload_def result_simps MAX_FILE_def not_less)

lemma layer_name_no_nul: "(\<forall>c \<in> set n. layer_name_byte c) \<Longrightarrow> \<not> contains_nul n"
  by (auto simp: contains_nul_def layer_name_byte_def byte_defs less_eq_char_def)

lemma validate_layers_iff:
  "validate_layers base64_decode sha256_hex seen layers = Inr u \<longleftrightarrow>
     (\<forall>l \<in> set layers. layer_ok base64_decode sha256_hex l)
     \<and> distinct (map (\<lambda>l. (ly_kind l, ly_name l)) layers)
     \<and> set (map (\<lambda>l. (ly_kind l, ly_name l)) layers) \<inter> set seen = {}"
proof (induction layers arbitrary: seen)
  case (Cons l layers)
  show ?case
    unfolding validate_layers.simps
    by (simp only: result_simps Cons.IH layer_payload_iff)
      (auto simp: layer_ok_def list_all_iff not_less layer_name_no_nul)
qed simp

definition git_authority :: "string \<Rightarrow> string option" where
  "git_authority repo = map_option (\<lambda>(scheme, rest). hd (split_on (CHR ''/'') rest)) (split_once repo ''://'')"

definition git_transport :: "string \<Rightarrow> bool" where
  "git_transport repo \<longleftrightarrow> starts_with repo ''https://'' \<or> starts_with repo ''git@''
     \<or> starts_with repo ''ssh://'' \<or> starts_with repo ''git://''"

lemma validate_git_repo_iff:
  "validate_git_repo repo = Inr u \<longleftrightarrow>
      repo \<noteq> [] \<and> length repo \<le> 2048 \<and> \<not> contains_nul repo \<and> git_transport repo
      \<and> (\<forall>authority. git_authority repo = Some authority \<longrightarrow> CHR ''@'' \<notin> set authority)"
proof (cases "split_once repo ''://''")
  case None
  then show ?thesis
    unfolding validate_git_repo_def git_authority_def git_transport_def
    by (simp only: if_Inl_Inr option.case option.map) auto
next
  case (Some a)
  then show ?thesis
    unfolding validate_git_repo_def git_authority_def git_transport_def
    by (cases a) (simp only: if_Inl_Inr option.case option.map prod.case de_Morgan_disj not_less, auto)
qed

definition workspace_ok :: "workspace_spec \<Rightarrow> bool" where
  "workspace_ok w \<longleftrightarrow>
     (case w of
        Git repo reference shallow \<Rightarrow>
          repo \<noteq> [] \<and> length repo \<le> 2048 \<and> \<not> contains_nul repo \<and> git_transport repo
          \<and> (\<forall>authority. git_authority repo = Some authority \<longrightarrow> CHR ''@'' \<notin> set authority)
          \<and> (\<forall>v. reference = Some v \<longrightarrow> v \<noteq> [] \<and> length v \<le> 256 \<and> \<not> contains_nul v)
      | _ \<Rightarrow> True)"

lemma validate_workspace_iff: "validate_workspace w = Inr u \<longleftrightarrow> workspace_ok w"
proof (cases w)
  case (Git repo reference shallow)
  show ?thesis
    unfolding Git validate_workspace_def workspace_ok_def workspace_spec.case then_r_Inr validate_git_repo_iff
    by (cases reference) (simp_all add: not_less)
qed (simp_all add: validate_workspace_def workspace_ok_def)

definition toolkit_ok :: "toolkit_spec \<Rightarrow> bool" where
  "toolkit_ok t \<longleftrightarrow>
     tk_name t \<noteq> [] \<and> length (tk_name t) \<le> 64 \<and> (\<forall>c \<in> set (tk_name t). toolkit_name_byte c)
     \<and> length (tk_setup_commands t) \<le> 32
     \<and> (\<forall>command \<in> set (tk_setup_commands t). command \<noteq> [] \<and> length command \<le> 64
          \<and> (\<forall>arg \<in> set command. arg \<noteq> [] \<and> length arg \<le> 4096 \<and> \<not> contains_nul arg))"

lemma validate_toolkit_iff: "validate_toolkit t = Inr u \<longleftrightarrow> toolkit_ok t"
  unfolding validate_toolkit_def toolkit_ok_def list_all_iff list_ex_iff
  by (cases u, simp only: if_Inl_Inr de_Morgan_disj not_not not_less bex_simps ball_simps simp_thms conj_assoc)

definition environment_ok :: "(string \<Rightarrow> string option) \<Rightarrow> (string \<Rightarrow> string) \<Rightarrow> environment_spec \<Rightarrow> bool" where
  "environment_ok base64_decode sha256_hex e \<longleftrightarrow>
     (\<forall>g. es_guard e = Some g \<longrightarrow> (\<exists>p. effective_policy g = Inr p \<and> policy_ok p))
     \<and> length (es_toolkits e) \<le> 16 \<and> (\<forall>t \<in> set (es_toolkits e). toolkit_ok t)
     \<and> length (es_layers e) \<le> 32 \<and> (\<forall>l \<in> set (es_layers e). layer_ok base64_decode sha256_hex l)
     \<and> distinct (map (\<lambda>l. (ly_kind l, ly_name l)) (es_layers e))
     \<and> workspace_ok (es_workspace e)"

lemma validate_environment_iff:
  "validate_environment base64_decode sha256_hex e = Inr u \<longleftrightarrow> environment_ok base64_decode sha256_hex e"
proof -
  have "(case es_guard e of
           Some guard \<Rightarrow> (case effective_policy guard of Inl error \<Rightarrow> Inl (InvalidPolicy error) | Inr p \<Rightarrow> Inr ())
         | None \<Rightarrow> Inr ()) = Inr ()
      \<longleftrightarrow> (\<forall>g. es_guard e = Some g \<longrightarrow> (\<exists>p. effective_policy g = Inr p \<and> policy_ok p))"
    by (auto split: option.split sum.splits intro: effective_policy_ok)
  then show ?thesis
    unfolding validate_environment_def environment_ok_def
    by (simp only: result_simps validate_layers_iff validate_workspace_iff validate_toolkit_iff)
      (auto simp: not_less)
qed

definition create_ok ::
  "(string \<Rightarrow> string option) \<Rightarrow> (string \<Rightarrow> string) \<Rightarrow> create_sandbox_request \<Rightarrow> u64 \<Rightarrow> bool" where
  "create_ok base64_decode sha256_hex req max_lifetime \<longleftrightarrow>
     cr_image req \<noteq> [] \<and> length (cr_image req) \<le> 1024
     \<and> (\<forall>c \<in> set (cr_image req). \<not> is_ascii_control c \<and> \<not> is_ascii_whitespace c)
     \<and> hd (cr_image req) \<noteq> CHR ''-''
     \<and> (\<nexists>a b. cr_image req = a @ ''..'' @ b) \<and> (\<nexists>a b. cr_image req = a @ ''://'' @ b)
     \<and> cr_cpu req \<noteq> 0 \<and> cr_cpu req \<le> 32
     \<and> 64 \<le> cr_memory_mb req \<and> cr_memory_mb req \<le> 131072
     \<and> 512 \<le> cr_disk_mb req \<and> cr_disk_mb req \<le> 1048576
     \<and> cr_timeout_seconds req \<noteq> 0 \<and> cr_timeout_seconds req \<le> max_lifetime \<and> cr_timeout_seconds req \<le> 86400
     \<and> environment_ok base64_decode sha256_hex (cr_environment req)"

lemma validate_image_iff:
  "validate_image img = Inr u \<longleftrightarrow>
     img \<noteq> [] \<and> length img \<le> 1024 \<and> (\<forall>c \<in> set img. \<not> is_ascii_control c \<and> \<not> is_ascii_whitespace c)
     \<and> hd img \<noteq> CHR ''-'' \<and> (\<nexists>a b. img = a @ ''..'' @ b) \<and> (\<nexists>a b. img = a @ ''://'' @ b)"
proof -
  have "img \<noteq> [] \<Longrightarrow> starts_with img ''-'' \<longleftrightarrow> hd img = CHR ''-''" by (cases img) (auto simp: starts_with_def)
  then show ?thesis
    unfolding validate_image_def contains_str_iff list_ex_iff
    by (cases u, simp only: if_Inl_Inr de_Morgan_disj not_less bex_simps simp_thms) blast
qed

lemma validate_create_iff:
  "validate_create base64_decode sha256_hex req max_lifetime = Inr u \<longleftrightarrow>
     create_ok base64_decode sha256_hex req max_lifetime"
  unfolding validate_create_def create_ok_def
  by (simp only: result_simps validate_image_iff validate_environment_iff MAX_VCPU_def MAX_MEMORY_MB_def
      MAX_DISK_MB_def MAX_LIFETIME_SECONDS_def de_Morgan_disj not_less min.bounded_iff conj_assoc)

section \<open>Scopes\<close>

fun scope_str :: "scope \<Rightarrow> string" where
  "scope_str SandboxesRead = ''sandboxes:read''"
| "scope_str SandboxesWrite = ''sandboxes:write''"
| "scope_str SnapshotsRead = ''snapshots:read''"
| "scope_str SnapshotsWrite = ''snapshots:write''"
| "scope_str GuardRead = ''guard:read''"
| "scope_str GuardHeartbeat = ''guard:heartbeat''"
| "scope_str GuardQuarantine = ''guard:quarantine''"
| "scope_str GuardPropose = ''guard:propose''"
| "scope_str GuardApprove = ''guard:approve''"
| "scope_str GuardRelease = ''guard:release''"
| "scope_str Admin = ''admin''"

lemma scope_parse_iff: "scope_parse v = Inr sc \<longleftrightarrow> v = scope_str sc"
proof
  assume "scope_parse v = Inr sc"
  then show "v = scope_str sc" by (auto simp: scope_parse_def split: if_splits)
next
  assume "v = scope_str sc"
  then show "scope_parse v = Inr sc" by (cases sc) (simp_all add: scope_parse_def)
qed

lemma network_round_trip:
  "network_deserialize (network_serialize p) = (if p = Restricted [] then Internet else p)"
  by (cases p) (auto simp: network_deserialize_def network_serialize_def is_enabled_def)

definition exec_ok :: "exec_request \<Rightarrow> bool" where
  "exec_ok req \<longleftrightarrow>
     ex_command req \<noteq> [] \<and> length (ex_command req) \<le> 64
     \<and> (\<forall>v \<in> set (ex_command req). v \<noteq> [] \<and> \<not> contains_nul v)
     \<and> ex_timeout_seconds req \<noteq> 0 \<and> ex_timeout_seconds req \<le> 3600
     \<and> (\<forall>v. ex_stdin req = Some v \<longrightarrow> length v \<le> 16 * 1024 * 1024)
     \<and> (\<forall>path. ex_working_directory req = Some path \<longrightarrow> (\<exists>p. safe_path path = Inr p))
     \<and> length (ex_environment req) \<le> 256 \<and> (\<forall>kv \<in> set (ex_environment req). env_var_ok kv)
     \<and> env_bytes (ex_environment req) \<le> 65536"

lemma validate_exec_iff: "validate_exec req = Inr u \<longleftrightarrow> exec_ok req"
proof -
  have wd: "(case ex_working_directory req of
      Some path \<Rightarrow> bind_r (safe_path path) (\<lambda>p. Inr ()) | None \<Rightarrow> Inr ()) = Inr ()
    \<longleftrightarrow> (\<forall>path. ex_working_directory req = Some path \<longrightarrow> (\<exists>p. safe_path path = Inr p))"
    by (simp add: bind_r_Inr split: option.split)
  have stdin: "\<not> (case ex_stdin req of Some v \<Rightarrow> MAX_FILE < length v | None \<Rightarrow> False)
    \<longleftrightarrow> (\<forall>v. ex_stdin req = Some v \<longrightarrow> length v \<le> 16 * 1024 * 1024)"
    by (simp add: MAX_FILE_def not_less split: option.split)
  show ?thesis
    unfolding validate_exec_def exec_ok_def MAX_EXEC_SECONDS_def list_ex_iff
    by (simp only: if_Inl_Inr then_r_Inr wd stdin validate_exec_environment_iff de_Morgan_disj bex_simps
        not_less conj_assoc)
qed

section \<open>Guarantees\<close>

text \<open>
  C21. \<^verbatim>\<open>safe_path\<close> accepts a path exactly when it is at most 4096 bytes, lies at or below
  \<^verbatim>\<open>/workspace\<close> and has no \<^verbatim>\<open>..\<close> component, and returns it with empty and \<^verbatim>\<open>.\<close> components removed. The
  result is \<^verbatim>\<open>/workspace\<close> followed by ordinary components only, so it cannot leave the workspace, and
  it is accepted unchanged when checked again.
\<close>

theorem safe_path_confined:
  "(safe_path raw = Inr p \<longleftrightarrow>
      length raw \<le> 4096 \<and> (raw = ''/workspace'' \<or> starts_with raw ''/workspace/'')
      \<and> ''..'' \<notin> set (split_on (CHR ''/'') raw)
      \<and> p = render_parts (filter path_part (split_on (CHR ''/'') raw)))
   \<and> (safe_path raw = Inr p \<longrightarrow> safe_path p = Inr p
      \<and> (\<exists>parts. p = ''/workspace'' @ render_parts parts
           \<and> (\<forall>x \<in> set parts. x \<noteq> [] \<and> x \<noteq> ''.'' \<and> x \<noteq> ''..'' \<and> CHR ''/'' \<notin> set x)))"
  using safe_path_iff safe_path_idem by (blast elim: safe_path_parts)

theorem safe_path_confined_witness:
  "safe_path ''/workspace//a/./b'' = Inr ''/workspace/a/b'' \<and> safe_path ''/workspace/a/b'' = Inr ''/workspace/a/b''"
proof -
  have "safe_path ''/workspace//a/./b'' = Inr ''/workspace/a/b''" by code_simp
  with safe_path_confined [of "''/workspace//a/./b''" "''/workspace/a/b''"] show ?thesis by blast
qed

text \<open>
  C29. A create request is admitted exactly when its image reference is a bounded plain reference,
  its resources and lifetime lie in their ranges, its toolkits and git workspace are bounded and carry
  no credentials in the URL, its layers are distinct and content-addressed (the decoded payload hashes
  to the declared digest), and its guard configuration, if any, yields a well-formed policy.
\<close>

theorem create_admitted_exactly:
  "validate_create base64_decode sha256_hex req max_lifetime = Inr () \<longleftrightarrow>
     create_ok base64_decode sha256_hex req max_lifetime"
  by (rule validate_create_iff)

text \<open>
  C30. An exec request is admitted exactly when its argv has 1 to 64 non-empty NUL-free words, its
  timeout is between one second and one hour, its stdin and working directory are bounded and confined,
  and its environment has at most 256 well-formed variables of at most 64 KiB together. The running
  total that the code compares after every variable decides the same as the final sum.
\<close>

theorem exec_admitted_exactly: "validate_exec req = Inr () \<longleftrightarrow> exec_ok req"
  by (rule validate_exec_iff)

text \<open>
  C28. Quota arithmetic is exact. Adding any list of sandboxes one by one with the checked 32- and
  64-bit additions succeeds and stays within the limits exactly when the true sums of sandboxes, CPUs,
  memory and disk, as unbounded numbers, are within the limits: no wrap-around admits an overcommitted
  tenant and no overflow refuses one that fits.
\<close>

theorem quota_arithmetic_exact:
  "(\<exists>u. quota_add_all no_usage sandboxes = Some u \<and> \<not> exceeds u limits)
   \<longleftrightarrow> within_quota (true_usage sandboxes) limits"
  by (rule quota_admission_iff)

text \<open>
  C31. The sandbox life cycle. From \<^verbatim>\<open>Creating\<close> every state except \<^verbatim>\<open>Restoring\<close> can be reached by allowed
  transitions; quarantine is absorbing, so no sequence of allowed transitions takes a quarantined
  sandbox anywhere else; it can be entered from every state that may still consume budget; and a
  sandbox is destroyed only from \<^verbatim>\<open>Destroying\<close>.
\<close>

theorem sandbox_life_cycle:
  "(can_transition_to\<^sup>*\<^sup>* Creating t \<longleftrightarrow> t \<noteq> Restoring)
   \<and> (can_transition_to\<^sup>*\<^sup>* Quarantined t \<longleftrightarrow> t = Quarantined)
   \<and> (consumes s \<longrightarrow> can_transition_to s Quarantined)
   \<and> (can_transition_to s Destroyed \<longleftrightarrow> s = Destroying)"
proof (intro conjI)
  show "can_transition_to\<^sup>*\<^sup>* Creating t \<longleftrightarrow> t \<noteq> Restoring" by (rule reachable_from_creating)
  show "can_transition_to\<^sup>*\<^sup>* Quarantined t \<longleftrightarrow> t = Quarantined" using quarantined_absorbing by auto
  show "consumes s \<longrightarrow> can_transition_to s Quarantined" by (auto simp: consumes_def can_transition_to_def)
  show "can_transition_to s Destroyed \<longleftrightarrow> s = Destroying" by (auto simp: can_transition_to_def)
qed

theorem sandbox_life_cycle_witness: "can_transition_to Running Quarantined \<and> \<not> can_transition_to\<^sup>*\<^sup>* Quarantined Running"
proof -
  have "consumes Running" by (simp add: consumes_def)
  with sandbox_life_cycle [of Running Running] show ?thesis by blast
qed

text \<open>
  C32. The wire form of a sandbox's network policy. Every policy is read back as written, except a
  restriction to an empty list of hosts: written as enabled with no hosts, it is read back as general
  internet access.
\<close>

theorem network_policy_wire:
  "network_deserialize (network_serialize p) = p \<longleftrightarrow> p \<noteq> Restricted []"
  by (simp add: network_round_trip)

end
