(* ===== verification/Approval_Digest.thy ===== *)
theory Approval_Digest
  imports Core_Domain
begin

text \<open>
  The digest that binds a tool approval to one call (\<^verbatim>\<open>approval_request_digest\<close> and
  \<^verbatim>\<open>canonical_json\<close> of \<^verbatim>\<open>aiec-core/src/lib.rs\<close>). A JSON value is a tree whose scalars and string
  literals are printed by \<^verbatim>\<open>serde_json\<close>, so their texts are arguments; the hash is \<^verbatim>\<open>sha2\<close>. The
  canonical text is shown to be uniquely decodable under the documented shape of those texts.
\<close>

section \<open>Canonical JSON and the digest\<close>

datatype 's json = JScalar 's | JArray "'s json list" | JObject "(string \<times> 's json) list"

function canonical_value :: "(string \<Rightarrow> string) \<Rightarrow> ('s \<Rightarrow> string) \<Rightarrow> 's json \<Rightarrow> string" where
  "canonical_value key_text scalar_text (JObject members) =
     ''{'' @ join_with '','' (map (\<lambda>(key, v). key_text key @ '':'' @ canonical_value key_text scalar_text v)
        (sort_key fst members)) @ ''}''"
| "canonical_value key_text scalar_text (JArray items) =
     ''['' @ join_with '','' (map (canonical_value key_text scalar_text) items) @ '']''"
| "canonical_value key_text scalar_text (JScalar s) = scalar_text s"
  by pat_completeness auto
termination
proof (relation "measure (\<lambda>(_, _, v). size v)", goal_cases)
  case (2 key_text scalar_text members kv k v)
  then have "(k, v) \<in> set members" by simp
  then have "size v < Suc (size_list (size_prod (\<lambda>x. 0) size) members)"
    by (induction members) auto
  then show ?case by simp
next
  case (3 key_text scalar_text items v)
  then have "size v < Suc (size_list size items)" by (induction items) auto
  then show ?case by simp
qed simp

definition approval_preimage ::
  "(string \<Rightarrow> string) \<Rightarrow> ('s \<Rightarrow> string) \<Rightarrow> string \<Rightarrow> 's json \<Rightarrow> string" where
  "approval_preimage key_text scalar_text tool arguments =
     tool @ [CHR 0x00] @ canonical_value key_text scalar_text arguments"

definition approval_request_digest ::
  "(string \<Rightarrow> string) \<Rightarrow> ('s \<Rightarrow> string) \<Rightarrow> (string \<Rightarrow> string) \<Rightarrow> string \<Rightarrow> 's json \<Rightarrow> string" where
  "approval_request_digest key_text scalar_text sha256_hex tool arguments =
     sha256_hex (approval_preimage key_text scalar_text tool arguments)"

section \<open>Normal forms\<close>

text \<open>Two argument values mean the same call when they agree up to the order of object keys.\<close>

function json_norm :: "'s json \<Rightarrow> 's json" where
  "json_norm (JObject members) = JObject (map (\<lambda>(k, v). (k, json_norm v)) (sort_key fst members))"
| "json_norm (JArray items) = JArray (map json_norm items)"
| "json_norm (JScalar s) = JScalar s"
  by pat_completeness auto
termination
proof (relation "measure size", goal_cases)
  case (2 members kv k v)
  then have "(k, v) \<in> set members" by simp
  then have "size v < Suc (size_list (size_prod (\<lambda>x. 0) size) members)"
    by (induction members) auto
  then show ?case by simp
next
  case (3 items v)
  then have "size v < Suc (size_list size items)" by (induction items) auto
  then show ?case by simp
qed simp

fun render :: "(string \<Rightarrow> string) \<Rightarrow> ('s \<Rightarrow> string) \<Rightarrow> 's json \<Rightarrow> string" where
  "render kt st (JObject members) =
     CHR ''{'' # join_with '','' (map (\<lambda>(k, v). kt k @ CHR '':'' # render kt st v) members) @ ''}''"
| "render kt st (JArray items) = CHR ''['' # join_with '','' (map (render kt st) items) @ '']''"
| "render kt st (JScalar s) = st s"

lemma canonical_render: "canonical_value kt st v = render kt st (json_norm v)"
proof (induction v rule: json_norm.induct)
  case (1 members)
  have "map (\<lambda>(k, v). kt k @ '':'' @ canonical_value kt st v) (sort_key fst members)
      = map (\<lambda>(k, v). kt k @ CHR '':'' # render kt st v)
          (map (\<lambda>(k, v). (k, json_norm v)) (sort_key fst members))"
    using 1 by (auto simp: case_prod_beta)
  then show ?case by (simp only: canonical_value.simps json_norm.simps render.simps append_Cons append_Nil)
next
  case (2 items)
  then have "map (canonical_value kt st) items = map (render kt st) (map json_norm items)" by simp
  then show ?case by (simp only: canonical_value.simps json_norm.simps render.simps append_Cons append_Nil)
qed simp

section \<open>The texts are uniquely decodable\<close>

text \<open>
  What the JSON serialiser is documented to produce: a string literal delimits itself; a scalar is
  delimited by the end of the text, a comma or a closing bracket; it does not begin with a structural
  character; and control characters are escaped, so no text contains a NUL byte.
\<close>

definition ends_value :: "string \<Rightarrow> bool" where
  "ends_value r \<longleftrightarrow> r = [] \<or> hd r \<in> {CHR '','', CHR '']'', CHR ''}''}"

definition json_text_laws :: "(string \<Rightarrow> string) \<Rightarrow> ('s \<Rightarrow> string) \<Rightarrow> bool" where
  "json_text_laws kt st \<longleftrightarrow>
     (\<forall>k k' r r'. kt k @ r = kt k' @ r' \<longrightarrow> k = k' \<and> r = r')
     \<and> (\<forall>k. \<exists>t. kt k = CHR 0x22 # t)
     \<and> (\<forall>s s' r r'. ends_value r \<longrightarrow> ends_value r' \<longrightarrow> st s @ r = st s' @ r' \<longrightarrow> s = s' \<and> r = r')
     \<and> (\<forall>s. st s \<noteq> [] \<and> hd (st s) \<notin> {CHR ''['', CHR ''{'', CHR '','', CHR '']'', CHR ''}''})
     \<and> (\<forall>k. \<not> contains_nul (kt k)) \<and> (\<forall>s. \<not> contains_nul (st s))"

definition decodable :: "('a \<Rightarrow> string) \<Rightarrow> 'a \<Rightarrow> bool" where
  "decodable f x \<longleftrightarrow>
     (\<forall>y r s. ends_value r \<longrightarrow> ends_value s \<longrightarrow> f x @ r = f y @ s \<longrightarrow> x = y \<and> r = s)"

definition opens_value :: "('a \<Rightarrow> string) \<Rightarrow> bool" where
  "opens_value f \<longleftrightarrow> (\<forall>x. f x \<noteq> [] \<and> hd (f x) \<notin> {CHR '','', CHR '']'', CHR ''}''})"

lemma decodableD:
  "decodable f x \<Longrightarrow> ends_value r \<Longrightarrow> ends_value s \<Longrightarrow> f x @ r = f y @ s \<Longrightarrow> x = y \<and> r = s"
  unfolding decodable_def by blast

lemma join_cons: "join_with '','' (w # ws) = w @ (if ws = [] then [] else CHR '','' # join_with '','' ws)"
  by (cases ws) simp_all

lemma join_decodable:
  assumes "\<forall>x \<in> set xs. decodable f x" and "opens_value f" and "c \<in> {CHR '']'', CHR ''}''}"
    and "join_with '','' (map f xs) @ c # r = join_with '','' (map f ys) @ c # s"
  shows "xs = ys \<and> r = s"
  using assms(1,4)
proof (induction xs arbitrary: ys)
  case Nil
  show ?case
  proof (cases ys)
    case (Cons y zs)
    have "hd (f y) \<noteq> c \<and> f y \<noteq> []" using assms(2,3) unfolding opens_value_def by fastforce
    with Nil.prems Cons show ?thesis by (cases "f y") (auto simp: join_cons)
  qed (use Nil in simp)
next
  case (Cons x xs)
  show ?case
  proof (cases ys)
    case Nil
    have "hd (f x) \<noteq> c \<and> f x \<noteq> []" using assms(2,3) unfolding opens_value_def by fastforce
    with Cons.prems Nil show ?thesis by (cases "f x") (auto simp: join_cons)
  next
    case (Cons y zs)
    let ?t = "\<lambda>xs r. (if xs = [] then [] else CHR '','' # join_with '','' (map f xs)) @ c # r"
    have ends: "ends_value (?t xs r)" "ends_value (?t zs s)"
      using assms(3) by (auto simp: ends_value_def)
    have "f x @ ?t xs r = f y @ ?t zs s"
      using Cons.prems Cons by (simp add: join_cons)
    with ends Cons.prems(1) have xy: "x = y" and t: "?t xs r = ?t zs s"
      using decodableD [of f x "?t xs r" "?t zs s" y] by auto
    have "c \<noteq> CHR '',''" using assms(3) by auto
    with t have "xs = [] \<longleftrightarrow> zs = []" by (auto split: if_splits)
    then have "join_with '','' (map f xs) @ c # r = join_with '','' (map f zs) @ c # s"
      using t by (auto split: if_splits)
    then have "xs = zs \<and> r = s" using Cons.prems(1) by (intro Cons.IH) simp_all
    with xy Cons show ?thesis by simp
  qed
qed

lemma json_text_lawsD:
  assumes "json_text_laws kt st"
  shows "kt k @ r = kt k' @ r' \<Longrightarrow> k = k' \<and> r = r'"
    and "\<exists>t. kt k = CHR 0x22 # t"
    and "ends_value r \<Longrightarrow> ends_value r' \<Longrightarrow> st s @ r = st s' @ r' \<Longrightarrow> s = s' \<and> r = r'"
    and "\<exists>c t. st s = c # t \<and> c \<notin> {CHR ''['', CHR ''{'', CHR '','', CHR '']'', CHR ''}''}"
proof -
  note laws = assms [unfolded json_text_laws_def]
  show "kt k @ r = kt k' @ r' \<Longrightarrow> k = k' \<and> r = r'" using laws by blast
  show "\<exists>t. kt k = CHR 0x22 # t" using laws by blast
  show "ends_value r \<Longrightarrow> ends_value r' \<Longrightarrow> st s @ r = st s' @ r' \<Longrightarrow> s = s' \<and> r = r'" using laws by blast
  have "st s \<noteq> [] \<and> hd (st s) \<notin> {CHR ''['', CHR ''{'', CHR '','', CHR '']'', CHR ''}''}" using laws by blast
  then show "\<exists>c t. st s = c # t \<and> c \<notin> {CHR ''['', CHR ''{'', CHR '','', CHR '']'', CHR ''}''}"
    by (cases "st s") auto
qed

lemma render_opens:
  assumes "json_text_laws kt st"
  shows "opens_value (render kt st)"
  unfolding opens_value_def
proof
  fix x
  show "render kt st x \<noteq> [] \<and> hd (render kt st x) \<notin> {CHR '','', CHR '']'', CHR ''}''}"
  proof (cases x)
    case (JScalar s)
    then show ?thesis using json_text_lawsD(4) [OF assms, of s] by auto
  qed simp_all
qed

lemma render_decodable:
  assumes laws: "json_text_laws kt st"
  shows "decodable (render kt st) v"
proof (induction v)
  case (JScalar x)
  show ?case unfolding decodable_def
  proof (intro allI impI)
    fix y r s assume e: "ends_value r" "ends_value s" and eq: "render kt st (JScalar x) @ r = render kt st y @ s"
    obtain c t where x: "st x = c # t" "c \<noteq> CHR ''[''" "c \<noteq> CHR ''{''"
      using json_text_lawsD(4) [OF laws, of x] by blast
    show "JScalar x = y \<and> r = s"
    proof (cases y)
      case (JScalar z)
      with eq have "st x @ r = st z @ s" by simp
      then show ?thesis using JScalar json_text_lawsD(3) [OF laws e] by blast
    qed (use eq x in simp_all)
  qed
next
  case (JArray xs)
  show ?case unfolding decodable_def
  proof (intro allI impI)
    fix y r s assume e: "ends_value r" "ends_value s" and eq: "render kt st (JArray xs) @ r = render kt st y @ s"
    show "JArray xs = y \<and> r = s"
    proof (cases y)
      case (JScalar z)
      then show ?thesis using eq json_text_lawsD(4) [OF laws, of z] by auto
    next
      case (JArray ys)
      with eq have "join_with '','' (map (render kt st) xs) @ CHR '']'' # r
          = join_with '','' (map (render kt st) ys) @ CHR '']'' # s" by simp
      then have "xs = ys \<and> r = s"
        using JArray.IH render_opens [OF laws] by (intro join_decodable [where c = "CHR '']''"]) auto
      with JArray show ?thesis by simp
    qed (use eq in simp)
  qed
next
  case (JObject xs)
  let ?f = "\<lambda>(k, v). kt k @ CHR '':'' # render kt st v"
  have opens: "opens_value ?f"
    unfolding opens_value_def
  proof
    fix kv :: "string \<times> 'a json"
    show "?f kv \<noteq> [] \<and> hd (?f kv) \<notin> {CHR '','', CHR '']'', CHR ''}''}"
      using json_text_lawsD(2) [OF laws, of "fst kv"] by (cases kv) auto
  qed
  have dec: "decodable ?f kv" if "kv \<in> set xs" for kv
    unfolding decodable_def
  proof (intro allI impI)
    fix kv' r s assume e: "ends_value r" "ends_value s" and eq: "?f kv @ r = ?f kv' @ s"
    obtain k v k' v' where kv: "kv = (k, v)" "kv' = (k', v')" by (cases kv; cases kv') blast
    have "kt k @ (CHR '':'' # render kt st v @ r) = kt k' @ (CHR '':'' # render kt st v' @ s)"
      using eq kv by simp
    then have "k = k' \<and> CHR '':'' # render kt st v @ r = CHR '':'' # render kt st v' @ s"
      by (rule json_text_lawsD(1) [OF laws])
    moreover have "decodable (render kt st) v" using JObject.IH [OF that, of v] kv by (simp add: snds.simps)
    ultimately show "kv = kv' \<and> r = s" using e kv decodableD [of "render kt st" v r s v'] by simp
  qed
  show ?case unfolding decodable_def
  proof (intro allI impI)
    fix y r s assume e: "ends_value r" "ends_value s" and eq: "render kt st (JObject xs) @ r = render kt st y @ s"
    show "JObject xs = y \<and> r = s"
    proof (cases y)
      case (JScalar z)
      then show ?thesis using eq json_text_lawsD(4) [OF laws, of z] by auto
    next
      case (JObject ys)
      with eq have "join_with '','' (map ?f xs) @ CHR ''}'' # r = join_with '','' (map ?f ys) @ CHR ''}'' # s"
        by simp
      then have "xs = ys \<and> r = s"
        using dec opens by (intro join_decodable [where c = "CHR ''}''"]) auto
      with JObject show ?thesis by simp
    qed (use eq in simp)
  qed
qed

lemma set_join: "c \<in> set (join_with sep ws) \<Longrightarrow> c \<in> set sep \<or> (\<exists>w \<in> set ws. c \<in> set w)"
  by (induction sep ws rule: join_with.induct) auto

lemma render_no_nul: "json_text_laws kt st \<Longrightarrow> CHR 0x00 \<notin> set (render kt st v)"
proof (induction v)
  case (JScalar x)
  then show ?case by (simp add: json_text_laws_def contains_nul_def)
next
  case (JArray xs)
  then show ?case by (auto dest!: set_join)
next
  case (JObject xs)
  have "CHR 0x00 \<notin> set (kt k)" for k using JObject.prems by (simp add: json_text_laws_def contains_nul_def)
  with JObject show ?case by (fastforce dest!: set_join simp: snds.simps)
qed

lemma append_last_sep_inject:
  assumes "c \<notin> set x" and "c \<notin> set y"
  shows "a @ c # x = b @ c # y \<longleftrightarrow> a = b \<and> x = y"
proof -
  have "a @ c # x = b @ c # y \<longleftrightarrow> rev x @ c # rev a = rev y @ c # rev b"
    by (metis append.assoc append_Cons append_Nil rev.simps(2) rev_append rev_rev_ident)
  also have "\<dots> \<longleftrightarrow> a = b \<and> x = y"
    using append_sep_inject [of c "rev x" "rev y"] assms by auto
  finally show ?thesis .
qed

lemma preimage_inject:
  assumes "json_text_laws kt st"
  shows "approval_preimage kt st tool args = approval_preimage kt st tool' args'
    \<longleftrightarrow> tool = tool' \<and> json_norm args = json_norm args'"
proof -
  have "render kt st v = render kt st w \<longleftrightarrow> v = w" for v w
    using decodableD [OF render_decodable [OF assms], of "[]" "[]" v w] by (auto simp: ends_value_def)
  then show ?thesis
    by (simp add: approval_preimage_def canonical_render append_last_sep_inject render_no_nul [OF assms])
qed

section \<open>Guarantee\<close>

lemma json_norm_key_order:
  assumes "distinct (map fst fs)" and "distinct (map fst gs)" and "set fs = set gs"
  shows "json_norm (JObject fs) = json_norm (JObject gs)"
proof -
  have "sort_key fst fs = sort_key fst gs"
    using assms by (intro sorted_key_unique [of fst]) (simp_all add: distinct_map_sort_key)
  then show ?thesis by simp
qed

text \<open>A concrete string literal syntax that meets the laws.\<close>

definition escape_byte :: "char \<Rightarrow> string" where
  "escape_byte c = (if c = CHR 0x22 then [CHR 0x5C, CHR 0x22] else if c = CHR 0x5C then [CHR 0x5C, CHR 0x5C]
     else if c = CHR 0x00 then [CHR 0x5C, CHR ''0''] else [c])"

definition quote_text :: "string \<Rightarrow> string" where
  "quote_text s = CHR 0x22 # concat (map escape_byte s) @ [CHR 0x22]"

lemma escape_inject:
  "escape_byte c @ x = escape_byte d @ y \<Longrightarrow> c = d \<and> x = y"
  "escape_byte c @ x \<noteq> CHR 0x22 # y"
  by (auto simp: escape_byte_def split: if_splits)

lemma quote_decode:
  "concat (map escape_byte s) @ CHR 0x22 # r = concat (map escape_byte t) @ CHR 0x22 # r' \<Longrightarrow> s = t \<and> r = r'"
proof (induction s arbitrary: t)
  case Nil
  then show ?case using escape_inject(2) [symmetric] by (cases t) simp_all
next
  case (Cons c s)
  show ?case
  proof (cases t)
    case Nil
    with Cons.prems escape_inject(2) show ?thesis by simp
  next
    case (Cons d u)
    with Cons.prems have "c = d \<and> concat (map escape_byte s) @ CHR 0x22 # r = concat (map escape_byte u) @ CHR 0x22 # r'"
      by (intro escape_inject(1)) simp
    with Cons.IH Cons show ?thesis by simp
  qed
qed

lemma quote_laws: "json_text_laws quote_text quote_text"
  unfolding json_text_laws_def
proof (intro conjI allI impI)
  have dec: "a = b \<and> r = r'" if "quote_text a @ r = quote_text b @ r'" for a b r r'
    using that quote_decode [of a r b r'] by (simp add: quote_text_def)
  show "k = k'" if "quote_text k @ r = quote_text k' @ r'" for k k' r r' using dec [OF that] by simp
  show "r = r'" if "quote_text k @ r = quote_text k' @ r'" for k k' r r' using dec [OF that] by simp
  show "k = k'" if "quote_text k @ r = quote_text k' @ r'" for k k' r r' using dec [OF that] by simp
  show "r = r'" if "quote_text k @ r = quote_text k' @ r'" for k k' r r' using dec [OF that] by simp
  have nul: "\<not> contains_nul (quote_text k)" for k
    by (auto simp: contains_nul_def quote_text_def escape_byte_def split: if_splits)
  show "\<not> contains_nul (quote_text k)" for k by (rule nul)
  show "\<not> contains_nul (quote_text k)" for k by (rule nul)
qed (simp_all add: quote_text_def)

text \<open>
  C24. A grant is bound to one call. The digest recorded for an approval is over the tool name, a NUL
  byte and the canonical text of the arguments. Two calls have the same digest exactly when they name
  the same tool with arguments equal up to the order of object keys, or when their texts are two
  different inputs on which SHA-256 collides. Reordering the members of an object does not change the
  canonical text.
\<close>

theorem approval_digest_binds_call:
  assumes "json_text_laws key_text scalar_text"
  shows "(approval_request_digest key_text scalar_text sha256_hex tool arguments
       = approval_request_digest key_text scalar_text sha256_hex tool' arguments' \<longleftrightarrow>
     tool = tool' \<and> json_norm arguments = json_norm arguments'
     \<or> approval_preimage key_text scalar_text tool arguments \<noteq> approval_preimage key_text scalar_text tool' arguments'
       \<and> sha256_hex (approval_preimage key_text scalar_text tool arguments)
         = sha256_hex (approval_preimage key_text scalar_text tool' arguments'))
   \<and> (distinct (map fst ms) \<longrightarrow> distinct (map fst ns) \<longrightarrow> set ms = set ns \<longrightarrow>
       canonical_value key_text scalar_text (JObject ms) = canonical_value key_text scalar_text (JObject ns))"
proof
  show "approval_request_digest key_text scalar_text sha256_hex tool arguments
       = approval_request_digest key_text scalar_text sha256_hex tool' arguments' \<longleftrightarrow>
     tool = tool' \<and> json_norm arguments = json_norm arguments'
     \<or> approval_preimage key_text scalar_text tool arguments \<noteq> approval_preimage key_text scalar_text tool' arguments'
       \<and> sha256_hex (approval_preimage key_text scalar_text tool arguments)
         = sha256_hex (approval_preimage key_text scalar_text tool' arguments')"
    unfolding preimage_inject [OF assms, symmetric] approval_request_digest_def by auto
  show "distinct (map fst ms) \<longrightarrow> distinct (map fst ns) \<longrightarrow> set ms = set ns \<longrightarrow>
       canonical_value key_text scalar_text (JObject ms) = canonical_value key_text scalar_text (JObject ns)"
    unfolding canonical_render by (intro impI arg_cong [where f = "render key_text scalar_text"] json_norm_key_order)
qed

theorem approval_digest_binds_call_witness:
  "json_text_laws quote_text quote_text
   \<and> approval_request_digest quote_text quote_text id ''exec'' (JScalar ''a'')
     \<noteq> approval_request_digest quote_text quote_text id ''exec'' (JScalar ''b'')
   \<and> canonical_value quote_text quote_text (JObject [(''b'', JScalar ''1''), (''a'', JScalar ''2'')])
     = canonical_value quote_text quote_text (JObject [(''a'', JScalar ''2''), (''b'', JScalar ''1'')])"
proof (intro conjI)
  note bind = approval_digest_binds_call [OF quote_laws, where sha256_hex = id]
  show "json_text_laws quote_text quote_text" by (rule quote_laws)
  show "approval_request_digest quote_text quote_text id ''exec'' (JScalar ''a'')
     \<noteq> approval_request_digest quote_text quote_text id ''exec'' (JScalar ''b'')"
    using bind [of "''exec''" "JScalar ''a''" "''exec''" "JScalar ''b''" "[]" "[]"] by simp
  show "canonical_value quote_text quote_text (JObject [(''b'', JScalar ''1''), (''a'', JScalar ''2'')])
     = canonical_value quote_text quote_text (JObject [(''a'', JScalar ''2''), (''b'', JScalar ''1'')])"
    by (rule conjunct2 [OF bind [of "[]" "JScalar []" "[]" "JScalar []"], rule_format]) auto
qed

end
