(* ===== verification/Guard_Events.thy ===== *)
theory Guard_Events
  imports Guard_Policy
begin

text \<open>
  The tamper-evident journal (\<^verbatim>\<open>aiec-guard/src/events.rs\<close>): bounded event metadata, the tagged and
  length-prefixed canonical encoding of a record, the hash chain and its verification. The text of an
  instant (\<^verbatim>\<open>chrono\<close>), the text of a UUID (\<^verbatim>\<open>uuid\<close>) and the hash (\<^verbatim>\<open>sha2\<close>, in hexadecimal) are
  third-party code and are grouped in the record \<open>texts\<close>, an argument of the definitions.
\<close>

record texts =
  rfc3339_nanos :: "instant \<Rightarrow> string"
  uuid_text :: "uuid \<Rightarrow> string"
  sha256_hex :: "string \<Rightarrow> string"

definition MAX_EVENTS :: nat where "MAX_EVENTS = 1000000"
definition MAX_REASON_BYTES :: nat where "MAX_REASON_BYTES = 256"
definition MAX_DESTINATION_BYTES :: nat where "MAX_DESTINATION_BYTES = 512"
definition MAX_POLICY_HASH_BYTES :: nat where "MAX_POLICY_HASH_BYTES = 128"

definition GENESIS_HASH :: string where
  "GENESIS_HASH = replicate 64 (CHR ''0'')"

definition CANONICAL_DOMAIN :: string where
  "CANONICAL_DOMAIN = ''aiec.guard.event.v1'' @ [CHR 0x00]"

datatype category = Dns | Network | Model | Credential | PolicyCategory | Lifecycle | QuarantineCategory

fun category_str :: "category \<Rightarrow> string" where
  "category_str Dns = ''dns''"
| "category_str Network = ''network''"
| "category_str Model = ''model''"
| "category_str Credential = ''credential''"
| "category_str PolicyCategory = ''policy''"
| "category_str Lifecycle = ''lifecycle''"
| "category_str QuarantineCategory = ''quarantine''"

datatype decision = Allow | Deny | Warn | Cut | Pause | Quarantine

fun decision_str :: "decision \<Rightarrow> string" where
  "decision_str Allow = ''allow''"
| "decision_str Deny = ''deny''"
| "decision_str Warn = ''warn''"
| "decision_str Cut = ''cut''"
| "decision_str Pause = ''pause''"
| "decision_str Quarantine = ''quarantine''"

record event_input =
  in_sandbox_id :: uuid
  in_tenant_id :: uuid
  in_policy_hash :: string
  in_category :: category
  in_decision :: decision
  in_reason :: string
  in_destination :: "string option"
  in_request_bytes :: u64
  in_response_bytes :: u64
  in_duration_ms :: u64

text \<open>
  A record inlines the fields of its metadata; \<open>ev_input\<close> groups them, as \<^verbatim>\<open>GuardEvent::input\<close> does.
\<close>

record guard_event =
  ev_timestamp :: instant
  ev_event_id :: uuid
  ev_input :: event_input
  ev_previous_hash :: string
  ev_current_hash :: string

definition bounded_metadata :: "string \<Rightarrow> string \<Rightarrow> nat \<Rightarrow> bool \<Rightarrow> guard_error + unit" where
  "bounded_metadata field v max_bytes allow_empty =
     (if v = [] then
        (if allow_empty then Inr ()
         else Inl (Denied (''event metadata field `'' @ field @ ''` must not be empty'')))
      else if max_bytes < length v
      then Inl (Denied (''event metadata field `'' @ field @ ''` exceeds '' @ show_nat max_bytes @ '' bytes''))
      else if \<not> list_all (\<lambda>byte. CHR 0x20 \<le> byte \<and> byte \<le> CHR 0x7E) v
      then Inl (Denied (''event metadata field `'' @ field
             @ ''` must be printable ASCII without control characters''))
      else Inr ())"

definition contains_whitespace :: "string \<Rightarrow> bool" where
  "contains_whitespace s \<longleftrightarrow> list_ex (contains_str s) UNICODE_WHITESPACE"

definition validate_event_input :: "event_input \<Rightarrow> guard_error + unit" where
  "validate_event_input i =
     then_r (bounded_metadata ''policy_hash'' (in_policy_hash i) MAX_POLICY_HASH_BYTES True)
     (then_r (bounded_metadata ''reason'' (in_reason i) MAX_REASON_BYTES True)
     (case in_destination i of
        Some dest \<Rightarrow>
          then_r (bounded_metadata ''destination'' dest MAX_DESTINATION_BYTES False)
            (if contains_whitespace dest
             then Inl (Denied ''event metadata field `destination` must not contain whitespace'')
             else Inr ())
      | None \<Rightarrow> Inr ()))"

definition is_sha256_hex :: "string \<Rightarrow> bool" where
  "is_sha256_hex v \<longleftrightarrow>
     length v = 64 \<and> list_all (\<lambda>b. is_ascii_digit b \<or> CHR ''a'' \<le> b \<and> b \<le> CHR ''f'') v"

section \<open>Canonical encoding\<close>

text \<open>\<^verbatim>\<open>u64::to_be_bytes\<close>: the \<open>k\<close> low-order bytes of a number, most significant first.\<close>

fun be_bytes :: "nat \<Rightarrow> nat \<Rightarrow> string" where
  "be_bytes 0 n = []"
| "be_bytes (Suc k) n = be_bytes k (n div 256) @ [char_of (n mod 256)]"

definition push_bytes :: "string \<Rightarrow> string" where
  "push_bytes bytes = be_bytes 8 (length bytes) @ bytes"

definition push_str_field :: "nat \<Rightarrow> string \<Rightarrow> string" where
  "push_str_field tag v = char_of tag # push_bytes v"

definition push_u64_field :: "nat \<Rightarrow> u64 \<Rightarrow> string" where
  "push_u64_field tag v = char_of tag # push_bytes (show_nat (unat v))"

definition push_option_field :: "nat \<Rightarrow> string option \<Rightarrow> string" where
  "push_option_field tag v =
     char_of tag # (case v of Some s \<Rightarrow> CHR 0x01 # push_bytes s | None \<Rightarrow> [CHR 0x00])"

definition canonical_bytes :: "texts \<Rightarrow> guard_event \<Rightarrow> string" where
  "canonical_bytes tx e =
     CANONICAL_DOMAIN
     @ push_str_field 1 (rfc3339_nanos tx (ev_timestamp e))
     @ push_str_field 2 (uuid_text tx (ev_event_id e))
     @ push_str_field 3 (uuid_text tx (in_sandbox_id (ev_input e)))
     @ push_str_field 4 (uuid_text tx (in_tenant_id (ev_input e)))
     @ push_str_field 5 (in_policy_hash (ev_input e))
     @ push_str_field 6 (category_str (in_category (ev_input e)))
     @ push_str_field 7 (decision_str (in_decision (ev_input e)))
     @ push_str_field 8 (in_reason (ev_input e))
     @ push_option_field 9 (in_destination (ev_input e))
     @ push_u64_field 10 (in_request_bytes (ev_input e))
     @ push_u64_field 11 (in_response_bytes (ev_input e))
     @ push_u64_field 12 (in_duration_ms (ev_input e))
     @ push_str_field 13 (ev_previous_hash e)"

definition compute_hash :: "texts \<Rightarrow> guard_event \<Rightarrow> string" where
  "compute_hash tx e = sha256_hex tx (canonical_bytes tx e)"

section \<open>Records and chains\<close>

definition new_event ::
  "texts \<Rightarrow> instant \<Rightarrow> uuid \<Rightarrow> event_input \<Rightarrow> string \<Rightarrow> guard_error + guard_event" where
  "new_event tx timestamp event_id i previous_hash =
     then_r (validate_event_input i)
     (if \<not> is_sha256_hex previous_hash
      then Inl (Integrity ''previous_hash is not a sha-256 hex digest'')
      else
        let event = \<lparr>ev_timestamp = timestamp, ev_event_id = event_id, ev_input = i,
              ev_previous_hash = previous_hash, ev_current_hash = []\<rparr>
        in Inr (event\<lparr>ev_current_hash := compute_hash tx event\<rparr>))"

definition verify_self_hash :: "texts \<Rightarrow> guard_event \<Rightarrow> guard_error + unit" where
  "verify_self_hash tx e =
     (if ev_current_hash e \<noteq> compute_hash tx e
      then Inl (Integrity (''record '' @ uuid_text tx (ev_event_id e) @ '' does not hash to its current_hash''))
      else Inr ())"

definition verify_bounds :: "texts \<Rightarrow> guard_event \<Rightarrow> guard_error + unit" where
  "verify_bounds tx e =
     then_r (validate_event_input (ev_input e))
     (if \<not> is_sha256_hex (ev_previous_hash e) \<or> \<not> is_sha256_hex (ev_current_hash e)
      then Inl (Integrity (''record '' @ uuid_text tx (ev_event_id e) @ '' has a malformed chain hash''))
      else Inr ())"

text \<open>The loop of \<^verbatim>\<open>verify_chain\<close>, from a record number and an expected previous hash.\<close>

fun verify_chain_from :: "texts \<Rightarrow> nat \<Rightarrow> string \<Rightarrow> guard_event list \<Rightarrow> guard_error + unit" where
  "verify_chain_from tx index expected [] = Inr ()"
| "verify_chain_from tx index expected (event # events) =
     (if ev_previous_hash event \<noteq> expected
      then Inl (Integrity (''record '' @ show_nat (index + 1) @ '' chains to '' @ ev_previous_hash event
             @ '' but the previous record hashes to '' @ expected))
      else
        then_r (verify_self_hash tx event)
          (verify_chain_from tx (index + 1) (ev_current_hash event) events))"

definition verify_chain :: "texts \<Rightarrow> guard_event list \<Rightarrow> guard_error + unit" where
  "verify_chain tx events =
     (if MAX_EVENTS < length events
      then Inl (Integrity (''journal holds '' @ show_nat (length events)
             @ '' records, replay bound is '' @ show_nat MAX_EVENTS))
      else verify_chain_from tx 0 GENESIS_HASH events)"

section \<open>The encoding is injective\<close>

lemma length_be_bytes [simp]: "length (be_bytes k n) = k"
  by (induction k arbitrary: n) auto

lemma be_bytes_inject: "be_bytes k m = be_bytes k n \<Longrightarrow> m < 256 ^ k \<Longrightarrow> n < 256 ^ k \<Longrightarrow> m = n"
proof (induction k arbitrary: m n)
  case (Suc k)
  have "m div 256 < 256 ^ k" "n div 256 < 256 ^ k"
    using Suc.prems by (simp_all add: less_mult_imp_div_less mult.commute)
  then have "m div 256 = n div 256" using Suc.IH Suc.prems(1) by simp
  moreover have "(of_char (char_of (m mod 256)) :: nat) = of_char (char_of (n mod 256))"
    using Suc.prems(1) by simp
  then have "m mod 256 = n mod 256" by simp
  ultimately show ?case by (metis div_mult_mod_eq)
qed simp

definition fits :: "string \<Rightarrow> bool" where
  "fits s \<longleftrightarrow> length s < 2 ^ 64"

lemma push_bytes_inject:
  assumes "fits a" and "fits b" and "push_bytes a @ r = push_bytes b @ s"
  shows "a = b \<and> r = s"
proof -
  have eq: "be_bytes 8 (length a) @ a @ r = be_bytes 8 (length b) @ b @ s"
    using assms(3) by (simp add: push_bytes_def)
  then have "be_bytes 8 (length a) = be_bytes 8 (length b)" by simp
  then have "length a = length b"
    using assms(1,2) be_bytes_inject [of 8 "length a" "length b"] by (simp add: fits_def)
  with eq show ?thesis by simp
qed

lemma push_str_field_inject:
  "fits a \<Longrightarrow> fits b \<Longrightarrow> push_str_field t a @ r = push_str_field t b @ s \<Longrightarrow> a = b \<and> r = s"
  using push_bytes_inject [of a b r s] by (simp add: push_str_field_def)

lemma length_show_nat: "n < 10 ^ Suc k \<Longrightarrow> length (show_nat n) \<le> Suc k"
proof (induction k arbitrary: n)
  case 0
  then show ?case by (simp add: show_nat.simps [of n])
next
  case (Suc k)
  show ?case
  proof (cases "n < 10")
    case False
    have "n div 10 < 10 ^ Suc k" using Suc.prems by (simp add: less_mult_imp_div_less)
    then have "length (show_nat (n div 10)) \<le> Suc k" by (rule Suc.IH)
    with False show ?thesis by (simp add: show_nat.simps [of n])
  qed (simp add: show_nat.simps [of n])
qed

lemma show_nat_fits: "n < 2 ^ 64 \<Longrightarrow> fits (show_nat n)"
  using length_show_nat [of n 20] by (simp add: fits_def)

lemma push_u64_field_inject:
  assumes "push_u64_field t a @ r = push_u64_field t b @ s"
  shows "a = b \<and> r = s"
proof -
  have f: "fits (show_nat (unat x))" for x :: u64
    by (rule show_nat_fits, rule order.strict_trans2 [OF unsigned_less]) simp
  have "push_bytes (show_nat (unat a)) @ r = push_bytes (show_nat (unat b)) @ s"
    using assms by (simp add: push_u64_field_def)
  then show ?thesis
    using push_bytes_inject [OF f f] by (simp add: show_nat_inject word_unat_eq_iff)
qed

lemma push_option_field_inject:
  assumes "\<forall>x. a = Some x \<longrightarrow> fits x" and "\<forall>x. b = Some x \<longrightarrow> fits x"
    and "push_option_field t a @ r = push_option_field t b @ s"
  shows "a = b \<and> r = s"
proof (cases a)
  case None
  with assms(3) show ?thesis by (cases b) (simp_all add: push_option_field_def)
next
  case (Some x)
  with assms(3) obtain y where b: "b = Some y" by (cases b) (simp_all add: push_option_field_def)
  have "push_bytes x @ r = push_bytes y @ s" using assms(3) by (simp add: Some b push_option_field_def)
  then show ?thesis using push_bytes_inject [of x y r s] assms(1,2) by (simp add: Some b)
qed

lemma category_str_inject: "category_str a = category_str b \<longleftrightarrow> a = b"
  by (cases a; cases b) simp_all

lemma decision_str_inject: "decision_str a = decision_str b \<longleftrightarrow> a = b"
  by (cases a; cases b) simp_all

text \<open>
  What the third-party texts are documented to be: the RFC 3339 text with nanoseconds and the
  hyphenated UUID text identify their value, and the latter has 36 bytes.
\<close>

definition texts_ok :: "texts \<Rightarrow> bool" where
  "texts_ok tx \<longleftrightarrow> inj (rfc3339_nanos tx) \<and> inj (uuid_text tx)
     \<and> (\<forall>u. length (uuid_text tx u) \<le> 36)"

text \<open>Every string of the record has a length that fits the 64-bit length prefix.\<close>

definition event_fits :: "texts \<Rightarrow> guard_event \<Rightarrow> bool" where
  "event_fits tx e \<longleftrightarrow> fits (rfc3339_nanos tx (ev_timestamp e)) \<and> fits (in_policy_hash (ev_input e)) \<and> fits (in_reason (ev_input e))
     \<and> (\<forall>d. in_destination (ev_input e) = Some d \<longrightarrow> fits d) \<and> fits (ev_previous_hash e)"

lemma fits_short: "length s \<le> 1000 \<Longrightarrow> fits s"
  by (simp add: fits_def)

lemma canonical_bytes_inject:
  assumes tx: "texts_ok tx" and e: "event_fits tx e" and f: "event_fits tx f"
    and eq: "canonical_bytes tx e = canonical_bytes tx f"
  shows "e\<lparr>ev_current_hash := h\<rparr> = f\<lparr>ev_current_hash := h\<rparr>"
proof -
  have short: "fits (uuid_text tx u)" "fits (category_str c)" "fits (decision_str d)" for u c d
  proof -
    have "length (uuid_text tx u) \<le> 36" using tx by (simp add: texts_ok_def)
    then show "fits (uuid_text tx u)" by (auto intro: fits_short)
    show "fits (category_str c)" "fits (decision_str d)" by (cases c; simp add: fits_def) (cases d; simp add: fits_def)
  qed
  have fe: "fits (in_policy_hash (ev_input e))" "fits (in_reason (ev_input e))"
      "\<forall>d. in_destination (ev_input e) = Some d \<longrightarrow> fits d" "fits (ev_previous_hash e)"
      "fits (rfc3339_nanos tx (ev_timestamp e))"
    and ff: "fits (in_policy_hash (ev_input f))" "fits (in_reason (ev_input f))"
      "\<forall>d. in_destination (ev_input f) = Some d \<longrightarrow> fits d" "fits (ev_previous_hash f)"
      "fits (rfc3339_nanos tx (ev_timestamp f))"
    using e f by (simp_all add: event_fits_def)
  note s1 = push_str_field_inject [OF fe(5) ff(5) eq [unfolded canonical_bytes_def same_append_eq]]
  note s2 = push_str_field_inject [OF short(1) short(1) conjunct2 [OF s1]]
  note s3 = push_str_field_inject [OF short(1) short(1) conjunct2 [OF s2]]
  note s4 = push_str_field_inject [OF short(1) short(1) conjunct2 [OF s3]]
  note s5 = push_str_field_inject [OF fe(1) ff(1) conjunct2 [OF s4]]
  note s6 = push_str_field_inject [OF short(2) short(2) conjunct2 [OF s5]]
  note s7 = push_str_field_inject [OF short(3) short(3) conjunct2 [OF s6]]
  note s8 = push_str_field_inject [OF fe(2) ff(2) conjunct2 [OF s7]]
  note s9 = push_option_field_inject [OF fe(3) ff(3) conjunct2 [OF s8]]
  note s10 = push_u64_field_inject [OF conjunct2 [OF s9]]
  note s11 = push_u64_field_inject [OF conjunct2 [OF s10]]
  note s12 = push_u64_field_inject [OF conjunct2 [OF s11]]
  have s13: "ev_previous_hash e = ev_previous_hash f"
    using push_str_field_inject [OF fe(4) ff(4), of 13 "[]" "[]"] conjunct2 [OF s12] by simp
  have "ev_timestamp e = ev_timestamp f" "ev_event_id e = ev_event_id f"
    "in_sandbox_id (ev_input e) = in_sandbox_id (ev_input f)"
    "in_tenant_id (ev_input e) = in_tenant_id (ev_input f)"
    using tx s1 s2 s3 s4 by (auto simp: texts_ok_def dest: injD)
  moreover have "ev_input e = ev_input f"
    using calculation s5 s6 s7 s8 s9 s10 s11 s12
    by (intro event_input.equality) (simp_all add: category_str_inject decision_str_inject)
  ultimately show ?thesis using s13 by (cases e, cases f) simp
qed

section \<open>Chains\<close>

definition head_of :: "string \<Rightarrow> guard_event list \<Rightarrow> string" where
  "head_of start events = (if events = [] then start else ev_current_hash (last events))"

text \<open>The chain condition of the verification loop, on whole lists.\<close>

definition chained :: "texts \<Rightarrow> string \<Rightarrow> guard_event list \<Rightarrow> bool" where
  "chained tx start events \<longleftrightarrow>
     (\<forall>i < length events. ev_current_hash (events ! i) = compute_hash tx (events ! i)
        \<and> ev_previous_hash (events ! i) = head_of start (take i events))"

lemma chained_Cons:
  "chained tx start (e # es) \<longleftrightarrow>
     ev_previous_hash e = start \<and> ev_current_hash e = compute_hash tx e \<and> chained tx (ev_current_hash e) es"
proof -
  have "head_of start (take (Suc i) (e # es)) = head_of (ev_current_hash e) (take i es)" if "i < length es" for i
    using that by (cases "take i es") (auto simp: head_of_def)
  then show ?thesis
    unfolding chained_def length_Cons All_less_Suc2 by (auto simp: head_of_def [of start "[]"])
qed

lemma chained_Nil [simp]: "chained tx start []"
  by (simp add: chained_def)

lemma verify_chain_from_iff: "verify_chain_from tx n start es = Inr u \<longleftrightarrow> chained tx start es"
  by (induction es arbitrary: n start)
    (auto simp: chained_Cons result_simps verify_self_hash_def split: if_splits)

lemma chained_snoc:
  "chained tx start (es @ [e]) \<longleftrightarrow>
     chained tx start es \<and> ev_previous_hash e = head_of start es \<and> ev_current_hash e = compute_hash tx e"
  by (induction es arbitrary: start) (auto simp: chained_Cons head_of_def)

text \<open>A collision: two different inputs with the same hash.\<close>

definition hash_collision :: "texts \<Rightarrow> bool" where
  "hash_collision tx \<longleftrightarrow> (\<exists>x y. x \<noteq> y \<and> sha256_hex tx x = sha256_hex tx y)"

lemma same_head_same_chain:
  assumes tx: "texts_ok tx"
    and "chained tx start es" and "chained tx start fs"
    and "\<forall>e \<in> set es. event_fits tx e" and "\<forall>f \<in> set fs. event_fits tx f"
    and "head_of start es = head_of start fs"
  shows "es = fs
    \<or> (\<exists>e \<in> set es. \<exists>f \<in> set fs. canonical_bytes tx e \<noteq> canonical_bytes tx f \<and> compute_hash tx e = compute_hash tx f)
    \<or> (\<exists>e \<in> set es \<union> set fs. compute_hash tx e = start)"
  using assms(2-)
proof (induction es arbitrary: fs rule: rev_induct)
  case Nil
  show ?case
  proof (cases fs rule: rev_cases)
    case (snoc gs g)
    with Nil.prems have "compute_hash tx g = start" by (auto simp: chained_snoc head_of_def)
    with snoc show ?thesis by auto
  qed simp
next
  case (snoc e es)
  show ?case
  proof (cases fs rule: rev_cases)
    case Nil
    with snoc.prems have "compute_hash tx e = start" by (auto simp: chained_snoc head_of_def)
    then show ?thesis by auto
  next
    case fs: (snoc gs g)
    have self: "ev_current_hash e = compute_hash tx e" "ev_current_hash g = compute_hash tx g"
      and same: "compute_hash tx e = compute_hash tx g"
      using snoc.prems fs by (auto simp: chained_snoc head_of_def)
    show ?thesis
    proof (cases "canonical_bytes tx e = canonical_bytes tx g")
      case False
      with same fs show ?thesis by auto
    next
      case True
      then have "e\<lparr>ev_current_hash := []\<rparr> = g\<lparr>ev_current_hash := []\<rparr>"
        using snoc.prems fs by (intro canonical_bytes_inject [OF tx]) auto
      then have eg: "e = g" using self same by (cases e; cases g) simp
      then have "head_of start es = head_of start gs" using snoc.prems fs by (auto simp: chained_snoc)
      then have "es = gs
        \<or> (\<exists>e \<in> set es. \<exists>f \<in> set gs. canonical_bytes tx e \<noteq> canonical_bytes tx f \<and> compute_hash tx e = compute_hash tx f)
        \<or> (\<exists>e \<in> set es \<union> set gs. compute_hash tx e = start)"
        using snoc.prems fs by (intro snoc.IH) (auto simp: chained_snoc)
      with eg fs show ?thesis by auto
    qed
  qed
qed

lemma verify_chain_iff:
  "verify_chain tx es = Inr u \<longleftrightarrow> length es \<le> 1000000 \<and> chained tx GENESIS_HASH es"
  by (auto simp: verify_chain_def MAX_EVENTS_def verify_chain_from_iff)

lemma new_event_Inr:
  "new_event tx t i inp prev = Inr e \<longleftrightarrow>
     validate_event_input inp = Inr () \<and> is_sha256_hex prev
     \<and> ev_timestamp e = t \<and> ev_event_id e = i \<and> ev_input e = inp \<and> ev_previous_hash e = prev
     \<and> ev_current_hash e = compute_hash tx e"
proof -
  have "compute_hash tx (x\<lparr>ev_current_hash := h\<rparr>) = compute_hash tx x" for x h
    by (simp add: compute_hash_def canonical_bytes_def)
  then show ?thesis
    by (cases e) (auto simp: new_event_def result_simps Let_def compute_hash_def canonical_bytes_def)
qed

lemma genesis_is_hash: "is_sha256_hex GENESIS_HASH"
  by code_simp

lemma head_is_hash:
  assumes "\<forall>x. is_sha256_hex (sha256_hex tx x)" and "chained tx GENESIS_HASH es"
  shows "is_sha256_hex (head_of GENESIS_HASH es)"
  using assms genesis_is_hash by (cases es rule: rev_cases) (auto simp: head_of_def chained_snoc compute_hash_def)

section \<open>Guarantees\<close>

definition sample_texts :: "(string \<Rightarrow> string) \<Rightarrow> texts" where
  "sample_texts h = \<lparr>rfc3339_nanos = (\<lambda>t. (if t < 0 then CHR ''-'' else CHR ''+'') # show_nat (nat \<bar>t\<bar>)),
     uuid_text = (\<lambda>u. be_bytes 16 (unat u)), sha256_hex = h\<rparr>"

definition sample_input :: "string \<Rightarrow> event_input" where
  "sample_input reason = \<lparr>in_sandbox_id = 1, in_tenant_id = 2, in_policy_hash = [], in_category = Dns,
     in_decision = Deny, in_reason = reason, in_destination = None, in_request_bytes = 0,
     in_response_bytes = 0, in_duration_ms = 0\<rparr>"

definition sample_event :: "(string \<Rightarrow> string) \<Rightarrow> string \<Rightarrow> string \<Rightarrow> guard_event" where
  "sample_event h prev reason =
     (let e = \<lparr>ev_timestamp = 0, ev_event_id = 3, ev_input = sample_input reason, ev_previous_hash = prev,
            ev_current_hash = []\<rparr>
      in e\<lparr>ev_current_hash := compute_hash (sample_texts h) e\<rparr>)"

lemma sample_texts_ok: "texts_ok (sample_texts h)"
proof -
  have "inj (\<lambda>t :: int. (if t < 0 then CHR ''-'' else CHR ''+'') # show_nat (nat \<bar>t\<bar>))"
    by (rule injI) (auto simp: show_nat_inject split: if_splits)
  moreover have "inj (\<lambda>u :: uuid. be_bytes 16 (unat u))"
  proof (rule injI)
    fix u v :: uuid
    have b: "unat x < 256 ^ 16" for x :: uuid by (rule order.strict_trans2 [OF unsigned_less]) simp
    assume "be_bytes 16 (unat u) = be_bytes 16 (unat v)"
    then have "unat u = unat v" using be_bytes_inject [OF _ b b] by blast
    then show "u = v" by (simp add: word_unat_eq_iff)
  qed
  ultimately show ?thesis by (simp add: texts_ok_def sample_texts_def)
qed

text \<open>
  C9. The head of a verified journal determines the whole journal. Two journals that verify from the
  genesis hash and end in the same hash are equal record by record, or they exhibit two records whose
  canonical encodings differ but have the same SHA-256 hash, or a record that hashes to the all-zero
  genesis value. So against an anchored head no record can be altered, reordered, inserted, dropped
  or cut off the tail without breaking the hash.
\<close>

theorem journal_head_determines_journal:
  assumes "texts_ok tx" and "verify_chain tx es = Inr ()" and "verify_chain tx fs = Inr ()"
    and "\<forall>e \<in> set es \<union> set fs. event_fits tx e"
    and "head_of GENESIS_HASH es = head_of GENESIS_HASH fs"
  shows "es = fs
    \<or> (\<exists>e \<in> set es. \<exists>f \<in> set fs. canonical_bytes tx e \<noteq> canonical_bytes tx f \<and> compute_hash tx e = compute_hash tx f)
    \<or> (\<exists>e \<in> set es \<union> set fs. compute_hash tx e = GENESIS_HASH)"
  using assms by (intro same_head_same_chain) (simp_all add: verify_chain_iff)

theorem journal_head_determines_journal_witness:
  "let h = (\<lambda>x. ''h''); tx = sample_texts h;
       e = sample_event h GENESIS_HASH ''a''; f = sample_event h GENESIS_HASH ''b''
   in verify_chain tx [e] = Inr () \<and> verify_chain tx [f] = Inr ()
      \<and> canonical_bytes tx e \<noteq> canonical_bytes tx f \<and> compute_hash tx e = compute_hash tx f"
proof -
  let ?h = "\<lambda>x :: string. ''h''"
  let ?e = "sample_event ?h GENESIS_HASH ''a''" and ?f = "sample_event ?h GENESIS_HASH ''b''"
  let ?tx = "sample_texts ?h"
  have v: "verify_chain ?tx [?e] = Inr ()" "verify_chain ?tx [?f] = Inr ()"
    by (simp_all add: verify_chain_iff chained_Cons sample_event_def Let_def compute_hash_def sample_texts_def)
  have fit: "\<forall>e \<in> set [?e] \<union> set [?f]. event_fits ?tx e"
    by (simp add: event_fits_def sample_event_def sample_input_def sample_texts_def Let_def GENESIS_HASH_def
        fits_def show_nat.simps [of 0])
  have hd: "head_of GENESIS_HASH [?e] = head_of GENESIS_HASH [?f]"
    by (simp add: head_of_def sample_event_def Let_def compute_hash_def sample_texts_def)
  have g: "''h'' \<noteq> GENESIS_HASH" by code_simp
  have ne: "?e \<noteq> ?f" "compute_hash ?tx ?e \<noteq> GENESIS_HASH" "compute_hash ?tx ?f \<noteq> GENESIS_HASH"
    by (simp_all add: sample_event_def sample_input_def Let_def compute_hash_def sample_texts_def g)
  show ?thesis
    using journal_head_determines_journal [OF sample_texts_ok v fit hd] v ne by (simp add: Let_def)
qed

text \<open>
  C23. Appending keeps a journal verifiable. When the journal verifies and is below the replay bound,
  the record built from valid metadata on top of its head exists, carries that metadata, is within the
  record bounds, and the extended journal verifies.
\<close>

theorem journal_append_verifies:
  assumes "\<forall>x. is_sha256_hex (sha256_hex tx x)" and "verify_chain tx es = Inr ()"
    and "length es < MAX_EVENTS" and "validate_event_input i = Inr ()"
  shows "\<exists>e. new_event tx t event_id i (head_of GENESIS_HASH es) = Inr e \<and> ev_input e = i
    \<and> verify_bounds tx e = Inr () \<and> verify_chain tx (es @ [e]) = Inr ()"
proof -
  have ch: "chained tx GENESIS_HASH es" "Suc (length es) \<le> 1000000"
    using assms(2,3) by (simp_all add: verify_chain_iff MAX_EVENTS_def)
  then have head: "is_sha256_hex (head_of GENESIS_HASH es)" using assms(1) by (intro head_is_hash)
  with assms(4) obtain e where e: "new_event tx t event_id i (head_of GENESIS_HASH es) = Inr e"
    by (auto simp: new_event_def Let_def)
  then have "ev_input e = i" "ev_previous_hash e = head_of GENESIS_HASH es" "ev_current_hash e = compute_hash tx e"
    by (simp_all add: new_event_Inr)
  with e ch head assms show ?thesis
    by (intro exI [of _ e]) (simp add: verify_bounds_def result_simps compute_hash_def verify_chain_iff chained_snoc)
qed

theorem journal_append_verifies_witness:
  "\<exists>e. verify_chain (sample_texts (\<lambda>x. GENESIS_HASH)) [e] = Inr () \<and> ev_input e = sample_input ''a''"
proof -
  let ?tx = "sample_texts (\<lambda>x. GENESIS_HASH)"
  have "\<forall>x. is_sha256_hex (sha256_hex ?tx x)" using genesis_is_hash by (simp add: sample_texts_def)
  moreover have "verify_chain ?tx [] = Inr ()" by (simp add: verify_chain_iff)
  moreover have "length ([] :: guard_event list) < MAX_EVENTS" by (simp add: MAX_EVENTS_def)
  moreover have "validate_event_input (sample_input ''a'') = Inr ()" by code_simp
  ultimately show ?thesis
    using journal_append_verifies [of ?tx "[]" "sample_input ''a''" 0 0] by auto
qed

end
