(* ===== verification/Guard_Control.thy ===== *)
theory Guard_Control
  imports Guard_Events
begin

text \<open>
  The messages and durable records the control plane and the Guard exchange
  (\<^verbatim>\<open>aiec-guard/src/control.rs\<close>) and the data of policy proposals
  (\<^verbatim>\<open>aiec-guard/src/proposals.rs\<close>). An \<^verbatim>\<open>i64\<close> fencing generation is an integer; where the code
  adds to it the overflow check is written out.
\<close>

record guard_identity =
  gi_sandbox_id :: uuid
  gi_tenant_id :: uuid
  gi_policy_hash :: string

record guard_fence =
  gf_lease_id :: uuid
  gf_generation :: int

record guard_budget_state =
  gb_identity :: guard_identity
  gb_expires_at :: instant
  gb_max_model_requests :: u64
  gb_max_bytes_in :: u64
  gb_max_bytes_out :: u64
  gb_model_requests :: u64
  gb_bytes_in :: u64
  gb_bytes_out :: u64
  gb_quarantined :: bool

record budget_debit =
  bd_model_requests :: u64
  bd_bytes_in :: u64
  bd_bytes_out :: u64

record rule_trigger =
  rt_rule :: string
  rt_first_event_sequence :: "u64 option"
  rt_evidence_references :: "string list"

record guard_incident =
  ic_id :: uuid
  ic_identity :: guard_identity
  ic_fence :: guard_fence
  ic_rules :: "rule_trigger list"
  ic_triggered_at :: instant
  ic_network_cut_at :: "instant option"
  ic_paused_at :: "instant option"
  ic_snapshot_id :: "string option"
  ic_completed_at :: "instant option"
  ic_events :: "guard_event list"
  ic_event_start_sequence :: u64
  ic_event_previous_hash :: string
  ic_event_sequence :: u64
  ic_event_head :: string
  ic_errors :: "string list"
  ic_notified_at :: "instant option"
  ic_report :: string

section \<open>Proposals\<close>

record egress_grant =
  eg_host :: string
  eg_port :: u16
  eg_methods :: "string list"
  eg_paths :: "string list"

record proposal_request =
  pq_summary :: string
  pq_allow :: "egress_grant list"

datatype proposal_state =
    ProposalPending
  | Approved (approved_hash: string)
  | ProposalDenied (denied_note: string)
  | Refused (refused_reason: string)

end
