(* ===== verification/Paging.thy ===== *)
theory Paging
  imports Prelude
begin

text \<open>
  Keyset pagination. Every tenant-scoped history of the metadata store (sandboxes,
  snapshots, Guard proposals and tool approvals) is listed newest first on the tuple
  \<open>(created_at, id)\<close>, and a page carries the cursor of its last row. This theory holds the
  shared \<open>page\<close> helper (\<open>aiec-storage/src/lib.rs\<close>), the cursor and the clamp of the page
  size, and the interface \<open>keyset_listing\<close>: an operation that serves such pages. Inside
  the interface it is proved once that a caller who follows the cursors sees every row,
  once, in order, and that the walk ends.
\<close>

record page_cursor =
  cur_created_at :: instant
  cur_id :: uuid

definition MAX_HISTORY_PAGE :: u32 where
  "MAX_HISTORY_PAGE = 200"

definition clamp_page :: "u32 \<Rightarrow> nat" where
  "clamp_page limit = unat (max 1 (min limit MAX_HISTORY_PAGE))"

definition page :: "'a list \<Rightarrow> nat \<Rightarrow> ('a \<Rightarrow> instant \<times> uuid) \<Rightarrow> 'a list \<times> page_cursor option" where
  "page ordered limit key =
     (let more = limit < length ordered;
          kept = take limit ordered;
          next = (if more \<and> kept \<noteq> []
                  then (let (created_at, id) = key (last kept)
                        in Some \<lparr>cur_created_at = created_at, cur_id = id\<rparr>)
                  else None)
      in (kept, next))"

definition after_cursor :: "page_cursor option \<Rightarrow> instant \<times> uuid \<Rightarrow> bool" where
  "after_cursor after k = (case after of None \<Rightarrow> True | Some c \<Rightarrow> k < (cur_created_at c, cur_id c))"

text \<open>The stable descending sort \<open>sort_by(|a, b| b.key.cmp(&a.key))\<close>.\<close>

definition sort_newest_first :: "('a \<Rightarrow> 'k::linorder) \<Rightarrow> 'a list \<Rightarrow> 'a list" where
  "sort_newest_first key xs = rev (sort_key key (rev xs))"

definition list_page ::
  "('a \<Rightarrow> instant \<times> uuid) \<Rightarrow> 'a list \<Rightarrow> nat \<Rightarrow> page_cursor option \<Rightarrow> 'a list \<times> page_cursor option" where
  "list_page key rows limit after =
     page (sort_newest_first key (filter (\<lambda>r. after_cursor after (key r)) rows)) limit key"

text \<open>A caller that reads page after page until no cursor is returned.\<close>

fun walk_pages ::
  "nat \<Rightarrow> (page_cursor option \<Rightarrow> 'a list \<times> page_cursor option) \<Rightarrow> page_cursor option \<Rightarrow> 'a list option" where
  "walk_pages 0 fetch after = None"
| "walk_pages (Suc fuel) fetch after =
     (case fetch after of
        (rows, None) \<Rightarrow> Some rows
      | (rows, Some c) \<Rightarrow> map_option ((@) rows) (walk_pages fuel fetch (Some c)))"

lemma clamp_page_bounds: "1 \<le> clamp_page limit" "clamp_page limit \<le> 200"
proof -
  have "1 \<le> max 1 (min limit MAX_HISTORY_PAGE)" by simp
  then have "unat (1 :: u32) \<le> clamp_page limit"
    unfolding clamp_page_def by (rule word_le_nat_alt [THEN iffD1])
  then show "1 \<le> clamp_page limit" by simp
  have "max 1 (min limit MAX_HISTORY_PAGE) \<le> MAX_HISTORY_PAGE"
    by (auto simp: MAX_HISTORY_PAGE_def)
  then have "clamp_page limit \<le> unat MAX_HISTORY_PAGE"
    unfolding clamp_page_def by (rule word_le_nat_alt [THEN iffD1])
  then show "clamp_page limit \<le> 200" by (simp add: MAX_HISTORY_PAGE_def)
qed

lemma set_sort_newest_first [simp]: "set (sort_newest_first key xs) = set xs"
  by (simp add: sort_newest_first_def)

lemma length_sort_newest_first [simp]: "length (sort_newest_first key xs) = length xs"
  by (simp add: sort_newest_first_def)

lemma filter_sort_newest_first:
  "sort_newest_first key (filter P xs) = filter P (sort_newest_first key xs)"
  by (simp add: sort_newest_first_def filter_sort flip: rev_filter)

lemma sort_newest_first_descending:
  assumes "distinct (map key xs)"
  shows "sorted_wrt (\<lambda>a b. key b < key a) (sort_newest_first key xs)"
proof -
  let ?ys = "sort_key key (rev xs)"
  have "distinct (map key ?ys)" using assms by (simp add: distinct_map)
  moreover have "sorted (map key ?ys)" by simp
  ultimately have "sorted_wrt (<) (map key ?ys)" by (simp add: strict_sorted_iff)
  then show ?thesis by (simp add: sort_newest_first_def sorted_wrt_map sorted_wrt_rev)
qed

lemma filter_after_last:
  assumes "sorted_wrt (\<lambda>a b. (key b :: 'k::linorder) < key a) (pre @ post)" and "pre \<noteq> []"
  shows "filter (\<lambda>r. key r < key (last pre)) (pre @ post) = post"
proof -
  have "\<forall>r \<in> set pre. \<not> key r < key (last pre)"
  proof
    fix r assume "r \<in> set pre"
    then obtain a b where pre: "pre = a @ r # b" by (meson split_list)
    show "\<not> key r < key (last pre)"
    proof (cases "b = []")
      case False
      then have "last pre \<in> set b" using pre by simp
      then have "key (last pre) < key r"
        using assms(1) by (auto simp: pre sorted_wrt_append)
      then show ?thesis by simp
    qed (simp add: pre)
  qed
  moreover have "\<forall>r \<in> set post. key r < key (last pre)"
    using assms by (auto simp: sorted_wrt_append)
  ultimately show ?thesis by (simp add: filter_True filter_False)
qed

lemma page_cases:
  assumes "0 < limit"
  shows "page xs limit key =
    (take limit xs,
     if limit < length xs
     then Some \<lparr>cur_created_at = fst (key (last (take limit xs))), cur_id = snd (key (last (take limit xs)))\<rparr>
     else None)"
  using assms by (auto simp: page_def Let_def split: prod.splits)

lemma walk_from_suffix:
  assumes "sorted_wrt (\<lambda>a b. key b < key a) R" and "0 < limit"
    and "R = pre @ post" and "length post < fuel"
    and "filter (\<lambda>r. after_cursor after (key r)) R = post"
  shows "walk_pages fuel (\<lambda>c. page (filter (\<lambda>r. after_cursor c (key r)) R) limit key) after = Some post"
  using assms(3-5)
proof (induction fuel arbitrary: pre post after)
  case (Suc fuel)
  show ?case
  proof (cases "limit < length post")
    case False
    with Suc.prems(3) assms(2) show ?thesis by (simp add: page_cases)
  next
    case True
    let ?kept = "take limit post" and ?rest = "drop limit post"
    let ?c = "\<lparr>cur_created_at = fst (key (last ?kept)), cur_id = snd (key (last ?kept))\<rparr>"
    have R: "R = (pre @ ?kept) @ ?rest" using Suc.prems(1) by simp
    have "?kept \<noteq> []" using True assms(2) by auto
    then have ne: "pre @ ?kept \<noteq> []" and last: "last (pre @ ?kept) = last ?kept"
      by simp_all
    have "filter (\<lambda>r. after_cursor (Some ?c) (key r)) R = ?rest"
      using filter_after_last [of key "pre @ ?kept" ?rest] assms(1) ne
      unfolding R [symmetric] last by (simp add: after_cursor_def)
    moreover have "length ?rest < fuel" using Suc.prems(2) assms(2) True by simp
    ultimately have "walk_pages fuel
        (\<lambda>c. page (filter (\<lambda>r. after_cursor c (key r)) R) limit key) (Some ?c) = Some ?rest"
      using R by (intro Suc.IH)
    then show ?thesis
      using Suc.prems(3) assms(2) True by (simp add: page_cases)
  qed
qed simp

locale keyset_listing =
  fixes inv :: "'s \<Rightarrow> bool"
    and rows :: "'s \<Rightarrow> 'r list"
    and key :: "'r \<Rightarrow> instant \<times> uuid"
    and fetch :: "'s \<Rightarrow> u32 \<Rightarrow> page_cursor option \<Rightarrow> 'r list \<times> page_cursor option"
  assumes fetch_page: "inv s \<Longrightarrow> fetch s limit after = list_page key (rows s) (clamp_page limit) after"
    and rows_distinct: "inv s \<Longrightarrow> distinct (map key (rows s))"
begin

lemma fetch_bounded:
  assumes "inv s"
  shows "length (fst (fetch s limit after)) \<le> 200"
  using clamp_page_bounds [of limit] assms
  by (simp add: fetch_page list_page_def page_def Let_def)

lemma fetch_sound:
  assumes "inv s" and "r \<in> set (fst (fetch s limit after))"
  shows "r \<in> set (rows s)" and "after_cursor after (key r)"
  using assms by (auto simp: fetch_page list_page_def page_def Let_def dest!: in_set_takeD)

lemma walk_complete:
  assumes "inv s" and "length (rows s) < fuel"
  shows "walk_pages fuel (fetch s limit) None = Some (sort_newest_first key (rows s))"
proof -
  let ?R = "sort_newest_first key (rows s)"
  have "fetch s limit = (\<lambda>c. page (filter (\<lambda>r. after_cursor c (key r)) ?R) (clamp_page limit) key)"
    using assms(1) by (auto simp: fetch_page list_page_def filter_sort_newest_first)
  moreover have "walk_pages fuel
      (\<lambda>c. page (filter (\<lambda>r. after_cursor c (key r)) ?R) (clamp_page limit) key) None = Some ?R"
    using assms clamp_page_bounds(1) [of limit]
    by (intro walk_from_suffix [where pre = "[]"])
      (simp_all add: sort_newest_first_descending rows_distinct after_cursor_def)
  ultimately show ?thesis by simp
qed

end

end
