(* ===== verification/Mem_Data.thy ===== *)
theory Mem_Data
  imports Core_Domain Guard_Control Paging
begin

text \<open>
  The state of the in-memory metadata store (\<^verbatim>\<open>MemoryData\<close> of \<^verbatim>\<open>aiec-storage/src/lib.rs\<close>), the
  records it holds, its errors, and its well-formedness: every map has distinct keys and every row is
  stored under its own identifier. Each operation of the store takes the state and returns the new
  state with its result; the lock the code holds for the whole operation makes it one step. A clock
  read is an argument.
\<close>

section \<open>Errors\<close>

text \<open>
  A database error carries whether it means the pool is unavailable, and its text. \<open>StorePanic\<close> is
  not an error of the code but an arithmetic panic: it marks a branch that is shown not to be taken.
\<close>

datatype store_error =
    CoreErr core_error
  | RecordNotFound
  | StoreConflict string
  | Database bool string
  | StoreTransient string
  | StoreQuotaExceeded string
  | Migration string
  | Json string
  | InvalidObjectKey string
  | ListingLimitExceeded string
  | ObjectStoreErr string
  | StoreUnsupported string
  | StorePanic string

fun core_error_of :: "store_error \<Rightarrow> core_error" where
  "core_error_of (CoreErr e) = e"
| "core_error_of RecordNotFound = NotFound ''record not found''"
| "core_error_of (StoreConflict message) = Conflict message"
| "core_error_of (StoreQuotaExceeded message) = QuotaExceeded message"
| "core_error_of (Database unavailable message) =
     (if unavailable then core_error.Unavailable message else Backend message)"
| "core_error_of (Migration message) = Backend message"
| "core_error_of (StoreTransient message) = Transient message"
| "core_error_of (Json message) = Backend message"
| "core_error_of (InvalidObjectKey message) = InvalidRequest message"
| "core_error_of (ListingLimitExceeded message) = LimitExceeded message"
| "core_error_of (ObjectStoreErr message) = Backend message"
| "core_error_of (StoreUnsupported operation) = Unsupported (''metadata operation `'' @ operation @ ''`'')"
| "core_error_of (StorePanic message) = Backend message"

section \<open>Records\<close>

record stored_snapshot =
  ss_id :: uuid
  ss_tenant_id :: uuid
  ss_sandbox_id :: uuid
  ss_object_key :: string
  ss_manifest_object_key :: string
  ss_memory_object_key :: "string option"
  ss_disk_object_key :: "string option"
  ss_workspace_object_key :: "string option"
  ss_size_bytes :: u64
  ss_image_id :: string
  ss_checksum_sha256 :: string
  ss_kind :: string
  ss_complete :: bool
  ss_manifest :: string
  ss_created_at :: instant

record tenant_record =
  tn_id :: uuid
  tn_name :: string
  tn_created_at :: instant

record worker_lease =
  wl_id :: uuid
  wl_tenant_id :: uuid
  wl_sandbox_id :: uuid
  wl_node_id :: uuid
  wl_generation :: int
  wl_status :: string
  wl_reason :: "string option"
  wl_expires_at :: instant
  wl_created_at :: instant
  wl_updated_at :: instant

record usage_event =
  ue_id :: uuid
  ue_tenant_id :: uuid
  ue_sandbox_id :: "uuid option"
  ue_metric :: string
  ue_quantity :: "64 word"
  ue_occurred_at :: instant

record node =
  nd_id :: uuid
  nd_name :: string
  nd_available_vcpus :: u32
  nd_available_memory_bytes :: u64
  nd_available_disk_bytes :: u64
  nd_sandbox_count :: u32
  nd_healthy :: bool
  nd_last_heartbeat :: instant

record node_capacity =
  nc_available_vcpus :: u32
  nc_available_memory_bytes :: u64

record guard_proposal =
  gr_id :: uuid
  gr_sandbox_id :: uuid
  gr_tenant_id :: uuid
  gr_agent_id :: string
  gr_request :: proposal_request
  gr_base_policy_hash :: string
  gr_state :: proposal_state
  gr_decided_by :: "string option"
  gr_decided_at :: "instant option"
  gr_created_at :: instant

datatype object_state = ObjPending | ObjAvailable | ObjDeleting | ObjDeleted

record memory_artifact =
  ma_tenant :: uuid
  ma_state :: object_state
  ma_updated_at :: instant
  ma_retry_at :: instant
  ma_claim :: "uuid option"
  ma_lease_until :: "instant option"
  ma_references :: nat

record memory_data =
  md_sandboxes :: "(uuid \<times> sandbox) list"
  md_keys :: "(uuid \<times> api_key_record) list"
  md_snapshots :: "(uuid \<times> snapshot) list"
  md_usage :: "usage_event list"
  md_stored_snapshots :: "(uuid \<times> stored_snapshot) list"
  md_nodes :: "(uuid \<times> node) list"
  md_tenants :: "(uuid \<times> tenant_record) list"
  md_artifact_objects :: "(string \<times> memory_artifact) list"
  md_artifact_scan :: "string option"
  md_guard_budgets :: "(uuid \<times> guard_budget_state) list"
  md_guard_incidents :: "(uuid \<times> guard_incident) list"
  md_guard_proposals :: "(uuid \<times> guard_proposal) list"
  md_leases :: "(uuid \<times> worker_lease) list"
  md_guard_tool_approvals :: "(uuid \<times> guard_tool_approval) list"

definition empty_memory :: memory_data where
  "empty_memory = \<lparr>md_sandboxes = [], md_keys = [], md_snapshots = [], md_usage = [],
     md_stored_snapshots = [], md_nodes = [], md_tenants = [], md_artifact_objects = [],
     md_artifact_scan = None, md_guard_budgets = [], md_guard_incidents = [], md_guard_proposals = [],
     md_leases = [], md_guard_tool_approvals = []\<rparr>"

text \<open>One second in the nanoseconds an instant counts.\<close>

definition seconds :: "int \<Rightarrow> int" where
  "seconds n = n * 1000000000"

definition owned :: "memory_data \<Rightarrow> uuid \<Rightarrow> uuid \<Rightarrow> store_error + sandbox" where
  "owned d tenant i =
     (case map_of (md_sandboxes d) i of
        Some s \<Rightarrow> if sb_tenant_id s = tenant then Inr s else Inl RecordNotFound
      | None \<Rightarrow> Inl RecordNotFound)"

lemma owned_Inr [result_simps]:
  "owned d tenant i = Inr s \<longleftrightarrow> map_of (md_sandboxes d) i = Some s \<and> sb_tenant_id s = tenant"
  by (auto simp: owned_def split: option.splits)

text \<open>\<^verbatim>\<open>Iterator::max_by\<close>: the last of the greatest elements.\<close>

fun max_by_key :: "('a \<Rightarrow> 'k::linorder) \<Rightarrow> 'a list \<Rightarrow> 'a option" where
  "max_by_key f [] = None"
| "max_by_key f (x # xs) =
     (case max_by_key f xs of None \<Rightarrow> Some x | Some y \<Rightarrow> if f x \<le> f y then Some y else Some x)"

lemma max_by_key_None [simp]: "max_by_key f xs = None \<longleftrightarrow> xs = []"
  by (cases xs) (auto split: option.splits)

lemma max_by_key_Some:
  "max_by_key f xs = Some x \<Longrightarrow> x \<in> set xs \<and> (\<forall>y \<in> set xs. f y \<le> f x)"
proof (induction xs arbitrary: x)
  case (Cons a xs)
  show ?case
  proof (cases "max_by_key f xs")
    case None
    with Cons.prems show ?thesis by simp
  next
    case (Some y)
    from Cons.IH [OF Some] Cons.prems Some show ?thesis by (auto split: if_splits)
  qed
qed simp

section \<open>Well-formedness\<close>

definition table_ok :: "('v \<Rightarrow> 'k) \<Rightarrow> ('k \<times> 'v) list \<Rightarrow> bool" where
  "table_ok key m \<longleftrightarrow> keys_distinct m \<and> keyed_by key m"

definition tables_ok :: "memory_data \<Rightarrow> bool" where
  "tables_ok d \<longleftrightarrow>
     table_ok sb_id (md_sandboxes d) \<and> table_ok ak_id (md_keys d) \<and> table_ok sn_id (md_snapshots d)
     \<and> table_ok ss_id (md_stored_snapshots d) \<and> table_ok nd_id (md_nodes d) \<and> table_ok tn_id (md_tenants d)
     \<and> keys_distinct (md_artifact_objects d)
     \<and> table_ok (\<lambda>b. gi_sandbox_id (gb_identity b)) (md_guard_budgets d)
     \<and> table_ok (\<lambda>c. gi_sandbox_id (ic_identity c)) (md_guard_incidents d)
     \<and> table_ok gr_id (md_guard_proposals d) \<and> table_ok wl_id (md_leases d)
     \<and> table_ok ta_id (md_guard_tool_approvals d)"

lemma table_ok_Nil [simp]: "table_ok key []"
  by (simp add: table_ok_def)

lemma table_ok_update [simp]: "table_ok key m \<Longrightarrow> key v = k \<Longrightarrow> table_ok key (AList.update k v m)"
  by (simp add: table_ok_def)

lemma table_ok_delete [simp]: "table_ok key m \<Longrightarrow> table_ok key (AList.delete k m)"
  by (simp add: table_ok_def)

lemma table_ok_key: "table_ok key m \<Longrightarrow> map_of m k = Some v \<Longrightarrow> key v = k"
  by (auto simp: table_ok_def intro: keyed_by_map_of)

lemma table_ok_values: "table_ok key m \<Longrightarrow> v \<in> set (values_of m) \<longleftrightarrow> map_of m (key v) = Some v"
  by (auto simp: table_ok_def values_of_key)

lemma table_ok_distinct_keys:
  assumes "table_ok key m"
  shows "distinct (map (\<lambda>v. (f v, key v)) (filter P (values_of m)))"
proof -
  have "distinct (map key (values_of m))" using assms by (simp add: table_ok_def distinct_keys_of_values)
  then have "distinct (map key (filter P (values_of m)))" by (simp add: distinct_map_filter)
  then have "distinct (map (snd \<circ> (\<lambda>v. (f v, key v))) (filter P (values_of m)))" by (simp add: comp_def)
  then show ?thesis by (metis distinct_map map_map)
qed

end
