(* ===== verification/Artifact_Ledger.thy ===== *)
theory Artifact_Ledger
  imports Mem_Data
begin

text \<open>
  The ledger of stored objects and its garbage collector
  (\<^verbatim>\<open>aiec-storage/src/memory_artifact_gc.rs\<close>, \<^verbatim>\<open>validate_object_key\<close> of \<^verbatim>\<open>object_store.rs\<close>).
  Snapshots hold references to object keys; the collector claims unreferenced objects under a lease,
  deletes them and acknowledges. Fresh claim identifiers (\<^verbatim>\<open>Uuid::new_v4\<close>) are an argument. An
  instant is an unbounded integer, so the two refusals for a date outside the range of the calendar
  library do not arise.
\<close>

type_synonym ledger = "(string \<times> memory_artifact) list"

record artifact_deletion =
  ad_key :: string
  ad_tenant_id :: uuid
  ad_claim :: uuid

definition validate_object_key :: "string \<Rightarrow> store_error + unit" where
  "validate_object_key key =
     (if key = [] \<or> 1024 < length key then Inl (InvalidObjectKey ''key must contain 1 to 1024 bytes'')
      else if starts_with key ''/'' \<or> ends_with key ''/'' \<or> CHR 0x5C \<in> set key \<or> list_ex is_ascii_control key
      then Inl (InvalidObjectKey ''key has an unsafe path component'')
      else if list_ex (\<lambda>component. component = [] \<or> component = ''.'' \<or> component = ''..'') (split_on (CHR ''/'') key)
      then Inl (InvalidObjectKey ''key contains traversal or an empty component'')
      else Inr ())"

definition retired :: "object_state \<Rightarrow> bool" where
  "retired s \<longleftrightarrow> s = ObjDeleting \<or> s = ObjDeleted"

definition new_artifact :: "uuid \<Rightarrow> object_state \<Rightarrow> instant \<Rightarrow> memory_artifact" where
  "new_artifact tenant state now = \<lparr>ma_tenant = tenant, ma_state = state, ma_updated_at = now,
     ma_retry_at = now, ma_claim = None, ma_lease_until = None, ma_references = 0\<rparr>"

definition stored_keys :: "stored_snapshot \<Rightarrow> string option list" where
  "stored_keys v = [Some (ss_object_key v), Some (ss_manifest_object_key v), ss_memory_object_key v,
     ss_disk_object_key v, ss_workspace_object_key v]"

section \<open>References\<close>

definition check_link :: "ledger \<Rightarrow> string option \<Rightarrow> store_error + unit" where
  "check_link m k =
     (case k of
        None \<Rightarrow> Inr ()
      | Some key \<Rightarrow>
          then_r (validate_object_key key)
            (if (case map_of m key of Some object \<Rightarrow> retired (ma_state object) | None \<Rightarrow> False)
             then Inl (StoreConflict ''artifact key is being deleted or has expired'')
             else Inr ()))"

definition link_one :: "uuid \<Rightarrow> instant \<Rightarrow> string \<Rightarrow> ledger \<Rightarrow> ledger" where
  "link_one tenant now key m =
     (case map_of m key of
        Some object \<Rightarrow>
          AList.update key (object\<lparr>ma_state := ObjAvailable, ma_updated_at := now,
            ma_references := ma_references object + 1\<rparr>) m
      | None \<Rightarrow>
          AList.update key ((new_artifact tenant ObjAvailable now)\<lparr>ma_references := 1\<rparr>) m)"

text \<open>The loop over the keys, with the keys seen before: a key named twice is linked once.\<close>

fun link_loop :: "uuid \<Rightarrow> instant \<Rightarrow> string option list \<Rightarrow> string option list \<Rightarrow> ledger \<Rightarrow> ledger" where
  "link_loop tenant now seen [] m = m"
| "link_loop tenant now seen (k # ks) m =
     (case k of
        None \<Rightarrow> link_loop tenant now (seen @ [k]) ks m
      | Some key \<Rightarrow>
          if k \<in> set seen then link_loop tenant now (seen @ [k]) ks m
          else link_loop tenant now (seen @ [k]) ks (link_one tenant now key m))"

definition link_keys ::
  "memory_data \<Rightarrow> instant \<Rightarrow> uuid \<Rightarrow> string option list \<Rightarrow> (store_error + unit) \<times> memory_data" where
  "link_keys d now tenant keys =
     (case each_r (check_link (md_artifact_objects d)) keys of
        Inl e \<Rightarrow> (Inl e, d)
      | Inr _ \<Rightarrow>
          (Inr (), d\<lparr>md_artifact_objects := link_loop tenant now [] keys (md_artifact_objects d)\<rparr>))"

definition unlink_one :: "string \<Rightarrow> ledger \<Rightarrow> store_error + ledger" where
  "unlink_one key m =
     (case map_of m key of
        Some object \<Rightarrow>
          if ma_references object = 0 then Inl (StorePanic ''attempt to subtract with overflow'')
          else Inr (AList.update key (object\<lparr>ma_references := ma_references object - 1\<rparr>) m)
      | None \<Rightarrow> Inr m)"

fun unlink_loop :: "string option list \<Rightarrow> string option list \<Rightarrow> ledger \<Rightarrow> store_error + ledger" where
  "unlink_loop seen [] m = Inr m"
| "unlink_loop seen (k # ks) m =
     (case k of
        None \<Rightarrow> unlink_loop (seen @ [k]) ks m
      | Some key \<Rightarrow>
          if k \<in> set seen then unlink_loop (seen @ [k]) ks m
          else bind_r (unlink_one key m) (unlink_loop (seen @ [k]) ks))"

definition unlink_keys :: "memory_data \<Rightarrow> string option list \<Rightarrow> (store_error + unit) \<times> memory_data" where
  "unlink_keys d keys =
     (case unlink_loop [] keys (md_artifact_objects d) of
        Inl e \<Rightarrow> (Inl e, d)
      | Inr m \<Rightarrow> (Inr (), d\<lparr>md_artifact_objects := m\<rparr>))"

section \<open>Uploads\<close>

definition tenant_known :: "memory_data \<Rightarrow> uuid \<Rightarrow> bool" where
  "tenant_known d tenant \<longleftrightarrow>
     map_of (md_tenants d) tenant \<noteq> None
     \<or> list_ex (\<lambda>v. sb_tenant_id v = tenant) (values_of (md_sandboxes d))
     \<or> list_ex (\<lambda>v. ak_tenant_id v = tenant) (values_of (md_keys d))
     \<or> list_ex (\<lambda>v. sn_tenant_id v = tenant) (values_of (md_snapshots d))
     \<or> list_ex (\<lambda>v. ss_tenant_id v = tenant) (values_of (md_stored_snapshots d))"

definition reserve_artifact_upload ::
  "memory_data \<Rightarrow> instant \<Rightarrow> uuid \<Rightarrow> uuid option \<Rightarrow> string \<Rightarrow> (core_error + unit) \<times> memory_data" where
  "reserve_artifact_upload d now tenant run key =
     (if run \<noteq> None then (Inl (Unsupported ''memory Run storage''), d)
      else case validate_object_key key of
        Inl e \<Rightarrow> (Inl (core_error_of e), d)
      | Inr _ \<Rightarrow>
          if \<not> tenant_known d tenant then (Inl (NotFound ''tenant not found''), d)
          else case map_of (md_artifact_objects d) key of
            Some object \<Rightarrow>
              if ma_tenant object \<noteq> tenant \<or> retired (ma_state object)
              then (Inl (Conflict ''object key belongs to another owner or has expired''), d)
              else (Inr (), d\<lparr>md_artifact_objects :=
                     AList.update key (object\<lparr>ma_updated_at := now\<rparr>) (md_artifact_objects d)\<rparr>)
          | None \<Rightarrow>
              (Inr (), d\<lparr>md_artifact_objects :=
                 AList.update key (new_artifact tenant ObjPending now) (md_artifact_objects d)\<rparr>))"

definition owned_artifact :: "memory_data \<Rightarrow> uuid \<Rightarrow> string \<Rightarrow> memory_artifact option" where
  "owned_artifact d tenant key =
     (case map_of (md_artifact_objects d) key of
        Some object \<Rightarrow> if ma_tenant object = tenant then Some object else None
      | None \<Rightarrow> None)"

definition complete_artifact_upload ::
  "memory_data \<Rightarrow> instant \<Rightarrow> uuid \<Rightarrow> uuid option \<Rightarrow> string \<Rightarrow> (core_error + unit) \<times> memory_data" where
  "complete_artifact_upload d now tenant run key =
     (if run \<noteq> None then (Inl (Unsupported ''memory Run storage''), d)
      else case owned_artifact d tenant key of
        None \<Rightarrow> (Inl (NotFound ''upload ownership not found''), d)
      | Some object \<Rightarrow>
          let expired = retired (ma_state object);
              object = object\<lparr>ma_state := (if expired then ObjDeleting else ObjAvailable), ma_claim := None,
                ma_lease_until := None, ma_updated_at := now, ma_retry_at := now\<rparr>;
              d = d\<lparr>md_artifact_objects := AList.update key object (md_artifact_objects d)\<rparr>
          in if expired then (Inl (Conflict ''upload completed after its ownership expired''), d)
             else (Inr (), d))"

definition delete_artifact_upload ::
  "memory_data \<Rightarrow> instant \<Rightarrow> uuid \<Rightarrow> uuid option \<Rightarrow> string \<Rightarrow> (core_error + unit) \<times> memory_data" where
  "delete_artifact_upload d now tenant run key =
     (if run \<noteq> None then (Inl (Unsupported ''memory Run storage''), d)
      else case owned_artifact d tenant key of
        None \<Rightarrow> (Inl (NotFound ''upload ownership not found''), d)
      | Some object \<Rightarrow>
          if retired (ma_state object)
          then (Inl (Conflict ''object key belongs to another owner or has expired''), d)
          else (Inr (), d\<lparr>md_artifact_objects := AList.update key
                 (object\<lparr>ma_state := ObjDeleted, ma_claim := None, ma_lease_until := None,
                   ma_updated_at := now, ma_retry_at := now\<rparr>) (md_artifact_objects d)\<rparr>))"

section \<open>Garbage collection\<close>

definition claimable :: "instant \<Rightarrow> instant \<Rightarrow> memory_artifact \<Rightarrow> bool" where
  "claimable now abandoned object \<longleftrightarrow>
     \<not> (ma_state object = ObjDeleted \<or> ma_references object \<noteq> 0 \<or> now < ma_retry_at object
        \<or> (case ma_lease_until object of Some lease \<Rightarrow> now < lease | None \<Rightarrow> False)
        \<or> ma_state object \<noteq> ObjDeleting \<and> abandoned < ma_updated_at object)"

text \<open>The \<open>i\<close>-th claim of a pass takes the identifier \<open>fresh i\<close>.\<close>

fun claim_loop ::
  "(nat \<Rightarrow> uuid) \<Rightarrow> instant \<Rightarrow> instant \<Rightarrow> instant \<Rightarrow> nat \<Rightarrow> (string \<times> memory_artifact) list \<Rightarrow> ledger
    \<Rightarrow> artifact_deletion list \<times> ledger" where
  "claim_loop fresh now abandoned lease_until i [] m = ([], m)"
| "claim_loop fresh now abandoned lease_until i ((key, object) # rows) m =
     (if claimable now abandoned object then
        let object' = object\<lparr>ma_state := ObjDeleting, ma_claim := Some (fresh i),
              ma_lease_until := Some lease_until\<rparr>;
            (claims, m') = claim_loop fresh now abandoned lease_until (i + 1) rows (AList.update key object' m)
        in (\<lparr>ad_key = key, ad_tenant_id = ma_tenant object, ad_claim = fresh i\<rparr> # claims, m')
      else claim_loop fresh now abandoned lease_until i rows m)"

definition scan_window :: "ledger \<Rightarrow> string option \<Rightarrow> nat \<Rightarrow> (string \<times> memory_artifact) list" where
  "scan_window m cursor limit =
     take limit (sort_key fst (filter (\<lambda>(k, _). case cursor of Some c \<Rightarrow> c < k | None \<Rightarrow> True) m))"

definition claim_artifact_deletions ::
  "memory_data \<Rightarrow> (nat \<Rightarrow> uuid) \<Rightarrow> instant \<Rightarrow> int \<Rightarrow> int \<Rightarrow> u32 \<Rightarrow> int
    \<Rightarrow> (core_error + artifact_deletion list) \<times> memory_data" where
  "claim_artifact_deletions d fresh now retention_seconds pending_grace_seconds limit lease_seconds =
     (if \<not> (1 \<le> retention_seconds \<and> retention_seconds \<le> 315360000)
        \<or> \<not> (600 \<le> pending_grace_seconds \<and> pending_grace_seconds \<le> 315360000)
        \<or> \<not> (1 \<le> limit \<and> limit \<le> 1000)
        \<or> \<not> (1 \<le> lease_seconds \<and> lease_seconds \<le> 3600)
      then (Inl (InvalidRequest ''invalid artifact GC bounds''), d)
      else
        let abandoned = now - seconds pending_grace_seconds;
            lease_until = now + seconds lease_seconds;
            window = scan_window (md_artifact_objects d) (md_artifact_scan d) (unat limit);
            (claims, m) = claim_loop fresh now abandoned lease_until 0 window (md_artifact_objects d)
        in (Inr claims, d\<lparr>md_artifact_objects := m,
              md_artifact_scan := (if window = [] then None else Some (fst (last window)))\<rparr>))"

definition finish_artifact_deletion ::
  "memory_data \<Rightarrow> instant \<Rightarrow> string \<Rightarrow> uuid \<Rightarrow> bool \<Rightarrow> instant \<Rightarrow> (core_error + unit) \<times> memory_data" where
  "finish_artifact_deletion d now key claim deleted retry_at =
     (case map_of (md_artifact_objects d) key of
        Some object \<Rightarrow>
          if ma_state object = ObjDeleting \<and> ma_claim object = Some claim
          then (Inr (), d\<lparr>md_artifact_objects := AList.update key
                 (object\<lparr>ma_state := (if deleted then ObjDeleted else ObjDeleting), ma_claim := None,
                   ma_lease_until := None, ma_retry_at := retry_at, ma_updated_at := now\<rparr>)
                 (md_artifact_objects d)\<rparr>)
          else (Inl (Conflict ''stale artifact deletion claim''), d)
      | None \<Rightarrow> (Inl (Conflict ''stale artifact deletion claim''), d))"

section \<open>What the loops do to one key\<close>

definition named :: "string option list \<Rightarrow> string set" where
  "named ks = {k. Some k \<in> set ks}"

definition linked :: "uuid \<Rightarrow> instant \<Rightarrow> memory_artifact option \<Rightarrow> memory_artifact" where
  "linked tenant now x =
     (case x of
        Some object \<Rightarrow> object\<lparr>ma_state := ObjAvailable, ma_updated_at := now, ma_references := ma_references object + 1\<rparr>
      | None \<Rightarrow> (new_artifact tenant ObjAvailable now)\<lparr>ma_references := 1\<rparr>)"

definition released :: "memory_artifact \<Rightarrow> memory_artifact" where
  "released object = object\<lparr>ma_references := ma_references object - 1\<rparr>"

definition refs :: "ledger \<Rightarrow> string \<Rightarrow> nat" where
  "refs m k = (case map_of m k of Some object \<Rightarrow> ma_references object | None \<Rightarrow> 0)"

lemma map_of_link_one: "map_of (link_one tenant now key m) = (map_of m)(key \<mapsto> linked tenant now (map_of m key))"
  by (simp add: link_one_def linked_def split: option.splits)

lemma keys_distinct_link_one: "keys_distinct m \<Longrightarrow> keys_distinct (link_one tenant now key m)"
  by (simp add: link_one_def split: option.splits)

lemma map_of_link_loop:
  "map_of (link_loop tenant now seen ks m) k =
     (if Some k \<in> set ks - set seen then Some (linked tenant now (map_of m k)) else map_of m k)"
  by (induction tenant now seen ks m rule: link_loop.induct) (auto simp: map_of_link_one split: option.splits)

lemma keys_distinct_link_loop: "keys_distinct m \<Longrightarrow> keys_distinct (link_loop tenant now seen ks m)"
  by (induction tenant now seen ks m rule: link_loop.induct)
    (auto simp: keys_distinct_link_one split: option.splits)

lemma unlink_one_ok:
  assumes "map_of m key \<noteq> None \<longrightarrow> 0 < refs m key"
  shows "\<exists>m'. unlink_one key m = Inr m' \<and> map_of m' = (map_of m)(key := map_option released (map_of m key))
    \<and> (keys_distinct m \<longrightarrow> keys_distinct m')"
  using assms by (cases "map_of m key") (auto simp: unlink_one_def refs_def released_def fun_upd_idem)

lemma unlink_loop_ok:
  assumes "\<forall>k. Some k \<in> set ks - set seen \<longrightarrow> map_of m k \<noteq> None \<longrightarrow> 0 < refs m k"
  shows "\<exists>m'. unlink_loop seen ks m = Inr m'
    \<and> map_of m' = (\<lambda>k. if Some k \<in> set ks - set seen then map_option released (map_of m k) else map_of m k)
    \<and> (keys_distinct m \<longrightarrow> keys_distinct m')"
  using assms
proof (induction ks arbitrary: seen m)
  case (Cons k ks)
  show ?case
  proof (cases "k = None \<or> k \<in> set seen")
    case True
    have "\<forall>j. Some j \<in> set ks - set (seen @ [k]) \<longrightarrow> map_of m j \<noteq> None \<longrightarrow> 0 < refs m j"
      using Cons.prems by auto
    from Cons.IH [OF this] True show ?thesis by (auto split: option.splits intro!: ext)
  next
    case False
    then obtain key where k: "k = Some key" and new: "k \<notin> set seen" by auto
    have "map_of m key \<noteq> None \<longrightarrow> 0 < refs m key" using Cons.prems k new by auto
    from unlink_one_ok [OF this] obtain m1 where one: "unlink_one key m = Inr m1"
      and m1: "map_of m1 = (map_of m)(key := map_option released (map_of m key))"
      and kd: "keys_distinct m \<longrightarrow> keys_distinct m1" by blast
    have "\<forall>j. Some j \<in> set ks - set (seen @ [k]) \<longrightarrow> map_of m1 j \<noteq> None \<longrightarrow> 0 < refs m1 j"
      using Cons.prems k by (auto simp: m1 refs_def)
    from Cons.IH [OF this] obtain m2 where "unlink_loop (seen @ [k]) ks m1 = Inr m2"
      and m2: "map_of m2 = (\<lambda>j. if Some j \<in> set ks - set (seen @ [k]) then map_option released (map_of m1 j) else map_of m1 j)"
      and "keys_distinct m1 \<longrightarrow> keys_distinct m2" by blast
    moreover have "map_of m2 = (\<lambda>j. if Some j \<in> set (k # ks) - set seen then map_option released (map_of m j) else map_of m j)"
      using k new by (auto simp: m2 m1 intro!: ext)
    ultimately show ?thesis using one kd k new by auto
  qed
qed simp

definition claimed :: "instant \<Rightarrow> uuid \<Rightarrow> memory_artifact \<Rightarrow> memory_artifact" where
  "claimed lease c object = object\<lparr>ma_state := ObjDeleting, ma_claim := Some c, ma_lease_until := Some lease\<rparr>"

lemma claim_loop_other:
  "k \<notin> fst ` set rows \<Longrightarrow> map_of (snd (claim_loop fresh now abandoned lease i rows m)) k = map_of m k"
proof (induction rows arbitrary: i m)
  case (Cons row rows)
  then show ?case by (cases row) (simp add: Let_def split_beta)
qed simp

lemma claim_loop_key:
  assumes "distinct (map fst rows)" and "(k, object) \<in> set rows"
  shows "\<exists>c. map_of (snd (claim_loop fresh now abandoned lease i rows m)) k =
    (if claimable now abandoned object then Some (claimed lease c object) else map_of m k)"
  using assms
proof (induction rows arbitrary: i m)
  case (Cons row rows)
  obtain key x where row: "row = (key, x)" by (cases row)
  show ?case
  proof (cases "key = k")
    case True
    then have "x = object" "k \<notin> fst ` set rows" using Cons.prems row by (force simp: image_iff)+
    then show ?thesis using True by (auto simp: row Let_def split_beta claim_loop_other claimed_def)
  next
    case False
    then have "distinct (map fst rows)" "(k, object) \<in> set rows" using Cons.prems row by auto
    note ih = Cons.IH [OF this]
    show ?thesis
      using ih [of i m] ih [of "i + 1" "AList.update key (x\<lparr>ma_state := ObjDeleting, ma_claim := Some (fresh i), ma_lease_until := Some lease\<rparr>) m"] False
      by (cases "claimable now abandoned object") (simp_all add: row Let_def split_beta)
  qed
qed simp

lemma keys_distinct_claim_loop:
  "keys_distinct m \<Longrightarrow> keys_distinct (snd (claim_loop fresh now abandoned lease i rows m))"
proof (induction rows arbitrary: i m)
  case (Cons row rows)
  then show ?case by (cases row) (simp add: Let_def split_beta)
qed simp

lemma claim_loop_claims:
  "c \<in> set (fst (claim_loop fresh now abandoned lease i rows m)) \<Longrightarrow>
     \<exists>object. (ad_key c, object) \<in> set rows \<and> claimable now abandoned object \<and> ad_tenant_id c = ma_tenant object"
proof (induction rows arbitrary: i m)
  case (Cons row rows)
  obtain key x where row: "row = (key, x)" by (cases row)
  show ?case
  proof (cases "claimable now abandoned x")
    case True
    with Cons.prems Cons.IH [of "i + 1"] show ?thesis
      by (simp add: row Let_def split_beta) (elim disjE; fastforce)
  next
    case False
    with Cons.prems Cons.IH [of i m] show ?thesis by (simp add: row) blast
  qed
qed simp

end
