(* ===== verification/Mem_Store.thy ===== *)
theory Mem_Store
  imports Artifact_Ledger
begin

text \<open>
  The operations of the in-memory metadata store on sandboxes, API keys, snapshots, usage, nodes,
  tenants and worker leases (\<^verbatim>\<open>MemoryRepository\<close> of \<^verbatim>\<open>aiec-storage/src/lib.rs\<close>).
\<close>

section \<open>Sandboxes\<close>

definition create_sandbox :: "memory_data \<Rightarrow> sandbox \<Rightarrow> (store_error + unit) \<times> memory_data" where
  "create_sandbox d v =
     (if map_of (md_sandboxes d) (sb_id v) \<noteq> None then (Inl (StoreConflict ''sandbox exists''), d)
      else (Inr (), d\<lparr>md_sandboxes := AList.update (sb_id v) v (md_sandboxes d)\<rparr>))"

definition get_sandbox :: "memory_data \<Rightarrow> uuid \<Rightarrow> uuid \<Rightarrow> store_error + sandbox" where
  "get_sandbox d tenant i = owned d tenant i"

definition sandbox_key :: "sandbox \<Rightarrow> instant \<times> uuid" where
  "sandbox_key v = (sb_created_at v, sb_id v)"

definition list_sandboxes ::
  "memory_data \<Rightarrow> uuid \<Rightarrow> u32 \<Rightarrow> page_cursor option \<Rightarrow> sandbox list \<times> page_cursor option" where
  "list_sandboxes d tenant limit after =
     (let limit = clamp_page limit;
          rows = filter (\<lambda>v. after_cursor after (sandbox_key v))
            (filter (\<lambda>v. sb_tenant_id v = tenant) (values_of (md_sandboxes d)));
          rows = sort_newest_first sandbox_key rows;
          more = limit < length rows;
          kept = take limit rows;
          next = (if more \<and> kept \<noteq> []
                  then Some \<lparr>cur_created_at = sb_created_at (last kept), cur_id = sb_id (last kept)\<rparr>
                  else None)
      in (kept, next))"

definition update_state ::
  "memory_data \<Rightarrow> instant \<Rightarrow> uuid \<Rightarrow> uuid \<Rightarrow> sandbox_state \<Rightarrow> sandbox_state \<Rightarrow> string option
    \<Rightarrow> (store_error + sandbox) \<times> memory_data" where
  "update_state d now tenant i expected next runtime_path =
     (case owned d tenant i of
        Inl e \<Rightarrow> (Inl e, d)
      | Inr v \<Rightarrow>
          if next = Quarantined \<and> sb_state v \<noteq> Quarantined
          then (Inl (StoreConflict ''use the atomic Guard quarantine operation''), d)
          else if sb_state v = next then (Inr v, d)
          else if sb_state v \<noteq> expected \<or> \<not> can_transition_to (sb_state v) next
          then (Inl (StoreConflict ''invalid state transition''), d)
          else
            let v = v\<lparr>sb_state := next, sb_updated_at := now,
                  sb_runtime_path := (if runtime_path \<noteq> None then runtime_path else sb_runtime_path v)\<rparr>
            in (Inr v, d\<lparr>md_sandboxes := AList.update i v (md_sandboxes d)\<rparr>))"

definition delete_sandbox :: "memory_data \<Rightarrow> instant \<Rightarrow> uuid \<Rightarrow> uuid \<Rightarrow> (store_error + unit) \<times> memory_data" where
  "delete_sandbox d now tenant i =
     (case owned d tenant i of
        Inl e \<Rightarrow> (Inl e, d)
      | Inr v \<Rightarrow>
          if sb_state v = Quarantined
          then (Inl (StoreConflict ''quarantined sandbox requires explicit human release''), d)
          else (Inr (), d\<lparr>md_sandboxes :=
                 AList.update i (v\<lparr>sb_state := Destroyed, sb_updated_at := now\<rparr>) (md_sandboxes d)\<rparr>))"

section \<open>API keys\<close>

definition put_key :: "memory_data \<Rightarrow> api_key_record \<Rightarrow> (store_error + unit) \<times> memory_data" where
  "put_key d v =
     (if map_of (md_keys d) (ak_id v) \<noteq> None then (Inl (StoreConflict ''API key exists''), d)
      else (Inr (), d\<lparr>md_keys := AList.update (ak_id v) v (md_keys d)\<rparr>))"

definition revoke_key :: "memory_data \<Rightarrow> instant \<Rightarrow> uuid \<Rightarrow> uuid \<Rightarrow> (store_error + unit) \<times> memory_data" where
  "revoke_key d now tenant i =
     (case map_of (md_keys d) i of
        Some v \<Rightarrow>
          if ak_tenant_id v = tenant
          then (Inr (), d\<lparr>md_keys := AList.update i (v\<lparr>ak_revoked_at := Some now\<rparr>) (md_keys d)\<rparr>)
          else (Inl RecordNotFound, d)
      | None \<Rightarrow> (Inl RecordNotFound, d))"

definition list_keys :: "memory_data \<Rightarrow> uuid \<Rightarrow> api_key_record list" where
  "list_keys d tenant =
     sort_newest_first (\<lambda>v. (ak_created_at v, ak_id v))
       (filter (\<lambda>v. ak_tenant_id v = tenant) (values_of (md_keys d)))"

definition get_key :: "memory_data \<Rightarrow> uuid \<Rightarrow> uuid \<Rightarrow> api_key_record option" where
  "get_key d tenant i =
     (case map_of (md_keys d) i of
        Some v \<Rightarrow> if ak_tenant_id v = tenant then Some v else None
      | None \<Rightarrow> None)"

definition find_key :: "memory_data \<Rightarrow> string \<Rightarrow> store_error + api_key_record" where
  "find_key d digest = ok_or (find (\<lambda>v. ak_digest v = digest) (values_of (md_keys d))) RecordNotFound"

section \<open>Snapshots\<close>

definition put_snapshot :: "memory_data \<Rightarrow> instant \<Rightarrow> snapshot \<Rightarrow> (store_error + unit) \<times> memory_data" where
  "put_snapshot d now v =
     (if map_of (md_snapshots d) (sn_id v) \<noteq> None \<or> map_of (md_stored_snapshots d) (sn_id v) \<noteq> None
      then (Inl (StoreConflict ''snapshot exists''), d)
      else case link_keys d now (sn_tenant_id v) [Some (sn_object_key v)] of
        (Inl e, d') \<Rightarrow> (Inl e, d')
      | (Inr _, d') \<Rightarrow> (Inr (), d'\<lparr>md_snapshots := AList.update (sn_id v) v (md_snapshots d')\<rparr>))"

definition get_snapshot :: "memory_data \<Rightarrow> uuid \<Rightarrow> uuid \<Rightarrow> store_error + snapshot" where
  "get_snapshot d tenant i =
     (case map_of (md_snapshots d) i of
        Some v \<Rightarrow> if sn_tenant_id v = tenant then Inr v else Inl RecordNotFound
      | None \<Rightarrow> Inl RecordNotFound)"

definition snapshot_key :: "snapshot \<Rightarrow> instant \<times> uuid" where
  "snapshot_key v = (sn_created_at v, sn_id v)"

definition list_snapshots ::
  "memory_data \<Rightarrow> uuid \<Rightarrow> uuid \<Rightarrow> u32 \<Rightarrow> page_cursor option \<Rightarrow> snapshot list \<times> page_cursor option" where
  "list_snapshots d tenant sandbox_id limit after =
     (let limit = clamp_page limit;
          matching = filter (\<lambda>v. after_cursor after (snapshot_key v))
            (filter (\<lambda>v. sn_tenant_id v = tenant \<and> sn_sandbox_id v = sandbox_id) (values_of (md_snapshots d)))
      in page (sort_newest_first snapshot_key matching) limit snapshot_key)"

definition basic_view :: "stored_snapshot \<Rightarrow> snapshot" where
  "basic_view v = \<lparr>sn_id = ss_id v, sn_tenant_id = ss_tenant_id v, sn_sandbox_id = ss_sandbox_id v,
     sn_object_key = ss_object_key v, sn_size_bytes = ss_size_bytes v, sn_image_id = ss_image_id v,
     sn_created_at = ss_created_at v\<rparr>"

definition put_stored_snapshot ::
  "memory_data \<Rightarrow> instant \<Rightarrow> stored_snapshot \<Rightarrow> (store_error + unit) \<times> memory_data" where
  "put_stored_snapshot d now v =
     (if map_of (md_snapshots d) (ss_id v) \<noteq> None \<or> map_of (md_stored_snapshots d) (ss_id v) \<noteq> None
      then (Inl (StoreConflict ''snapshot exists''), d)
      else case link_keys d now (ss_tenant_id v) (stored_keys v) of
        (Inl e, d') \<Rightarrow> (Inl e, d')
      | (Inr _, d') \<Rightarrow>
          (Inr (), d'\<lparr>md_snapshots := AList.update (ss_id v) (basic_view v) (md_snapshots d'),
             md_stored_snapshots := AList.update (ss_id v) v (md_stored_snapshots d')\<rparr>))"

definition get_stored_snapshot :: "memory_data \<Rightarrow> uuid \<Rightarrow> uuid \<Rightarrow> store_error + stored_snapshot" where
  "get_stored_snapshot d tenant i =
     (case map_of (md_stored_snapshots d) i of
        Some v \<Rightarrow> if ss_tenant_id v = tenant then Inr v else Inl RecordNotFound
      | None \<Rightarrow> Inl RecordNotFound)"

definition latest_stored_snapshot ::
  "memory_data \<Rightarrow> uuid \<Rightarrow> uuid \<Rightarrow> string \<Rightarrow> stored_snapshot option" where
  "latest_stored_snapshot d tenant sandbox_id kind =
     max_by_key (\<lambda>v. (ss_created_at v, ss_id v))
       (filter (\<lambda>v. ss_tenant_id v = tenant \<and> ss_sandbox_id v = sandbox_id \<and> ss_kind v = kind \<and> ss_complete v)
         (values_of (md_stored_snapshots d)))"

definition delete_snapshot :: "memory_data \<Rightarrow> uuid \<Rightarrow> uuid \<Rightarrow> (store_error + unit) \<times> memory_data" where
  "delete_snapshot d tenant i =
     (let owns = (case map_of (md_stored_snapshots d) i of Some v \<Rightarrow> ss_tenant_id v = tenant | None \<Rightarrow> False)
            \<or> (case map_of (md_snapshots d) i of Some v \<Rightarrow> sn_tenant_id v = tenant | None \<Rightarrow> False)
      in if \<not> owns then (Inl RecordNotFound, d)
         else
           let basic_key = map_option sn_object_key (map_of (md_snapshots d) i);
               stored = map_of (md_stored_snapshots d) i;
               d = d\<lparr>md_snapshots := AList.delete i (md_snapshots d),
                 md_stored_snapshots := AList.delete i (md_stored_snapshots d)\<rparr>
           in case stored of
                Some v \<Rightarrow> unlink_keys d (stored_keys v)
              | None \<Rightarrow> unlink_keys d [basic_key])"

section \<open>Usage, nodes and tenants\<close>

text \<open>
  An \<^verbatim>\<open>i64\<close> quantity is a 64-bit word. The sum \<^verbatim>\<open>+=\<close> wraps, as in the release profile, which sets
  no overflow checks; a build with overflow checks panics where the model wraps.
\<close>

definition append_usage :: "memory_data \<Rightarrow> usage_event \<Rightarrow> memory_data" where
  "append_usage d v = d\<lparr>md_usage := md_usage d @ [v]\<rparr>"

definition usage_summary :: "memory_data \<Rightarrow> uuid \<Rightarrow> (string \<times> 64 word) list" where
  "usage_summary d tenant =
     fold (\<lambda>v grouped. AList.update (ue_metric v)
         ((case map_of grouped (ue_metric v) of Some q \<Rightarrow> q | None \<Rightarrow> 0) + ue_quantity v) grouped)
       (filter (\<lambda>v. ue_tenant_id v = tenant) (md_usage d)) []"

definition register_node :: "memory_data \<Rightarrow> node \<Rightarrow> uuid \<times> memory_data" where
  "register_node d v =
     (let i = (case find (\<lambda>(_, n). nd_name n = nd_name v) (md_nodes d) of
                 Some (k, _) \<Rightarrow> k | None \<Rightarrow> nd_id v)
      in (i, d\<lparr>md_nodes := AList.update i (v\<lparr>nd_id := i\<rparr>) (md_nodes d)\<rparr>))"

definition NODE_HEARTBEAT_TTL_SECONDS :: int where "NODE_HEARTBEAT_TTL_SECONDS = 30"

definition live_node :: "instant \<Rightarrow> node \<Rightarrow> bool" where
  "live_node now n \<longleftrightarrow> nd_healthy n \<and> now - seconds NODE_HEARTBEAT_TTL_SECONDS < nd_last_heartbeat n"

definition node_capacity_totals :: "memory_data \<Rightarrow> instant \<Rightarrow> node_capacity" where
  "node_capacity_totals d now =
     fold (\<lambda>n totals.
         if live_node now n
         then totals\<lparr>nc_available_vcpus := saturating_add_w (nc_available_vcpus totals) (nd_available_vcpus n),
                nc_available_memory_bytes :=
                  saturating_add_w (nc_available_memory_bytes totals) (nd_available_memory_bytes n)\<rparr>
         else totals)
       (values_of (md_nodes d)) \<lparr>nc_available_vcpus = 0, nc_available_memory_bytes = 0\<rparr>"

definition list_nodes :: "memory_data \<Rightarrow> instant \<Rightarrow> node list" where
  "list_nodes d now = filter (live_node now) (values_of (md_nodes d))"

definition put_tenant :: "memory_data \<Rightarrow> tenant_record \<Rightarrow> (core_error + unit) \<times> memory_data" where
  "put_tenant d v =
     (if map_of (md_tenants d) (tn_id v) \<noteq> None then (Inl (Conflict ''tenant already exists''), d)
      else (Inr (), d\<lparr>md_tenants := AList.update (tn_id v) v (md_tenants d)\<rparr>))"

definition get_tenant :: "memory_data \<Rightarrow> uuid \<Rightarrow> core_error + tenant_record" where
  "get_tenant d i = ok_or (map_of (md_tenants d) i) (NotFound ''tenant not found'')"

section \<open>Worker leases\<close>

definition get_worker_lease :: "memory_data \<Rightarrow> uuid \<Rightarrow> uuid \<Rightarrow> core_error + worker_lease" where
  "get_worker_lease d tenant lease_id =
     (case map_of (md_leases d) lease_id of
        Some l \<Rightarrow> if wl_tenant_id l = tenant then Inr l else Inl (NotFound ''lease not found'')
      | None \<Rightarrow> Inl (NotFound ''lease not found''))"

text \<open>The search reads the clock anew for each lease it tests: \<open>clock l\<close> is the reading for \<open>l\<close>.\<close>

definition get_active_worker_lease ::
  "memory_data \<Rightarrow> (worker_lease \<Rightarrow> instant) \<Rightarrow> uuid \<Rightarrow> uuid \<Rightarrow> core_error + worker_lease" where
  "get_active_worker_lease d clock tenant sandbox_id =
     ok_or (find (\<lambda>l. wl_tenant_id l = tenant \<and> wl_sandbox_id l = sandbox_id \<and> wl_status l = ''active''
         \<and> clock l < wl_expires_at l) (values_of (md_leases d)))
       (NotFound ''active lease not found'')"

text \<open>The clock is read once for the expiry test and once for the new expiry.\<close>

definition renew_worker_lease ::
  "memory_data \<Rightarrow> instant \<Rightarrow> instant \<Rightarrow> uuid \<Rightarrow> uuid \<Rightarrow> int \<Rightarrow> u64 \<Rightarrow> (core_error + worker_lease) \<times> memory_data" where
  "renew_worker_lease d now later tenant lease_id generation ttl_seconds =
     (if \<not> (1 \<le> ttl_seconds \<and> ttl_seconds \<le> 3600)
      then (Inl (Conflict ''lease TTL must be between 1 and 3600 seconds''), d)
      else case get_worker_lease d tenant lease_id of
        Inl e \<Rightarrow> (Inl e, d)
      | Inr l \<Rightarrow>
          if wl_expires_at l \<le> now then (Inl (Conflict ''worker lease has expired''), d)
          else if wl_generation l \<noteq> generation \<or> wl_status l \<noteq> ''active''
          then (Inl (Conflict ''worker lease generation or status changed''), d)
          else if wl_generation l = 2 ^ 63 - 1 then (Inl (Conflict ''lease generation overflow''), d)
          else
            let l = l\<lparr>wl_generation := wl_generation l + 1, wl_updated_at := later,
                  wl_expires_at := later + seconds (int (unat ttl_seconds))\<rparr>
            in (Inr l, d\<lparr>md_leases := AList.update lease_id l (md_leases d)\<rparr>))"

end
