(* ===== verification/Ledger_Laws.thy ===== *)
theory Ledger_Laws
  imports Mem_Store
begin

text \<open>
  The object ledger is in step with the snapshots: the reference count of a key is the number of
  snapshots that name it, so deleting a snapshot never underflows a count and the collector never
  claims an object a snapshot needs; and a retired key stays retired.
\<close>

section \<open>The invariant\<close>

type_synonym snapshot_table = "(uuid \<times> snapshot) list"
type_synonym stored_table = "(uuid \<times> stored_snapshot) list"

definition held :: "snapshot_table \<Rightarrow> stored_table \<Rightarrow> uuid \<Rightarrow> string set" where
  "held snaps stored i =
     (case map_of stored i of
        Some v \<Rightarrow> named (stored_keys v)
      | None \<Rightarrow> (case map_of snaps i of Some v \<Rightarrow> {sn_object_key v} | None \<Rightarrow> {}))"

definition holders :: "snapshot_table \<Rightarrow> stored_table \<Rightarrow> string \<Rightarrow> uuid set" where
  "holders snaps stored k = {i. k \<in> held snaps stored i}"

definition ledger_inv :: "snapshot_table \<Rightarrow> stored_table \<Rightarrow> ledger \<Rightarrow> bool" where
  "ledger_inv snaps stored m \<longleftrightarrow>
     keys_distinct m
     \<and> (\<forall>i. map_of snaps i = None \<longrightarrow> map_of stored i = None)
     \<and> (\<forall>k. refs m k = card (holders snaps stored k))
     \<and> (\<forall>k object. map_of m k = Some object \<longrightarrow> ma_claim object \<noteq> None \<longrightarrow>
          ma_state object = ObjDeleting \<and> ma_references object = 0)"

abbreviation ledger_ok :: "memory_data \<Rightarrow> bool" where
  "ledger_ok d \<equiv> ledger_inv (md_snapshots d) (md_stored_snapshots d) (md_artifact_objects d)"

lemma finite_holders [simp]: "finite (holders snaps stored k)"
proof (rule finite_subset)
  show "holders snaps stored k \<subseteq> dom (map_of stored) \<union> dom (map_of snaps)"
    by (auto simp: holders_def held_def split: option.splits)
qed (simp add: finite_dom_map_of)

text \<open>Storing a snapshot under a new identifier adds one holder to each key it names.\<close>

lemma ledger_inv_link:
  assumes inv: "ledger_inv snaps stored m"
    and new: "map_of snaps i = None" "map_of stored i = None"
    and ok: "each_r (check_link m) ks = Inr ()"
    and held': "\<And>j. held snaps' stored' j = (if j = i then named ks else held snaps stored j)"
    and dom': "\<forall>j. map_of snaps' j = None \<longrightarrow> map_of stored' j = None"
  shows "ledger_inv snaps' stored' (link_loop tenant now [] ks m)"
proof -
  have not_i: "i \<notin> holders snaps stored k" for k using new by (simp add: holders_def held_def)
  have holders': "holders snaps' stored' k = (if k \<in> named ks then insert i (holders snaps stored k) else holders snaps stored k)" for k
    using not_i [of k] by (auto simp: holders_def held')
  have live: "\<not> retired (ma_state object)" if "k \<in> named ks" "map_of m k = Some object" for k object
  proof -
    have "check_link m (Some k) = Inr ()" using ok that(1) by (auto simp: each_r_Inr named_def)
    then show ?thesis using that(2) by (auto simp: check_link_def result_simps)
  qed
  have claims: "\<forall>k object. map_of m k = Some object \<longrightarrow> ma_claim object \<noteq> None \<longrightarrow>
      ma_state object = ObjDeleting \<and> ma_references object = 0"
    using inv by (simp add: ledger_inv_def)
  have map: "map_of (link_loop tenant now [] ks m) k = (if k \<in> named ks then Some (linked tenant now (map_of m k)) else map_of m k)" for k
    by (simp add: map_of_link_loop named_def)
  have "refs (link_loop tenant now [] ks m) k = card (holders snaps' stored' k)" for k
  proof -
    have "refs m k = card (holders snaps stored k)" using inv by (simp add: ledger_inv_def)
    then show ?thesis using not_i [of k]
      by (simp add: refs_def map holders' linked_def split: option.splits)
  qed
  moreover have "ma_state object = ObjDeleting \<and> ma_references object = 0"
    if o: "map_of (link_loop tenant now [] ks m) k = Some object" "ma_claim object \<noteq> None" for k object
  proof (cases "k \<in> named ks")
    case True
    with o show ?thesis using live [OF True] claims
      by (cases "map_of m k") (auto simp: map linked_def new_artifact_def retired_def)
  next
    case False
    with o claims show ?thesis by (simp add: map)
  qed
  moreover have "keys_distinct (link_loop tenant now [] ks m)"
    using inv by (simp add: ledger_inv_def keys_distinct_link_loop)
  ultimately show ?thesis using dom' by (auto simp: ledger_inv_def)
qed

text \<open>Dropping a snapshot removes it from the holders of its keys, and no count underflows.\<close>

lemma ledger_inv_unlink:
  assumes inv: "ledger_inv snaps stored m"
    and ks: "held snaps stored i = named ks"
    and held': "\<And>j. held snaps' stored' j = (if j = i then {} else held snaps stored j)"
    and dom': "\<forall>j. map_of snaps' j = None \<longrightarrow> map_of stored' j = None"
  shows "\<exists>m'. unlink_loop [] ks m = Inr m' \<and> ledger_inv snaps' stored' m'"
proof -
  have refs: "refs m k = card (holders snaps stored k)" for k using inv by (simp add: ledger_inv_def)
  have pos: "0 < refs m k" if "k \<in> named ks" for k
  proof -
    have "i \<in> holders snaps stored k" using that ks by (simp add: holders_def)
    then show ?thesis unfolding refs by (simp add: card_gt_0_iff) blast
  qed
  then have "\<forall>k. Some k \<in> set ks - set [] \<longrightarrow> map_of m k \<noteq> None \<longrightarrow> 0 < refs m k"
    by (simp add: named_def)
  from unlink_loop_ok [OF this] obtain m' where m': "unlink_loop [] ks m = Inr m'"
    and map: "map_of m' = (\<lambda>k. if k \<in> named ks then map_option released (map_of m k) else map_of m k)"
    and kd: "keys_distinct m \<longrightarrow> keys_distinct m'" by (auto simp: named_def)
  have holders': "holders snaps' stored' k = holders snaps stored k - {i}" for k
    by (auto simp: holders_def held')
  have "refs m' k = card (holders snaps' stored' k)" for k
  proof (cases "k \<in> named ks")
    case True
    then have "i \<in> holders snaps stored k" using ks by (simp add: holders_def)
    with True refs [of k] show ?thesis
      by (simp add: refs_def map holders' released_def split: option.splits)
  next
    case False
    then have "i \<notin> holders snaps stored k" using ks by (simp add: holders_def)
    with False refs [of k] show ?thesis by (simp add: refs_def map holders')
  qed
  moreover have "ma_state object = ObjDeleting \<and> ma_references object = 0"
    if o: "map_of m' k = Some object" "ma_claim object \<noteq> None" for k object
  proof -
    have claims: "\<And>object. map_of m k = Some object \<Longrightarrow> ma_claim object \<noteq> None \<Longrightarrow>
        ma_state object = ObjDeleting \<and> ma_references object = 0"
      using inv unfolding ledger_inv_def by blast
    show ?thesis using o claims by (auto simp: map released_def split: if_splits)
  qed
  ultimately show ?thesis using m' kd inv dom' by (auto simp: ledger_inv_def)
qed
section \<open>The operations keep the ledger\<close>

lemma ledger_inv_update:
  assumes "ledger_inv snaps stored m" and "map_of m k = Some object"
    and "ma_references object' = ma_references object"
    and "ma_claim object' \<noteq> None \<longrightarrow> ma_state object' = ObjDeleting \<and> ma_references object' = 0"
  shows "ledger_inv snaps stored (AList.update k object' m)"
proof -
  have "refs (AList.update k object' m) j = refs m j" for j using assms(2,3) by (simp add: refs_def)
  with assms show ?thesis by (auto simp: ledger_inv_def split: if_splits)
qed

lemma ledger_inv_unclaimed:
  "ledger_inv snaps stored m \<Longrightarrow> map_of m k = Some object \<Longrightarrow> \<not> retired (ma_state object) \<Longrightarrow> ma_claim object = None"
  unfolding ledger_inv_def retired_def by blast

lemma ledger_inv_insert:
  assumes "ledger_inv snaps stored m" and "map_of m k = None" and "ma_references object = 0" and "ma_claim object = None"
  shows "ledger_inv snaps stored (AList.update k object m)"
proof -
  have "card (holders snaps stored k) = 0" using assms(1,2) by (auto simp: ledger_inv_def refs_def dest: spec [of _ k])
  with assms show ?thesis by (auto simp: ledger_inv_def refs_def split: if_splits)
qed

lemma ledger_ok_put_snapshot: "ledger_ok d \<Longrightarrow> ledger_ok (snd (put_snapshot d now v))"
proof -
  assume inv: "ledger_ok d"
  show ?thesis
  proof (cases "(map_of (md_snapshots d) (sn_id v) \<noteq> None \<or> map_of (md_stored_snapshots d) (sn_id v) \<noteq> None)
      \<or> (\<exists>e. each_r (check_link (md_artifact_objects d)) [Some (sn_object_key v)] = Inl e)")
    case True
    with inv show ?thesis by (auto simp: put_snapshot_def link_keys_def)
  next
    case False
    then have new: "map_of (md_snapshots d) (sn_id v) = None" "map_of (md_stored_snapshots d) (sn_id v) = None"
      and ok: "each_r (check_link (md_artifact_objects d)) [Some (sn_object_key v)] = Inr ()"
      by (auto, metis old.sum.exhaust old.unit.exhaust)
    have "ledger_inv (AList.update (sn_id v) v (md_snapshots d)) (md_stored_snapshots d)
        (link_loop (sn_tenant_id v) now [] [Some (sn_object_key v)] (md_artifact_objects d))"
      by (rule ledger_inv_link [OF inv new ok])
        (use inv new in \<open>auto simp: held_def named_def ledger_inv_def split: option.splits if_splits\<close>)
    with new ok show ?thesis by (simp add: put_snapshot_def link_keys_def del: each_r.simps link_loop.simps)
  qed
qed

lemma ledger_ok_put_stored_snapshot: "ledger_ok d \<Longrightarrow> ledger_ok (snd (put_stored_snapshot d now v))"
proof -
  assume inv: "ledger_ok d"
  show ?thesis
  proof (cases "(map_of (md_snapshots d) (ss_id v) \<noteq> None \<or> map_of (md_stored_snapshots d) (ss_id v) \<noteq> None)
      \<or> (\<exists>e. each_r (check_link (md_artifact_objects d)) (stored_keys v) = Inl e)")
    case True
    with inv show ?thesis by (auto simp: put_stored_snapshot_def link_keys_def)
  next
    case False
    then have new: "map_of (md_snapshots d) (ss_id v) = None" "map_of (md_stored_snapshots d) (ss_id v) = None"
      and ok: "each_r (check_link (md_artifact_objects d)) (stored_keys v) = Inr ()"
      by (auto, metis old.sum.exhaust old.unit.exhaust)
    have "ledger_inv (AList.update (ss_id v) (basic_view v) (md_snapshots d))
        (AList.update (ss_id v) v (md_stored_snapshots d))
        (link_loop (ss_tenant_id v) now [] (stored_keys v) (md_artifact_objects d))"
      by (rule ledger_inv_link [OF inv new ok])
        (use inv new in \<open>auto simp: held_def ledger_inv_def split: option.splits if_splits\<close>)
    with new ok show ?thesis by (simp add: put_stored_snapshot_def link_keys_def)
  qed
qed

text \<open>A delete either finds nothing of the tenant or succeeds: the subtraction never underflows.\<close>

lemma delete_snapshot_cases:
  assumes "ledger_ok d"
  shows "delete_snapshot d tenant i = (Inl RecordNotFound, d)
    \<or> (\<exists>m. ledger_inv (AList.delete i (md_snapshots d)) (AList.delete i (md_stored_snapshots d)) m
        \<and> delete_snapshot d tenant i = (Inr (), d\<lparr>md_snapshots := AList.delete i (md_snapshots d),
             md_stored_snapshots := AList.delete i (md_stored_snapshots d), md_artifact_objects := m\<rparr>))"
proof -
  let ?ks = "case map_of (md_stored_snapshots d) i of Some v \<Rightarrow> stored_keys v
    | None \<Rightarrow> [map_option sn_object_key (map_of (md_snapshots d) i)]"
  have "held (md_snapshots d) (md_stored_snapshots d) i = named ?ks"
    by (auto simp: held_def named_def split: option.splits)
  moreover have "held (AList.delete i (md_snapshots d)) (AList.delete i (md_stored_snapshots d)) j =
      (if j = i then {} else held (md_snapshots d) (md_stored_snapshots d) j)" for j
    by (auto simp: held_def split: option.splits)
  moreover have "\<forall>j. map_of (AList.delete i (md_snapshots d)) j = None \<longrightarrow>
      map_of (AList.delete i (md_stored_snapshots d)) j = None"
    using assms by (simp add: ledger_inv_def)
  ultimately obtain m where m: "unlink_loop [] ?ks (md_artifact_objects d) = Inr m"
    "ledger_inv (AList.delete i (md_snapshots d)) (AList.delete i (md_stored_snapshots d)) m"
    using ledger_inv_unlink [OF assms] by blast
  show ?thesis
  proof (cases "map_of (md_stored_snapshots d) i")
    case None
    with m show ?thesis by (auto simp: delete_snapshot_def unlink_keys_def Let_def simp del: unlink_loop.simps)
  next
    case (Some v)
    with m show ?thesis by (auto simp: delete_snapshot_def unlink_keys_def Let_def simp del: unlink_loop.simps)
  qed
qed

lemma ledger_ok_delete_snapshot: "ledger_ok d \<Longrightarrow> ledger_ok (snd (delete_snapshot d tenant i))"
  using delete_snapshot_cases [of d tenant i] by auto

lemma ledger_ok_reserve:
  assumes "ledger_ok d"
  shows "ledger_ok (snd (reserve_artifact_upload d now tenant run key))"
proof (cases "map_of (md_artifact_objects d) key")
  case None
  with assms show ?thesis
    by (auto simp: reserve_artifact_upload_def new_artifact_def intro!: ledger_inv_insert split: sum.splits)
next
  case (Some object)
  with assms show ?thesis
    by (auto simp: reserve_artifact_upload_def split: sum.splits
        intro!: ledger_inv_update dest: ledger_inv_unclaimed)
qed

lemma owned_artifact_Some: "owned_artifact d tenant key = Some object \<Longrightarrow> map_of (md_artifact_objects d) key = Some object"
  by (auto simp: owned_artifact_def split: option.splits if_splits)

lemma ledger_ok_complete: "ledger_ok d \<Longrightarrow> ledger_ok (snd (complete_artifact_upload d now tenant run key))"
  by (auto simp: complete_artifact_upload_def Let_def split: option.splits
      intro!: ledger_inv_update dest: owned_artifact_Some)

lemma ledger_ok_delete_upload: "ledger_ok d \<Longrightarrow> ledger_ok (snd (delete_artifact_upload d now tenant run key))"
  by (auto simp: delete_artifact_upload_def split: option.splits intro!: ledger_inv_update dest: owned_artifact_Some)

lemma ledger_ok_finish: "ledger_ok d \<Longrightarrow> ledger_ok (snd (finish_artifact_deletion d now key claim deleted retry_at))"
  by (auto simp: finish_artifact_deletion_def split: option.splits intro!: ledger_inv_update)

section \<open>The collector\<close>

lemma scan_window_rows: "row \<in> set (scan_window m cursor limit) \<Longrightarrow> row \<in> set m"
  by (auto simp: scan_window_def dest!: in_set_takeD)

lemma scan_window_distinct: "keys_distinct m \<Longrightarrow> distinct (map fst (scan_window m cursor limit))"
  by (simp add: scan_window_def keys_distinct_def distinct_map_filter distinct_map_sort_key flip: take_map)

lemma scan_window_map_of: "keys_distinct m \<Longrightarrow> (k, object) \<in> set (scan_window m cursor limit) \<Longrightarrow> map_of m k = Some object"
  by (drule scan_window_rows) (simp add: keys_distinct_def)

lemma claimable_free: "claimable now abandoned object \<Longrightarrow> ma_references object = 0"
  by (simp add: claimable_def)

lemma claim_pass_key:
  assumes "keys_distinct m"
  shows "map_of (snd (claim_loop fresh now abandoned lease i (scan_window m cursor limit) m)) k = map_of m k
    \<or> (\<exists>object c. map_of m k = Some object \<and> claimable now abandoned object
        \<and> map_of (snd (claim_loop fresh now abandoned lease i (scan_window m cursor limit) m)) k = Some (claimed lease c object))"
proof (cases "k \<in> fst ` set (scan_window m cursor limit)")
  case False
  then show ?thesis by (simp add: claim_loop_other)
next
  case True
  then obtain object where o: "(k, object) \<in> set (scan_window m cursor limit)" by force
  from claim_loop_key [OF scan_window_distinct [OF assms] o, of fresh now abandoned lease i m]
    scan_window_map_of [OF assms o] show ?thesis by (cases "claimable now abandoned object") auto
qed

lemma ledger_inv_claim_loop:
  assumes "ledger_inv snaps stored m"
  shows "ledger_inv snaps stored (snd (claim_loop fresh now abandoned lease i (scan_window m cursor limit) m))"
proof -
  let ?m = "snd (claim_loop fresh now abandoned lease i (scan_window m cursor limit) m)"
  have kd: "keys_distinct m" using assms by (simp add: ledger_inv_def)
  note key = claim_pass_key [OF kd, of fresh now abandoned lease i cursor limit]
  have "refs ?m k = refs m k" for k using key [of k] by (auto simp: refs_def claimed_def)
  moreover have "ma_state object = ObjDeleting \<and> ma_references object = 0"
    if o: "map_of ?m k = Some object" "ma_claim object \<noteq> None" for k object
  proof -
    have claims: "\<And>x. map_of m k = Some x \<Longrightarrow> ma_claim x \<noteq> None \<Longrightarrow> ma_state x = ObjDeleting \<and> ma_references x = 0"
      using assms unfolding ledger_inv_def by blast
    show ?thesis using key [of k] o claims [of object] by (auto simp: claimed_def claimable_free)
  qed
  moreover have "keys_distinct ?m" using kd by (rule keys_distinct_claim_loop)
  ultimately show ?thesis using assms by (auto simp: ledger_inv_def)
qed

lemma ledger_ok_claim: "ledger_ok d \<Longrightarrow> ledger_ok (snd (claim_artifact_deletions d fresh now retention grace limit lease))"
  using ledger_inv_claim_loop [of "md_snapshots d" "md_stored_snapshots d" "md_artifact_objects d"]
  by (simp add: claim_artifact_deletions_def Let_def split_beta)

lemma claim_unreferenced:
  assumes inv: "ledger_ok d"
    and run: "fst (claim_artifact_deletions d fresh now retention grace limit lease) = Inr claims" and c: "c \<in> set claims"
  shows "holders (md_snapshots d) (md_stored_snapshots d) (ad_key c) = {}"
proof -
  let ?m = "md_artifact_objects d"
  have kd: "keys_distinct ?m" using inv by (simp add: ledger_inv_def)
  have "c \<in> set (fst (claim_loop fresh now (now - seconds grace) (now + seconds lease) 0
      (scan_window ?m (md_artifact_scan d) (unat limit)) ?m))"
    using run c by (auto simp: claim_artifact_deletions_def Let_def split_beta split: if_splits)
  from claim_loop_claims [OF this] obtain object where
    "(ad_key c, object) \<in> set (scan_window ?m (md_artifact_scan d) (unat limit))" "claimable now (now - seconds grace) object"
    by blast
  then have "refs ?m (ad_key c) = 0" using scan_window_map_of [OF kd] by (simp add: refs_def claimable_free)
  then show ?thesis using inv by (simp add: ledger_inv_def)
qed

section \<open>Retirement is permanent\<close>

definition retired_key :: "ledger \<Rightarrow> string \<Rightarrow> bool" where
  "retired_key m k \<longleftrightarrow> (case map_of m k of Some object \<Rightarrow> retired (ma_state object) | None \<Rightarrow> False)"

lemma retired_key_update:
  "retired_key m k \<Longrightarrow> (j = k \<Longrightarrow> retired (ma_state object)) \<Longrightarrow> retired_key (AList.update j object m) k"
  by (simp add: retired_key_def)

lemma retired_link:
  assumes "retired_key m k" and "each_r (check_link m) ks = Inr ()"
  shows "retired_key (link_loop tenant now [] ks m) k"
proof -
  have "Some k \<notin> set ks"
  proof
    assume "Some k \<in> set ks"
    then have "check_link m (Some k) = Inr ()" using assms(2) by (auto simp: each_r_Inr)
    with assms(1) show False by (auto simp: check_link_def retired_key_def result_simps split: option.splits)
  qed
  with assms(1) show ?thesis by (simp add: retired_key_def map_of_link_loop)
qed

lemma retired_unlink_one: "unlink_one j m = Inr m' \<Longrightarrow> retired_key m k \<Longrightarrow> retired_key m' k"
  by (auto simp: unlink_one_def retired_key_def split: option.splits if_splits)

lemma retired_unlink: "unlink_loop seen ks m = Inr m' \<Longrightarrow> retired_key m k \<Longrightarrow> retired_key m' k"
  by (induction seen ks m rule: unlink_loop.induct)
    (auto simp: result_simps dest: retired_unlink_one split: option.splits if_splits)

lemma retired_claim_loop:
  "retired_key m k \<Longrightarrow> retired_key (snd (claim_loop fresh now abandoned lease i rows m)) k"
proof (induction rows arbitrary: i m)
  case (Cons row rows)
  then show ?case by (cases row) (simp add: Let_def split_beta retired_key_update retired_def)
qed simp
end
