(* ===== verification/Ledger_Progress.thy ===== *)
theory Ledger_Progress
  imports Ledger_Laws
begin

text \<open>
  The collector inspects a bounded window of the ledger at each pass and continues behind it at the
  next one. Every unreferenced object that may be claimed is reached after a bounded number of passes.
\<close>

section \<open>Progress\<close>

text \<open>The steps number \<open>i\<close>, \<open>i + 1\<close>, \dots, \<open>n\<close> of them, in order.\<close>

fun iterate :: "(nat \<Rightarrow> 's \<Rightarrow> 's) \<Rightarrow> nat \<Rightarrow> nat \<Rightarrow> 's \<Rightarrow> 's" where
  "iterate nxt i 0 s = s"
| "iterate nxt i (Suc n) s = iterate nxt (i + 1) n (nxt i s)"

locale progress_machine =
  fixes wait :: "'s \<Rightarrow> bool"
    and goal :: "'s \<Rightarrow> bool"
    and nxt :: "nat \<Rightarrow> 's \<Rightarrow> 's"
    and distance :: "'s \<Rightarrow> nat"
  assumes progress: "wait s \<Longrightarrow> goal (nxt n s) \<or> wait (nxt n s) \<and> distance (nxt n s) < distance s"
begin

lemma goal_reached: "wait s \<Longrightarrow> \<exists>n \<le> distance s + 1. goal (iterate nxt i n s)"
proof (induction "distance s" arbitrary: s i rule: less_induct)
  case less
  show ?case
  proof (cases "goal (nxt i s)")
    case True
    then have "goal (iterate nxt i 1 s)" by simp
    then show ?thesis by (intro exI [of _ 1]) simp
  next
    case False
    then have n: "wait (nxt i s)" "distance (nxt i s) < distance s" using progress [OF less.prems, of i] by auto
    from less.hyps [OF n(2) n(1), of "i + 1"] obtain n where
      "n \<le> distance (nxt i s) + 1" "goal (iterate nxt (i + 1) n (nxt i s))" by blast
    with n(2) show ?thesis by (intro exI [of _ "Suc n"]) simp
  qed
qed

end

section \<open>One pass of the collector\<close>

text \<open>The keys the cursor has not passed yet, in the order of the ledger.\<close>

definition ahead :: "ledger \<Rightarrow> string option \<Rightarrow> string set" where
  "ahead m cursor = {k \<in> fst ` set m. case cursor of Some c \<Rightarrow> c < k | None \<Rightarrow> True}"

lemma finite_ahead [simp]: "finite (ahead m cursor)"
  by (simp add: ahead_def)

definition rows_ahead :: "ledger \<Rightarrow> string option \<Rightarrow> (string \<times> memory_artifact) list" where
  "rows_ahead m cursor = sort_key fst (filter (\<lambda>(k, _). case cursor of Some c \<Rightarrow> c < k | None \<Rightarrow> True) m)"

lemma scan_window_take: "scan_window m cursor limit = take limit (rows_ahead m cursor)"
  by (simp add: scan_window_def rows_ahead_def)

lemma keys_rows_ahead: "fst ` set (rows_ahead m cursor) = ahead m cursor"
  by (cases cursor) (force simp: rows_ahead_def ahead_def)+

lemma rows_ahead_sorted: "keys_distinct m \<Longrightarrow> sorted_wrt (<) (map fst (rows_ahead m cursor))"
  by (simp add: rows_ahead_def keys_distinct_def strict_sorted_iff distinct_map_sort_key distinct_map_filter)

text \<open>A nonempty window leaves exactly the keys after its last one ahead.\<close>

lemma window_split:
  assumes kd: "keys_distinct m" and ne: "scan_window m cursor limit \<noteq> []"
  defines "W \<equiv> fst ` set (scan_window m cursor limit)"
    and "c \<equiv> fst (last (scan_window m cursor limit))"
  shows "ahead m (Some c) = ahead m cursor - W" and "W \<subseteq> ahead m cursor" and "c \<in> W" and "\<forall>k \<in> W. k \<le> c"
proof -
  let ?w = "scan_window m cursor limit" and ?r = "drop limit (rows_ahead m cursor)"
  have split: "rows_ahead m cursor = ?w @ ?r" by (simp add: scan_window_take)
  have srt: "sorted_wrt (<) (map fst ?w @ map fst ?r)"
    using rows_ahead_sorted [OF kd, of cursor] by (subst (asm) split) simp
  have all: "ahead m cursor = W \<union> fst ` set ?r"
    unfolding keys_rows_ahead [symmetric] W_def by (subst split) (simp add: image_Un)
  show sub: "W \<subseteq> ahead m cursor" using all by blast
  show c: "c \<in> W" using ne by (simp add: c_def W_def)
  show le: "\<forall>k \<in> W. k \<le> c"
  proof
    fix k assume "k \<in> W"
    then have "k \<in> set (map fst ?w)" by (simp add: W_def)
    moreover have "sorted (map fst ?w)" using srt by (simp add: sorted_wrt_append strict_sorted_imp_sorted)
    moreover have "c = last (map fst ?w)" using ne by (simp add: c_def last_map)
    ultimately show "k \<le> c" using ne
      by (metis append_butlast_last_id in_set_conv_decomp last_in_set list.map_disc_iff set_ConsD sorted_append Un_iff set_append list.set_intros(1) order_refl empty_iff list.set(1))
  qed
  have gt: "c < k" if "k \<in> fst ` set ?r" for k
    using srt that c by (auto simp: sorted_wrt_append W_def)
  have past: "cursor = Some b \<Longrightarrow> b < c" for b
    using c sub by (auto simp: ahead_def)
  show "ahead m (Some c) = ahead m cursor - W"
  proof (rule set_eqI)
    fix k
    have "k \<in> ahead m cursor" if "k \<in> ahead m (Some c)"
      using that past by (auto simp: ahead_def split: option.splits intro: less_trans)
    moreover have "k \<notin> W" if "k \<in> ahead m (Some c)" using that le by (auto simp: ahead_def)
    moreover have "k \<in> ahead m (Some c)" if "k \<in> ahead m cursor" "k \<notin> W"
      using that all gt by (auto simp: ahead_def)
    ultimately show "k \<in> ahead m (Some c) \<longleftrightarrow> k \<in> ahead m cursor - W" by blast
  qed
qed

lemma window_first:
  assumes kd: "keys_distinct m" and k: "k \<in> ahead m cursor" "k \<notin> fst ` set (scan_window m cursor limit)"
  shows "\<forall>j \<in> fst ` set (scan_window m cursor limit). j < k"
proof -
  let ?w = "scan_window m cursor limit" and ?r = "drop limit (rows_ahead m cursor)"
  have split: "rows_ahead m cursor = ?w @ ?r" by (simp add: scan_window_take)
  have "k \<in> fst ` set (?w @ ?r)" using k(1) unfolding keys_rows_ahead [symmetric] by (simp only: split [symmetric])
  then have "k \<in> set (map fst ?r)" using k(2) by auto
  moreover have "sorted_wrt (<) (map fst ?w @ map fst ?r)"
    using rows_ahead_sorted [OF kd, of cursor] by (subst (asm) split) simp
  ultimately show ?thesis by (auto simp: sorted_wrt_append)
qed

lemma window_empty:
  assumes "0 < limit" and "scan_window m cursor limit = []"
  shows "ahead m cursor = {}"
  using assms unfolding keys_rows_ahead [symmetric] scan_window_take by simp

lemma claim_loop_keys:
  "fst ` set rows \<subseteq> fst ` set m \<Longrightarrow> map fst (snd (claim_loop fresh now abandoned lease i rows m)) = map fst m"
proof (induction rows arbitrary: i m)
  case (Cons row rows)
  obtain key x where row: "row = (key, x)" by (cases row)
  have key: "key \<in> fst ` set m" using Cons.prems row by auto
  have upd: "map fst (AList.update key y m) = map fst m" for y
    using key by (simp add: update_keys)
  then have "fst ` set rows \<subseteq> fst ` set (AList.update key y m)" for y
    using Cons.prems row by (metis (no_types, lifting) image_set insert_subset list.simps(15) image_insert fst_conv)
  with Cons upd show ?case by (simp add: row Let_def split_beta)
qed simp


section \<open>The collector reaches every unreferenced object\<close>

definition gc_bounds :: "int \<Rightarrow> int \<Rightarrow> u32 \<Rightarrow> int \<Rightarrow> bool" where
  "gc_bounds retention grace limit lease \<longleftrightarrow>
     1 \<le> retention \<and> retention \<le> 315360000 \<and> 600 \<le> grace \<and> grace \<le> 315360000
     \<and> 1 \<le> limit \<and> limit \<le> 1000 \<and> 1 \<le> lease \<and> lease \<le> 3600"

definition gc_pass ::
  "(nat \<Rightarrow> nat \<Rightarrow> uuid) \<Rightarrow> instant \<Rightarrow> int \<Rightarrow> int \<Rightarrow> u32 \<Rightarrow> int \<Rightarrow> nat \<Rightarrow> memory_data \<Rightarrow> memory_data" where
  "gc_pass fresh now retention grace limit lease n d =
     snd (claim_artifact_deletions d (fresh n) now retention grace limit lease)"

definition gc_claimed :: "string \<Rightarrow> memory_data \<Rightarrow> bool" where
  "gc_claimed k d \<longleftrightarrow> (\<exists>object. map_of (md_artifact_objects d) k = Some object
     \<and> ma_state object = ObjDeleting \<and> ma_claim object \<noteq> None)"

definition gc_waiting :: "nat \<Rightarrow> instant \<Rightarrow> int \<Rightarrow> string \<Rightarrow> memory_data \<Rightarrow> bool" where
  "gc_waiting sz now grace k d \<longleftrightarrow>
     keys_distinct (md_artifact_objects d) \<and> length (md_artifact_objects d) = sz
     \<and> (\<exists>object. map_of (md_artifact_objects d) k = Some object \<and> claimable now (now - seconds grace) object)"

text \<open>The keys still to inspect before \<open>k\<close>, one full round more when the cursor is past \<open>k\<close>.\<close>

definition gc_distance :: "nat \<Rightarrow> string \<Rightarrow> memory_data \<Rightarrow> nat" where
  "gc_distance sz k d =
     (let A = ahead (md_artifact_objects d) (md_artifact_scan d)
      in if k \<in> A then card {j \<in> A. j \<le> k} else card A + sz + 1)"

lemma gc_pass_eq:
  assumes "gc_bounds retention grace limit lease"
  shows "gc_pass fresh now retention grace limit lease n d =
    d\<lparr>md_artifact_objects := snd (claim_loop (fresh n) now (now - seconds grace) (now + seconds lease) 0
        (scan_window (md_artifact_objects d) (md_artifact_scan d) (unat limit)) (md_artifact_objects d)),
      md_artifact_scan := (let w = scan_window (md_artifact_objects d) (md_artifact_scan d) (unat limit)
        in if w = [] then None else Some (fst (last w)))\<rparr>"
  using assms by (simp add: gc_pass_def claim_artifact_deletions_def gc_bounds_def Let_def split_beta)

lemma ahead_cong: "map fst m = map fst m' \<Longrightarrow> ahead m c = ahead m' c"
  unfolding ahead_def by (metis list.set_map)

lemma card_ahead: "keys_distinct m \<Longrightarrow> card (ahead m c) \<le> length m"
  by (rule order_trans [OF card_mono [of "fst ` set m"]]) (auto simp: ahead_def intro: order_trans [OF card_image_le card_length])

lemma gc_progress:
  fixes fresh :: "nat \<Rightarrow> nat \<Rightarrow> uuid" and n :: nat
  assumes b: "gc_bounds retention grace limit lease" and w: "gc_waiting sz now grace k d"
  defines "d' \<equiv> gc_pass fresh now retention grace limit lease n d"
  shows "gc_claimed k d' \<or> gc_waiting sz now grace k d' \<and> gc_distance sz k d' < gc_distance sz k d"
proof -
  let ?m = "md_artifact_objects d" and ?c = "md_artifact_scan d"
  let ?w = "scan_window ?m ?c (unat limit)"
  let ?m' = "md_artifact_objects d'" and ?c' = "md_artifact_scan d'"
  from w obtain object where kd: "keys_distinct ?m" and sz: "length ?m = sz"
    and k: "map_of ?m k = Some object" and cl: "claimable now (now - seconds grace) object"
    by (auto simp: gc_waiting_def)
  have m': "?m' = snd (claim_loop (fresh n) now (now - seconds grace) (now + seconds lease) 0 ?w ?m)"
    and c': "?c' = (if ?w = [] then None else Some (fst (last ?w)))"
    unfolding d'_def gc_pass_eq [OF b] by (simp_all add: Let_def)
  have keys: "map fst ?m' = map fst ?m"
    unfolding m' by (rule claim_loop_keys) (use scan_window_rows in fast)
  have pos: "0 < unat limit" using b by (auto simp: gc_bounds_def unat_gt_0)
  show ?thesis
  proof (cases "k \<in> fst ` set ?w")
    case True
    then obtain x where x: "(k, x) \<in> set ?w" by force
    have "x = object" using scan_window_map_of [OF kd x] k by simp
    with claim_loop_key [OF scan_window_distinct [OF kd] x, of "fresh n" now "now - seconds grace" "now + seconds lease" 0 ?m] cl
    have "gc_claimed k d'" by (auto simp: gc_claimed_def m' claimed_def)
    then show ?thesis ..
  next
    case False
    have same: "map_of ?m' k = Some object" unfolding m' using k by (simp add: claim_loop_other [OF False])
    have wait: "gc_waiting sz now grace k d'"
      using kd sz cl same keys length_map [of fst ?m'] length_map [of fst ?m] unfolding gc_waiting_def keys_distinct_def by auto
    have A': "ahead ?m' c = ahead ?m c" for c by (rule ahead_cong [OF keys])
    have kin: "k \<in> fst ` set ?m" using k by (metis map_of_eq_None_iff option.distinct(1))
    have "gc_distance sz k d' < gc_distance sz k d"
    proof (cases "?w = []")
      case True
      then have e: "ahead ?m ?c = {}" using window_empty [OF pos] by blast
      have "k \<in> ahead ?m None" using kin by (simp add: ahead_def)
      moreover have "card {j \<in> ahead ?m None. j \<le> k} \<le> sz"
        using card_ahead [OF kd, of None] sz card_mono [of "ahead ?m None" "{j \<in> ahead ?m None. j \<le> k}"] by auto
      ultimately show ?thesis using True e by (simp add: gc_distance_def A' c')
    next
      case ne: False
      note split = window_split [OF kd ne]
      have A: "ahead ?m ?c' = ahead ?m ?c - fst ` set ?w" using split(1) ne by (simp add: c')
      have less: "card (ahead ?m ?c') < card (ahead ?m ?c)"
        unfolding A using split(2,3) by (intro psubset_card_mono) auto
      show ?thesis
      proof (cases "k \<in> ahead ?m ?c")
        case True
        then have k': "k \<in> ahead ?m ?c'" using A False by simp
        have "fst (last ?w) \<in> {j \<in> ahead ?m ?c. j \<le> k}"
          using split(2,3) window_first [OF kd True False] by (auto simp: less_imp_le)
        moreover have "fst (last ?w) \<notin> ahead ?m ?c'" using A split(3) by simp
        ultimately have "{j \<in> ahead ?m ?c'. j \<le> k} \<subset> {j \<in> ahead ?m ?c. j \<le> k}" using A by blast
        then have "card {j \<in> ahead ?m ?c'. j \<le> k} < card {j \<in> ahead ?m ?c. j \<le> k}"
          by (intro psubset_card_mono) simp_all
        with True k' show ?thesis by (simp add: gc_distance_def A')
      next
        case out: False
        then have "k \<notin> ahead ?m ?c'" using A by simp
        with out less show ?thesis by (simp add: gc_distance_def A')
      qed
    qed
    with wait show ?thesis by blast
  qed
qed

lemma gc_distance_bound: "gc_waiting sz now grace k d \<Longrightarrow> gc_distance sz k d \<le> 2 * sz + 1"
proof -
  assume w: "gc_waiting sz now grace k d"
  let ?A = "ahead (md_artifact_objects d) (md_artifact_scan d)"
  have "card ?A \<le> sz" using card_ahead w by (fastforce simp: gc_waiting_def)
  moreover have "card {j \<in> ?A. j \<le> k} \<le> card ?A" by (rule card_mono) auto
  ultimately show ?thesis by (simp add: gc_distance_def Let_def)
qed

interpretation gc: progress_machine
  "\<lambda>d. gc_bounds retention grace limit lease \<and> gc_waiting sz now grace k d" "gc_claimed k"
  "gc_pass fresh now retention grace limit lease" "gc_distance sz k"
  for retention grace limit lease sz now k fresh
  by unfold_locales (use gc_progress in blast)

text \<open>
  C11. Progress of the garbage collector: an object that may be claimed (no snapshot holds it, its retry
  time and lease have passed, its upload was abandoned) is claimed after at most twice as many passes
  as the ledger has entries, plus two, whatever the cursor and however small the window, so entries
  that are protected never starve what sorts behind them.
\<close>

theorem collector_reaches_garbage:
  assumes "gc_bounds retention grace limit lease"
    and "keys_distinct (md_artifact_objects d)"
    and "map_of (md_artifact_objects d) k = Some object" and "claimable now (now - seconds grace) object"
  shows "\<exists>n \<le> 2 * length (md_artifact_objects d) + 2.
    gc_claimed k (iterate (gc_pass fresh now retention grace limit lease) 0 n d)"
proof -
  let ?sz = "length (md_artifact_objects d)"
  have w: "gc_waiting ?sz now grace k d" using assms by (auto simp: gc_waiting_def)
  with assms(1) obtain n where "n \<le> gc_distance ?sz k d + 1"
    "gc_claimed k (iterate (gc_pass fresh now retention grace limit lease) 0 n d)"
    using gc.goal_reached by blast
  with gc_distance_bound [OF w] show ?thesis by (intro exI [of _ n]) simp
qed

definition sample_garbage :: memory_data where
  "sample_garbage = empty_memory\<lparr>md_artifact_objects := [(''b'', new_artifact 1 ObjPending 0),
     (''a'', (new_artifact 1 ObjAvailable 0)\<lparr>ma_references := 1\<rparr>)]\<rparr>"

theorem collector_reaches_garbage_witness:
  "\<exists>n \<le> 6. gc_claimed ''b'' (iterate (gc_pass (\<lambda>n i. 7) 2000000000000 3600 600 1 300) 0 n sample_garbage)"
proof -
  have "gc_bounds 3600 600 1 300" by (simp add: gc_bounds_def)
  moreover have "keys_distinct (md_artifact_objects sample_garbage)"
    by (simp add: sample_garbage_def keys_distinct_def)
  moreover have "map_of (md_artifact_objects sample_garbage) ''b'' = Some (new_artifact 1 ObjPending 0)"
    by (simp add: sample_garbage_def)
  moreover have "claimable 2000000000000 (2000000000000 - seconds 600) (new_artifact 1 ObjPending 0)"
    by (simp add: claimable_def new_artifact_def seconds_def)
  ultimately have "\<exists>n \<le> 2 * length (md_artifact_objects sample_garbage) + 2.
      gc_claimed ''b'' (iterate (gc_pass (\<lambda>n i. 7) 2000000000000 3600 600 1 300) 0 n sample_garbage)"
    by (rule collector_reaches_garbage)
  then show ?thesis by (simp add: sample_garbage_def)
qed

end
