(* ===== verification/Mem_Guard.thy ===== *)
theory Mem_Guard
  imports Mem_Store "HOL-Library.Sublist"
begin

text \<open>
  The Guard operations of the in-memory metadata store (\<^verbatim>\<open>aiec-storage/src/guard.rs\<close>): budgets and
  their fences, incidents, the quarantine latch, the policy of a sandbox and policy proposals. The
  event hash and texts are the argument \<open>tx\<close>; each clock read is an argument.
\<close>

section \<open>Budgets\<close>

definition initialize :: "guard_budget_state option \<Rightarrow> guard_budget_state \<Rightarrow> store_error + guard_budget_state" where
  "initialize existing state =
     (case existing of
        Some old \<Rightarrow>
          if gi_sandbox_id (gb_identity old) \<noteq> gi_sandbox_id (gb_identity state)
            \<or> gi_tenant_id (gb_identity old) \<noteq> gi_tenant_id (gb_identity state)
            \<or> gb_expires_at old \<noteq> gb_expires_at state
            \<or> gb_max_model_requests old \<noteq> gb_max_model_requests state
            \<or> gb_max_bytes_in old \<noteq> gb_max_bytes_in state
            \<or> gb_max_bytes_out old \<noteq> gb_max_bytes_out state
          then Inl (StoreConflict ''Guard budget ownership, caps and expiration are immutable'')
          else Inr (old\<lparr>gb_identity := (gb_identity old)\<lparr>gi_policy_hash := gi_policy_hash (gb_identity state)\<rparr>\<rparr>)
      | None \<Rightarrow>
          if gb_model_requests state \<noteq> 0 \<or> gb_bytes_in state \<noteq> 0 \<or> gb_bytes_out state \<noteq> 0 \<or> gb_quarantined state
          then Inl (StoreConflict ''Guard budget must initialize with zero usage and no quarantine'')
          else Inr state)"

definition validate_fence :: "worker_lease \<Rightarrow> guard_fence \<Rightarrow> instant \<Rightarrow> store_error + unit" where
  "validate_fence lease fence now =
     (if wl_id lease \<noteq> gf_lease_id fence \<or> wl_status lease \<noteq> ''active'' \<or> wl_expires_at lease \<le> now
      then Inl (StoreConflict ''Guard fence has no current active unexpired lease'')
      else if gf_generation fence \<le> 0 \<or> wl_generation lease < gf_generation fence
      then Inl (StoreConflict ''Guard fence generation was never issued'')
      else Inr ())"

definition add_within :: "u64 \<Rightarrow> u64 \<Rightarrow> u64 \<Rightarrow> store_error + u64" where
  "add_within used amount cap =
     ok_or (case checked_add_w used amount of
              Some next \<Rightarrow> if next \<le> cap then Some next else None
            | None \<Rightarrow> None)
       (StoreQuotaExceeded ''Guard model budget exhausted or overflowed'')"

definition reserve ::
  "guard_budget_state \<Rightarrow> sandbox \<Rightarrow> guard_identity \<Rightarrow> budget_debit \<Rightarrow> instant \<Rightarrow> store_error + guard_budget_state" where
  "reserve state sandbox identity debit now =
     (if gb_identity state \<noteq> identity then Inl (StoreConflict ''Guard policy identity mismatch'')
      else if gb_quarantined state then Inl (StoreConflict ''Guard sandbox is quarantined'')
      else if \<not> consumes (sb_state sandbox) then Inl (StoreConflict ''Guard sandbox is not active'')
      else if gb_expires_at state \<le> now then Inl (StoreQuotaExceeded ''Guard sandbox lifetime expired'')
      else
        bind_r (add_within (gb_model_requests state) (bd_model_requests debit) (gb_max_model_requests state))
          (\<lambda>model_requests.
        bind_r (add_within (gb_bytes_in state) (bd_bytes_in debit) (gb_max_bytes_in state)) (\<lambda>bytes_in.
        bind_r (add_within (gb_bytes_out state) (bd_bytes_out debit) (gb_max_bytes_out state)) (\<lambda>bytes_out.
          Inr (state\<lparr>gb_model_requests := model_requests, gb_bytes_in := bytes_in,
            gb_bytes_out := bytes_out\<rparr>)))))"

definition budget_expired :: "guard_budget_state \<Rightarrow> instant \<Rightarrow> bool" where
  "budget_expired state now \<longleftrightarrow>
     \<not> gb_quarantined state
     \<and> (gb_expires_at state \<le> now
        \<or> gb_max_model_requests state \<le> gb_model_requests state
        \<or> gb_max_bytes_in state \<le> gb_bytes_in state
        \<or> gb_max_bytes_out state \<le> gb_bytes_out state)"

section \<open>Incidents\<close>

abbreviation evidence_invalid :: store_error where
  "evidence_invalid \<equiv> StoreConflict ''Guard incident evidence chain or anchor is invalid''"

text \<open>The loop over the events; it returns the hash of the last one.\<close>

fun evidence_loop :: "texts \<Rightarrow> guard_identity \<Rightarrow> string \<Rightarrow> guard_event list \<Rightarrow> store_error + string" where
  "evidence_loop tx identity previous [] = Inr previous"
| "evidence_loop tx identity previous (event # events) =
     (if in_sandbox_id (ev_input event) \<noteq> gi_sandbox_id identity
        \<or> in_tenant_id (ev_input event) \<noteq> gi_tenant_id identity
        \<or> in_policy_hash (ev_input event) \<noteq> gi_policy_hash identity
        \<or> ev_previous_hash event \<noteq> previous
      then Inl evidence_invalid
      else then_r (map_err (\<lambda>_. evidence_invalid) (verify_bounds tx event))
        (then_r (map_err (\<lambda>_. evidence_invalid) (verify_self_hash tx event))
          (evidence_loop tx identity (ev_current_hash event) events)))"

definition last_sequence :: "u64 \<Rightarrow> u64 \<Rightarrow> u64 option" where
  "last_sequence start count =
     (case checked_add_w start count of
        Some n \<Rightarrow> if n = 0 then None else Some (n - 1)
      | None \<Rightarrow> None)"

definition validate_incident_evidence :: "texts \<Rightarrow> guard_incident \<Rightarrow> store_error + unit" where
  "validate_incident_evidence tx incident =
     (if 2 ^ 64 \<le> length (ic_events incident) then Inl evidence_invalid
      else if ic_event_start_sequence incident = 0
        \<or> last_sequence (ic_event_start_sequence incident) (of_nat (length (ic_events incident)))
            \<noteq> Some (ic_event_sequence incident)
      then Inl evidence_invalid
      else if \<not> is_sha256_hex (ic_event_previous_hash incident) then Inl evidence_invalid
      else bind_r (evidence_loop tx (ic_identity incident) (ic_event_previous_hash incident) (ic_events incident))
        (\<lambda>previous. if ic_event_head incident \<noteq> previous then Inl evidence_invalid else Inr ()))"

definition or_else :: "'a option \<Rightarrow> 'a option \<Rightarrow> 'a option" where
  "or_else a b = (case a of Some _ \<Rightarrow> a | None \<Rightarrow> b)"

text \<open>The loop that pushes each element that is not there yet.\<close>

definition push_missing :: "'a list \<Rightarrow> 'a list \<Rightarrow> 'a list" where
  "push_missing have_rows new_rows = fold (\<lambda>x acc. if x \<in> set acc then acc else acc @ [x]) new_rows have_rows"

definition merge_progress :: "guard_incident \<Rightarrow> guard_incident \<Rightarrow> guard_incident" where
  "merge_progress old incoming =
     (let r = old\<lparr>ic_network_cut_at := or_else (ic_network_cut_at old) (ic_network_cut_at incoming),
            ic_paused_at := or_else (ic_paused_at old) (ic_paused_at incoming),
            ic_snapshot_id := or_else (ic_snapshot_id old) (ic_snapshot_id incoming),
            ic_completed_at := ic_completed_at incoming\<rparr>;
          r = (if length (ic_events old) < length (ic_events incoming)
               then r\<lparr>ic_events := ic_events incoming, ic_event_sequence := ic_event_sequence incoming,
                      ic_event_head := ic_event_head incoming\<rparr>
               else r);
          r = r\<lparr>ic_rules := push_missing (ic_rules r) (ic_rules incoming)\<rparr>
      in if ic_report incoming \<noteq> [] then r\<lparr>ic_report := ic_report incoming\<rparr> else r)"

definition merge_existing :: "guard_incident \<Rightarrow> guard_incident \<Rightarrow> store_error + guard_incident" where
  "merge_existing old incoming =
     (if ic_identity old \<noteq> ic_identity incoming
        \<or> gf_lease_id (ic_fence old) \<noteq> gf_lease_id (ic_fence incoming)
      then Inl (StoreConflict ''Guard incident identity and owning lease are immutable'')
      else if ic_snapshot_id old \<noteq> None \<and> ic_snapshot_id incoming \<noteq> None
        \<and> ic_snapshot_id old \<noteq> ic_snapshot_id incoming
      then Inl (StoreConflict ''Guard incident snapshot is immutable once recorded'')
      else if \<not> prefix (ic_events old) (ic_events incoming) \<and> \<not> prefix (ic_events incoming) (ic_events old)
      then Inl (StoreConflict ''Guard incident evidence cannot be rewritten'')
      else if ic_event_start_sequence old \<noteq> ic_event_start_sequence incoming
        \<or> ic_event_previous_hash old \<noteq> ic_event_previous_hash incoming
        \<or> length (ic_events old) = length (ic_events incoming)
          \<and> (ic_event_sequence old \<noteq> ic_event_sequence incoming \<or> ic_event_head old \<noteq> ic_event_head incoming)
      then Inl (StoreConflict ''Guard incident evidence anchors cannot be rewritten'')
      else
        let r = (if ic_completed_at old = None then merge_progress old incoming else old)
        in Inr (r\<lparr>ic_notified_at := or_else (ic_notified_at old) (ic_notified_at incoming),
             ic_errors := push_missing (ic_errors r) (ic_errors incoming)\<rparr>))"

definition merge_incident :: "texts \<Rightarrow> guard_incident option \<Rightarrow> guard_incident \<Rightarrow> store_error + guard_incident" where
  "merge_incident tx existing incoming =
     then_r (validate_incident_evidence tx incoming)
     (bind_r (case existing of None \<Rightarrow> Inr incoming | Some old \<Rightarrow> merge_existing old incoming) (\<lambda>r.
        if ic_completed_at r \<noteq> None
          \<and> (ic_network_cut_at r = None \<or> ic_paused_at r = None
             \<or> (case ic_snapshot_id r of None \<Rightarrow> True | Some i \<Rightarrow> i = []) \<or> ic_report r = [])
        then Inl (StoreConflict ''Guard incident cannot complete before cut, pause, preservation and report'')
        else Inr (case existing of Some old \<Rightarrow> r\<lparr>ic_fence := ic_fence old\<rparr> | None \<Rightarrow> r)))"

section \<open>Operations of the store\<close>

text \<open>The first active lease of the sandbox in the order the map is iterated in.\<close>

definition memory_lease :: "memory_data \<Rightarrow> instant \<Rightarrow> uuid \<Rightarrow> uuid \<Rightarrow> guard_fence \<Rightarrow> store_error + unit" where
  "memory_lease d now tenant i fence =
     bind_r (ok_or (find (\<lambda>l. wl_tenant_id l = tenant \<and> wl_sandbox_id l = i \<and> wl_status l = ''active'')
         (values_of (md_leases d)))
       (StoreConflict ''Guard sandbox has no active lease''))
     (\<lambda>lease. validate_fence lease fence now)"

definition put_guard_budget ::
  "memory_data \<Rightarrow> guard_budget_state \<Rightarrow> (store_error + guard_budget_state) \<times> memory_data" where
  "put_guard_budget d state =
     (case bind_r (owned d (gi_tenant_id (gb_identity state)) (gi_sandbox_id (gb_identity state))) (\<lambda>sandbox.
             bind_r (initialize (map_of (md_guard_budgets d) (sb_id sandbox)) state) (\<lambda>state.
               Inr (sandbox, state))) of
        Inl e \<Rightarrow> (Inl e, d)
      | Inr (sandbox, state) \<Rightarrow>
          let state = (if sb_state sandbox = Quarantined then state\<lparr>gb_quarantined := True\<rparr> else state)
          in (Inr state, d\<lparr>md_guard_budgets := AList.update (sb_id sandbox) state (md_guard_budgets d)\<rparr>))"

definition get_guard_budget :: "memory_data \<Rightarrow> uuid \<Rightarrow> uuid \<Rightarrow> store_error + guard_budget_state" where
  "get_guard_budget d tenant i =
     bind_r (owned d tenant i) (\<lambda>_. ok_or (map_of (md_guard_budgets d) i) RecordNotFound)"

definition reserve_guard_budget ::
  "memory_data \<Rightarrow> instant \<Rightarrow> instant \<Rightarrow> guard_identity \<Rightarrow> guard_fence \<Rightarrow> budget_debit
    \<Rightarrow> (store_error + guard_budget_state) \<times> memory_data" where
  "reserve_guard_budget d now later identity fence debit =
     (case bind_r (owned d (gi_tenant_id identity) (gi_sandbox_id identity)) (\<lambda>sandbox.
             then_r (memory_lease d now (gi_tenant_id identity) (gi_sandbox_id identity) fence)
             (bind_r (ok_or (map_of (md_guard_budgets d) (sb_id sandbox)) RecordNotFound) (\<lambda>state.
              bind_r (reserve state sandbox identity debit later) (\<lambda>result. Inr (sandbox, result))))) of
        Inl e \<Rightarrow> (Inl e, d)
      | Inr (sandbox, result) \<Rightarrow>
          (Inr result, d\<lparr>md_guard_budgets := AList.update (sb_id sandbox) result (md_guard_budgets d)\<rparr>))"

definition put_guard_incident ::
  "texts \<Rightarrow> memory_data \<Rightarrow> instant \<Rightarrow> guard_incident \<Rightarrow> (store_error + guard_incident) \<times> memory_data" where
  "put_guard_incident tx d now incident =
     (let identity = ic_identity incident; i = gi_sandbox_id identity
      in case bind_r (owned d (gi_tenant_id identity) i) (\<lambda>_.
             then_r (memory_lease d now (gi_tenant_id identity) i (ic_fence incident))
             (bind_r (ok_or (map_of (md_guard_budgets d) i) RecordNotFound) (\<lambda>budget.
              if gb_identity budget \<noteq> identity then Inl (StoreConflict ''Guard policy identity mismatch'')
              else merge_incident tx (map_of (md_guard_incidents d) i) incident))) of
           Inl e \<Rightarrow> (Inl e, d)
         | Inr result \<Rightarrow>
             (Inr result, d\<lparr>md_guard_incidents := AList.update i result (md_guard_incidents d)\<rparr>))"

definition get_guard_incident :: "memory_data \<Rightarrow> uuid \<Rightarrow> uuid \<Rightarrow> store_error + guard_incident" where
  "get_guard_incident d tenant i =
     bind_r (owned d tenant i) (\<lambda>_. ok_or (map_of (md_guard_incidents d) i) RecordNotFound)"

definition reapable :: "memory_data \<Rightarrow> instant \<Rightarrow> guard_budget_state \<Rightarrow> bool" where
  "reapable d now state \<longleftrightarrow>
     (case map_of (md_sandboxes d) (gi_sandbox_id (gb_identity state)) of
        None \<Rightarrow> False
      | Some sandbox \<Rightarrow>
          consumes (sb_state sandbox)
          \<and> list_ex (\<lambda>l. wl_tenant_id l = gi_tenant_id (gb_identity state)
                \<and> wl_sandbox_id l = gi_sandbox_id (gb_identity state)
                \<and> wl_status l = ''active'' \<and> now < wl_expires_at l)
              (values_of (md_leases d)))"

definition list_expired_guard_budgets :: "memory_data \<Rightarrow> instant \<Rightarrow> nat \<Rightarrow> guard_budget_state list" where
  "list_expired_guard_budgets d now limit =
     take limit (sort_key (\<lambda>state. gi_sandbox_id (gb_identity state))
       (filter (reapable d now) (filter (\<lambda>state. budget_expired state now) (values_of (md_guard_budgets d)))))"

definition mark_guard_quarantined ::
  "memory_data \<Rightarrow> instant \<Rightarrow> instant \<Rightarrow> uuid \<Rightarrow> uuid \<Rightarrow> guard_fence \<Rightarrow> (store_error + sandbox) \<times> memory_data" where
  "mark_guard_quarantined d now later tenant i fence =
     (case bind_r (owned d tenant i) (\<lambda>sandbox.
             then_r (memory_lease d now tenant i fence)
             (if sb_state sandbox \<noteq> Quarantined \<and> \<not> can_transition_to (sb_state sandbox) Quarantined
              then Inl (StoreConflict ''sandbox cannot be quarantined'')
              else bind_r (ok_or (map_of (md_guard_budgets d) i) RecordNotFound) (\<lambda>budget.
                Inr (sandbox, budget)))) of
        Inl e \<Rightarrow> (Inl e, d)
      | Inr (sandbox, budget) \<Rightarrow>
          let d = d\<lparr>md_guard_budgets := AList.update i (budget\<lparr>gb_quarantined := True\<rparr>) (md_guard_budgets d)\<rparr>
          in if sb_state sandbox \<noteq> Quarantined
             then let sandbox = sandbox\<lparr>sb_state := Quarantined, sb_updated_at := later\<rparr>
                  in (Inr sandbox, d\<lparr>md_sandboxes := AList.update i sandbox (md_sandboxes d)\<rparr>)
             else (Inr sandbox, d))"

definition update_guard_policy ::
  "memory_data \<Rightarrow> instant \<Rightarrow> uuid \<Rightarrow> uuid \<Rightarrow> guard_config \<Rightarrow> string \<Rightarrow> (store_error + unit) \<times> memory_data" where
  "update_guard_policy d now tenant i guard policy_hash =
     (case owned d tenant i of
        Inl e \<Rightarrow> (Inl e, d)
      | Inr row \<Rightarrow>
          let row = row\<lparr>sb_environment := (sb_environment row)\<lparr>es_guard := Some guard,
                es_guard_policy_hash := Some policy_hash\<rparr>, sb_updated_at := now\<rparr>
          in (Inr (), d\<lparr>md_sandboxes := AList.update i row (md_sandboxes d)\<rparr>))"

definition release_guard_quarantine ::
  "memory_data \<Rightarrow> instant \<Rightarrow> uuid \<Rightarrow> uuid \<Rightarrow> string \<Rightarrow> (store_error + sandbox) \<times> memory_data" where
  "release_guard_quarantine d now tenant i released_by =
     (case owned d tenant i of
        Inl e \<Rightarrow> (Inl e, d)
      | Inr row \<Rightarrow>
          if sb_state row \<noteq> Quarantined then (Inl (StoreConflict ''sandbox is not quarantined''), d)
          else
            let row = row\<lparr>sb_state := Paused, sb_updated_at := now\<rparr>;
                d = d\<lparr>md_sandboxes := AList.update i row (md_sandboxes d)\<rparr>
            in (Inr row, case map_of (md_guard_budgets d) i of
                  Some budget \<Rightarrow>
                    d\<lparr>md_guard_budgets := AList.update i (budget\<lparr>gb_quarantined := False\<rparr>) (md_guard_budgets d)\<rparr>
                | None \<Rightarrow> d))"

section \<open>Proposals\<close>

text \<open>\<^verbatim>\<open>entry(id).or_insert(proposal)\<close> comes before the checks, so a first proposal is stored as given.\<close>

definition put_guard_proposal ::
  "memory_data \<Rightarrow> guard_proposal \<Rightarrow> (store_error + guard_proposal) \<times> memory_data" where
  "put_guard_proposal d proposal =
     (case owned d (gr_tenant_id proposal) (gr_sandbox_id proposal) of
        Inl e \<Rightarrow> (Inl e, d)
      | Inr _ \<Rightarrow>
          let stored = (case map_of (md_guard_proposals d) (gr_id proposal) of Some p \<Rightarrow> p | None \<Rightarrow> proposal);
              d = d\<lparr>md_guard_proposals := AList.update (gr_id proposal) stored (md_guard_proposals d)\<rparr>
          in if gr_sandbox_id stored \<noteq> gr_sandbox_id proposal \<or> gr_tenant_id stored \<noteq> gr_tenant_id proposal
               \<or> gr_agent_id stored \<noteq> gr_agent_id proposal
               \<or> gr_base_policy_hash stored \<noteq> gr_base_policy_hash proposal
               \<or> gr_request stored \<noteq> gr_request proposal \<or> gr_created_at stored \<noteq> gr_created_at proposal
             then (Inl (StoreConflict ''a policy proposal cannot change what it asked for''), d)
             else if gr_state stored \<noteq> ProposalPending then (Inr stored, d)
             else if gr_state proposal \<noteq> ProposalPending
               \<and> (gr_decided_by proposal = None \<or> gr_decided_at proposal = None)
             then (Inl (StoreConflict ''a decided policy proposal requires an operator and a time''), d)
             else (Inr proposal,
               d\<lparr>md_guard_proposals := AList.update (gr_id proposal) proposal (md_guard_proposals d)\<rparr>))"

definition proposal_key :: "guard_proposal \<Rightarrow> instant \<times> uuid" where
  "proposal_key row = (gr_created_at row, gr_id row)"

definition list_guard_proposals ::
  "memory_data \<Rightarrow> uuid \<Rightarrow> uuid \<Rightarrow> u32 \<Rightarrow> page_cursor option
    \<Rightarrow> store_error + (guard_proposal list \<times> page_cursor option)" where
  "list_guard_proposals d tenant sandbox limit after =
     bind_r (owned d tenant sandbox) (\<lambda>_.
       let rows = filter (\<lambda>row. after_cursor after (proposal_key row))
             (filter (\<lambda>row. gr_tenant_id row = tenant \<and> gr_sandbox_id row = sandbox)
               (values_of (md_guard_proposals d)))
       in Inr (page (sort_newest_first proposal_key rows) (clamp_page limit) proposal_key))"

definition get_guard_proposal ::
  "memory_data \<Rightarrow> uuid \<Rightarrow> uuid \<Rightarrow> uuid \<Rightarrow> store_error + guard_proposal" where
  "get_guard_proposal d tenant sandbox i =
     bind_r (owned d tenant sandbox) (\<lambda>_. ok_or (map_of (md_guard_proposals d) i) RecordNotFound)"

end
