(* ===== verification/Guard_Laws.thy ===== *)
theory Guard_Laws
  imports Mem_Guard
begin

text \<open>
  Laws of the Guard rows: the quarantine latch of a budget agrees with the state of its sandbox, the
  counters stay within caps, and an incident only grows, with evidence that always verifies.
\<close>

section \<open>The latch and the caps\<close>

definition within_caps :: "guard_budget_state \<Rightarrow> bool" where
  "within_caps b \<longleftrightarrow> gb_model_requests b \<le> gb_max_model_requests b
     \<and> gb_bytes_in b \<le> gb_max_bytes_in b \<and> gb_bytes_out b \<le> gb_max_bytes_out b"

definition budget_row_ok :: "(uuid \<times> sandbox) list \<Rightarrow> uuid \<Rightarrow> guard_budget_state \<Rightarrow> bool" where
  "budget_row_ok sandboxes i b \<longleftrightarrow>
     (\<exists>s. map_of sandboxes i = Some s \<and> gi_sandbox_id (gb_identity b) = i
        \<and> gi_tenant_id (gb_identity b) = sb_tenant_id s \<and> (gb_quarantined b \<longleftrightarrow> sb_state s = Quarantined))
     \<and> within_caps b"

definition guard_inv :: "(uuid \<times> sandbox) list \<Rightarrow> (uuid \<times> guard_budget_state) list \<Rightarrow> bool" where
  "guard_inv sandboxes budgets \<longleftrightarrow>
     (\<forall>i s. map_of sandboxes i = Some s \<longrightarrow> sb_id s = i)
     \<and> (\<forall>i b. map_of budgets i = Some b \<longrightarrow> budget_row_ok sandboxes i b)"

abbreviation guard_ok :: "memory_data \<Rightarrow> bool" where
  "guard_ok d \<equiv> guard_inv (md_sandboxes d) (md_guard_budgets d)"

lemma guard_inv_id: "guard_inv sandboxes budgets \<Longrightarrow> map_of sandboxes i = Some s \<Longrightarrow> sb_id s = i"
  by (simp add: guard_inv_def)

lemma guard_inv_row: "guard_inv sandboxes budgets \<Longrightarrow> map_of budgets i = Some b \<Longrightarrow> budget_row_ok sandboxes i b"
  by (simp add: guard_inv_def)

lemma guard_inv_sandbox:
  assumes inv: "guard_inv sandboxes budgets" and s: "map_of sandboxes i = Some s"
    and s': "sb_id s' = sb_id s" "sb_tenant_id s' = sb_tenant_id s" "sb_state s' = Quarantined \<longleftrightarrow> sb_state s = Quarantined"
  shows "guard_inv (AList.update i s' sandboxes) budgets"
  unfolding guard_inv_def
proof (intro conjI allI impI)
  fix j x assume "map_of (AList.update i s' sandboxes) j = Some x"
  then show "sb_id x = j" using guard_inv_id [OF inv] s s'(1) by (auto split: if_splits)
next
  fix j b assume "map_of budgets j = Some b"
  from guard_inv_row [OF inv this] show "budget_row_ok (AList.update i s' sandboxes) j b"
    using s s' by (auto simp: budget_row_ok_def)
qed

lemma guard_inv_budget:
  assumes inv: "guard_inv sandboxes budgets" and b: "budget_row_ok sandboxes i b"
  shows "guard_inv sandboxes (AList.update i b budgets)"
  using assms by (auto simp: guard_inv_def)

lemma guard_inv_both:
  assumes inv: "guard_inv sandboxes budgets" and s: "map_of sandboxes i = Some s" and b: "map_of budgets i = Some b"
  shows "guard_inv (AList.update i (s\<lparr>sb_state := st, sb_updated_at := t\<rparr>) sandboxes)
    (AList.update i (b\<lparr>gb_quarantined := (st = Quarantined)\<rparr>) budgets)"
  unfolding guard_inv_def
proof (intro conjI allI impI)
  fix j x assume "map_of (AList.update i (s\<lparr>sb_state := st, sb_updated_at := t\<rparr>) sandboxes) j = Some x"
  then show "sb_id x = j" using guard_inv_id [OF inv] s by (auto split: if_splits)
next
  fix j x assume "map_of (AList.update i (b\<lparr>gb_quarantined := (st = Quarantined)\<rparr>) budgets) j = Some x"
  then show "budget_row_ok (AList.update i (s\<lparr>sb_state := st, sb_updated_at := t\<rparr>) sandboxes) j x"
    using guard_inv_row [OF inv, of j] guard_inv_row [OF inv b] s
    by (auto simp: budget_row_ok_def within_caps_def split: if_splits)
qed

lemma no_exit_from_quarantine: "\<not> can_transition_to Quarantined s"
  by (simp add: can_transition_to_def)

lemma guard_ok_create: "guard_ok d \<Longrightarrow> guard_ok (snd (create_sandbox d v))"
  unfolding guard_inv_def create_sandbox_def budget_row_ok_def by (auto split: if_splits; force)

lemma guard_ok_update_state:
  assumes "guard_ok d"
  shows "guard_ok (snd (update_state d now tenant i expected next path))"
  using assms
  by (auto simp: update_state_def result_simps Let_def no_exit_from_quarantine split: sum.splits
      intro!: guard_inv_sandbox)

lemma guard_ok_delete_sandbox: "guard_ok d \<Longrightarrow> guard_ok (snd (delete_sandbox d now tenant i))"
  by (auto simp: delete_sandbox_def result_simps split: sum.splits intro!: guard_inv_sandbox)

lemma guard_ok_update_policy: "guard_ok d \<Longrightarrow> guard_ok (snd (update_guard_policy d now tenant i guard h))"
  by (auto simp: update_guard_policy_def result_simps Let_def split: sum.splits intro!: guard_inv_sandbox)

lemma add_within_Inr: "add_within used amount cap = Inr n \<longleftrightarrow> checked_add_w used amount = Some n \<and> n \<le> cap"
  by (auto simp: add_within_def ok_or_def split: option.splits if_splits)

lemma reserve_Inr:
  assumes "reserve b s identity debit now = Inr r"
  shows "gb_identity b = identity" "\<not> gb_quarantined b" "consumes (sb_state s)" "now < gb_expires_at b"
    and "r = b\<lparr>gb_model_requests := gb_model_requests r, gb_bytes_in := gb_bytes_in r, gb_bytes_out := gb_bytes_out r\<rparr>"
    and "checked_add_w (gb_model_requests b) (bd_model_requests debit) = Some (gb_model_requests r)"
    and "checked_add_w (gb_bytes_in b) (bd_bytes_in debit) = Some (gb_bytes_in r)"
    and "checked_add_w (gb_bytes_out b) (bd_bytes_out debit) = Some (gb_bytes_out r)"
    and "within_caps r"
  using assms by (auto simp: reserve_def result_simps add_within_Inr within_caps_def split: if_splits)

lemma guard_ok_put_budget:
  assumes inv: "guard_ok d"
  shows "guard_ok (snd (put_guard_budget d state))"
proof (cases "bind_r (owned d (gi_tenant_id (gb_identity state)) (gi_sandbox_id (gb_identity state))) (\<lambda>sandbox.
             bind_r (initialize (map_of (md_guard_budgets d) (sb_id sandbox)) state) (\<lambda>state. Inr (sandbox, state)))")
  case (Inl e)
  then show ?thesis using inv by (simp add: put_guard_budget_def)
next
  case (Inr p)
  then obtain s b where p: "p = (s, b)" and s: "map_of (md_sandboxes d) (gi_sandbox_id (gb_identity state)) = Some s"
    and tenant: "sb_tenant_id s = gi_tenant_id (gb_identity state)"
    and b: "initialize (map_of (md_guard_budgets d) (sb_id s)) state = Inr b"
    by (auto simp: result_simps)
  have i: "sb_id s = gi_sandbox_id (gb_identity state)" using guard_inv_id [OF inv s] .
  let ?b = "if sb_state s = Quarantined then b\<lparr>gb_quarantined := True\<rparr> else b"
  have "budget_row_ok (md_sandboxes d) (sb_id s) ?b"
  proof (cases "map_of (md_guard_budgets d) (sb_id s)")
    case None
    with b s i tenant show ?thesis
      by (auto simp: initialize_def budget_row_ok_def within_caps_def split: if_splits)
  next
    case (Some old)
    with guard_inv_row [OF inv Some] b s i tenant show ?thesis
      by (auto simp: initialize_def budget_row_ok_def within_caps_def split: if_splits)
  qed
  from guard_inv_budget [OF inv this] show ?thesis using Inr p by (simp add: put_guard_budget_def Let_def)
qed

lemma reserve_guard_budget_Inr:
  assumes "fst (reserve_guard_budget d now later identity fence debit) = Inr r"
  obtains s b where "map_of (md_sandboxes d) (gi_sandbox_id identity) = Some s" "sb_tenant_id s = gi_tenant_id identity"
    "memory_lease d now (gi_tenant_id identity) (gi_sandbox_id identity) fence = Inr ()"
    "map_of (md_guard_budgets d) (sb_id s) = Some b" "reserve b s identity debit later = Inr r"
    "snd (reserve_guard_budget d now later identity fence debit) =
       d\<lparr>md_guard_budgets := AList.update (sb_id s) r (md_guard_budgets d)\<rparr>"
proof -
  let ?c = "bind_r (owned d (gi_tenant_id identity) (gi_sandbox_id identity)) (\<lambda>sandbox.
             then_r (memory_lease d now (gi_tenant_id identity) (gi_sandbox_id identity) fence)
             (bind_r (ok_or (map_of (md_guard_budgets d) (sb_id sandbox)) RecordNotFound) (\<lambda>state.
              bind_r (reserve state sandbox identity debit later) (\<lambda>result. Inr (sandbox, result)))))"
  obtain s where c: "?c = Inr (s, r)"
    using assms by (cases ?c) (auto simp only: reserve_guard_budget_def sum.case fst_conv sum.inject sum.distinct split: prod.splits)
  have "snd (reserve_guard_budget d now later identity fence debit) =
      d\<lparr>md_guard_budgets := AList.update (sb_id s) r (md_guard_budgets d)\<rparr>"
    by (simp only: reserve_guard_budget_def c sum.case prod.case snd_conv)
  moreover from c obtain b where "map_of (md_sandboxes d) (gi_sandbox_id identity) = Some s"
    "sb_tenant_id s = gi_tenant_id identity"
    "memory_lease d now (gi_tenant_id identity) (gi_sandbox_id identity) fence = Inr ()"
    "map_of (md_guard_budgets d) (sb_id s) = Some b" "reserve b s identity debit later = Inr r"
    by (auto simp: result_simps)
  ultimately show thesis by (rule that [rotated -1])
qed

lemma reserve_guard_budget_Inl:
  "fst (reserve_guard_budget d now later identity fence debit) = Inl e \<Longrightarrow>
     snd (reserve_guard_budget d now later identity fence debit) = d"
  by (auto simp: reserve_guard_budget_def split: sum.splits)

lemma guard_ok_reserve_budget:
  assumes inv: "guard_ok d"
  shows "guard_ok (snd (reserve_guard_budget d now later identity fence debit))"
proof (cases "fst (reserve_guard_budget d now later identity fence debit)")
  case (Inl e)
  with inv show ?thesis by (simp add: reserve_guard_budget_Inl)
next
  case (Inr r)
  then obtain s b where b: "map_of (md_guard_budgets d) (sb_id s) = Some b"
    and r: "reserve b s identity debit later = Inr r"
    and d': "snd (reserve_guard_budget d now later identity fence debit) =
       d\<lparr>md_guard_budgets := AList.update (sb_id s) r (md_guard_budgets d)\<rparr>"
    by (rule reserve_guard_budget_Inr)
  have "gb_identity r = gb_identity b" "gb_quarantined r = gb_quarantined b"
    by (subst reserve_Inr(5) [OF r], simp)+
  then have "budget_row_ok (md_sandboxes d) (sb_id s) r"
    using guard_inv_row [OF inv b] reserve_Inr(9) [OF r] by (simp add: budget_row_ok_def)
  from guard_inv_budget [OF inv this] show ?thesis by (simp add: d')
qed

lemma guard_ok_mark:
  assumes inv: "guard_ok d"
  shows "guard_ok (snd (mark_guard_quarantined d now later tenant i fence))"
proof (cases "fst (mark_guard_quarantined d now later tenant i fence)")
  case (Inl e)
  with inv show ?thesis by (auto simp: mark_guard_quarantined_def Let_def split: sum.splits if_splits)
next
  case (Inr r)
  then obtain s b where s: "map_of (md_sandboxes d) i = Some s" and b: "map_of (md_guard_budgets d) i = Some b"
    and d': "snd (mark_guard_quarantined d now later tenant i fence) =
      (if sb_state s \<noteq> Quarantined
       then d\<lparr>md_guard_budgets := AList.update i (b\<lparr>gb_quarantined := True\<rparr>) (md_guard_budgets d),
         md_sandboxes := AList.update i (s\<lparr>sb_state := Quarantined, sb_updated_at := later\<rparr>) (md_sandboxes d)\<rparr>
       else d\<lparr>md_guard_budgets := AList.update i (b\<lparr>gb_quarantined := True\<rparr>) (md_guard_budgets d)\<rparr>)"
    by (auto simp: mark_guard_quarantined_def result_simps Let_def split: sum.splits)
  show ?thesis
  proof (cases "sb_state s = Quarantined")
    case True
    have "budget_row_ok (md_sandboxes d) i (b\<lparr>gb_quarantined := True\<rparr>)"
      using guard_inv_row [OF inv b] s True by (auto simp: budget_row_ok_def within_caps_def)
    from guard_inv_budget [OF inv this] True show ?thesis by (simp add: d')
  next
    case False
    with guard_inv_both [OF inv s b, where st = Quarantined and t = later] show ?thesis by (simp add: d')
  qed
qed

lemma guard_ok_release:
  assumes inv: "guard_ok d"
  shows "guard_ok (snd (release_guard_quarantine d now tenant i released_by))"
proof (cases "owned d tenant i")
  case (Inl e)
  with inv show ?thesis by (simp add: release_guard_quarantine_def)
next
  case (Inr s)
  then have s: "map_of (md_sandboxes d) i = Some s" by (simp add: owned_Inr)
  show ?thesis
  proof (cases "map_of (md_guard_budgets d) i")
    case (Some b)
    with guard_inv_both [OF inv s Some, where st = Paused and t = now] inv Inr show ?thesis
      by (simp add: release_guard_quarantine_def Let_def)
  next
    case None
    have "guard_inv (AList.update i (s\<lparr>sb_state := Paused, sb_updated_at := now\<rparr>) (md_sandboxes d)) (md_guard_budgets d)"
      using inv s None unfolding guard_inv_def budget_row_ok_def
      by (auto split: if_splits; metis option.distinct(1))
    with inv Inr None show ?thesis by (simp add: release_guard_quarantine_def Let_def)
  qed
qed

section \<open>Incidents only grow\<close>

definition keeps :: "'a option \<Rightarrow> 'a option \<Rightarrow> bool" where
  "keeps old new \<longleftrightarrow> old = None \<or> new = old"

definition incident_extends :: "guard_incident \<Rightarrow> guard_incident \<Rightarrow> bool" where
  "incident_extends old r \<longleftrightarrow>
     ic_id r = ic_id old \<and> ic_identity r = ic_identity old \<and> ic_fence r = ic_fence old
     \<and> ic_triggered_at r = ic_triggered_at old
     \<and> ic_event_start_sequence r = ic_event_start_sequence old \<and> ic_event_previous_hash r = ic_event_previous_hash old
     \<and> prefix (ic_events old) (ic_events r) \<and> prefix (ic_rules old) (ic_rules r) \<and> prefix (ic_errors old) (ic_errors r)
     \<and> keeps (ic_network_cut_at old) (ic_network_cut_at r) \<and> keeps (ic_paused_at old) (ic_paused_at r)
     \<and> keeps (ic_snapshot_id old) (ic_snapshot_id r) \<and> keeps (ic_completed_at old) (ic_completed_at r)
     \<and> keeps (ic_notified_at old) (ic_notified_at r)
     \<and> (ic_completed_at old \<noteq> None \<longrightarrow>
          r = old\<lparr>ic_notified_at := ic_notified_at r, ic_errors := ic_errors r\<rparr>)"

definition completion_ok :: "guard_incident \<Rightarrow> bool" where
  "completion_ok r \<longleftrightarrow>
     (ic_completed_at r \<noteq> None \<longrightarrow> ic_network_cut_at r \<noteq> None \<and> ic_paused_at r \<noteq> None
       \<and> (\<exists>i. ic_snapshot_id r = Some i \<and> i \<noteq> []) \<and> ic_report r \<noteq> [])"

lemma prefix_push_missing: "prefix xs (push_missing xs ys)"
proof -
  have "prefix xs (fold (\<lambda>x acc. if x \<in> set acc then acc else acc @ [x]) ys zs)" if "prefix xs zs" for zs
    using that by (induction ys arbitrary: zs) (auto simp: prefix_def)
  then show ?thesis by (simp add: push_missing_def)
qed

lemma set_push_missing: "set (push_missing xs ys) = set xs \<union> set ys"
proof -
  have "set (fold (\<lambda>x acc. if x \<in> set acc then acc else acc @ [x]) ys zs) = set zs \<union> set ys" for zs
    by (induction ys arbitrary: zs) auto
  then show ?thesis by (simp add: push_missing_def)
qed

lemma keeps_or_else [simp]: "keeps a (or_else a b)"
  by (simp add: keeps_def or_else_def split: option.splits)

lemma merge_existing_Inr:
  assumes "merge_existing old incoming = Inr r"
  shows "incident_extends old (r\<lparr>ic_fence := ic_fence old\<rparr>)"
proof (cases "ic_completed_at old")
  case None
  with assms have events: "prefix (ic_events old) (ic_events incoming) \<or> prefix (ic_events incoming) (ic_events old)"
    by (simp only: merge_existing_def result_simps) blast
  have long: "prefix (ic_events old) (ic_events incoming)" if "length (ic_events old) < length (ic_events incoming)"
    using events that prefix_length_le by fastforce
  show ?thesis using assms None long
    by (auto simp: merge_existing_def merge_progress_def incident_extends_def result_simps Let_def
        prefix_push_missing keeps_def [of None] split: if_splits)
next
  case (Some t)
  with assms show ?thesis
    by (auto simp: merge_existing_def incident_extends_def result_simps Let_def prefix_push_missing keeps_def [of "Some _"]
        keeps_def [of "ic_network_cut_at _" "ic_network_cut_at _"] keeps_def [of "ic_paused_at _" "ic_paused_at _"]
        keeps_def [of "ic_snapshot_id _" "ic_snapshot_id _"] split: if_splits)
qed

lemma validate_evidence_cong:
  assumes "ic_identity a = ic_identity b" "ic_event_start_sequence a = ic_event_start_sequence b"
    "ic_event_previous_hash a = ic_event_previous_hash b"
    "(ic_events a, ic_event_sequence a, ic_event_head a) = (ic_events b, ic_event_sequence b, ic_event_head b)"
  shows "validate_incident_evidence tx a = validate_incident_evidence tx b"
  using assms unfolding validate_incident_evidence_def prod.inject by (elim conjE) (simp only:)

lemma merge_existing_evidence:
  assumes "merge_existing old incoming = Inr r" and "validate_incident_evidence tx old = Inr ()"
    and "validate_incident_evidence tx incoming = Inr ()"
  shows "validate_incident_evidence tx r = Inr ()"
proof -
  have same: "ic_identity old = ic_identity incoming" "ic_event_start_sequence old = ic_event_start_sequence incoming"
      "ic_event_previous_hash old = ic_event_previous_hash incoming"
    using assms(1) by (simp_all only: merge_existing_def result_simps) blast+
  have ev: "ic_identity r = ic_identity old" "ic_event_start_sequence r = ic_event_start_sequence old"
      "ic_event_previous_hash r = ic_event_previous_hash old"
      "(ic_events r, ic_event_sequence r, ic_event_head r) = (ic_events old, ic_event_sequence old, ic_event_head old)
       \<or> (ic_events r, ic_event_sequence r, ic_event_head r) = (ic_events incoming, ic_event_sequence incoming, ic_event_head incoming)"
    using assms(1) by (auto simp: merge_existing_def merge_progress_def result_simps Let_def split: if_splits)
  from ev(4) show ?thesis
  proof
    assume "(ic_events r, ic_event_sequence r, ic_event_head r) = (ic_events old, ic_event_sequence old, ic_event_head old)"
    from validate_evidence_cong [OF ev(1-3) this] assms(2) show ?thesis by simp
  next
    assume "(ic_events r, ic_event_sequence r, ic_event_head r) = (ic_events incoming, ic_event_sequence incoming, ic_event_head incoming)"
    from validate_evidence_cong [OF ev(1-3) [unfolded same] this] assms(3) show ?thesis by simp
  qed
qed

lemma merge_incident_Some:
  assumes "merge_incident tx (Some old) incoming = Inr r"
  shows "incident_extends old r" and "completion_ok r"
    and "validate_incident_evidence tx old = Inr () \<Longrightarrow> validate_incident_evidence tx r = Inr ()"
proof -
  from assms obtain x where v: "validate_incident_evidence tx incoming = Inr ()"
    and x: "merge_existing old incoming = Inr x" and r: "r = x\<lparr>ic_fence := ic_fence old\<rparr>" and c: "completion_ok x"
    by (auto simp: merge_incident_def result_simps completion_ok_def split: option.splits if_splits)
  show "incident_extends old r" using merge_existing_Inr [OF x] r by simp
  show "completion_ok r" using c r by (simp add: completion_ok_def)
  assume "validate_incident_evidence tx old = Inr ()"
  from merge_existing_evidence [OF x this v] show "validate_incident_evidence tx r = Inr ()"
    using validate_evidence_cong [of r x tx] by (simp add: r)
qed

lemma merge_incident_None:
  assumes "merge_incident tx None incoming = Inr r"
  shows "r = incoming" and "completion_ok r" and "validate_incident_evidence tx r = Inr ()"
  using assms by (auto simp: merge_incident_def result_simps completion_ok_def split: option.splits if_splits)

end
