(* ===== verification/Mem_Approvals.thy ===== *)
theory Mem_Approvals
  imports Mem_Guard "HOL-Library.Option_ord"
begin

text \<open>
  Tool approvals in the in-memory metadata store (\<^verbatim>\<open>aiec-storage/src/lib.rs\<close>): a key asks for one
  high-risk call, another key decides, and a grant is spent once, by the asker, for that call.
\<close>

record approval_decision_request =
  dr_tenant :: uuid
  dr_sandbox :: uuid
  dr_request_id :: uuid
  dr_decision :: approval_state
  dr_decided_by_key_id :: uuid
  dr_decided_by_label :: string
  dr_at :: instant

definition same_ask :: "guard_tool_approval \<Rightarrow> guard_tool_approval \<Rightarrow> bool" where
  "same_ask approval row \<longleftrightarrow>
     ta_tenant_id row = ta_tenant_id approval \<and> ta_sandbox_id row = ta_sandbox_id approval
     \<and> ta_requested_by_key_id row = ta_requested_by_key_id approval \<and> ta_tool row = ta_tool approval
     \<and> ta_request_digest row = ta_request_digest approval \<and> ta_state row = ApprovalPending"

definition put_guard_tool_approval ::
  "memory_data \<Rightarrow> instant \<Rightarrow> guard_tool_approval \<Rightarrow> (store_error + guard_tool_approval) \<times> memory_data" where
  "put_guard_tool_approval d now approval =
     (if length (ta_request_digest approval) \<noteq> 64
        \<or> \<not> list_all (\<lambda>b. is_ascii_hexdigit b \<and> \<not> is_ascii_uppercase b) (ta_request_digest approval)
      then (Inl (StoreConflict ''approval digest must be 64 lowercase hex characters''), d)
      else if ta_expires_at approval \<le> ta_created_at approval
      then (Inl (StoreConflict ''an approval must expire after it was made''), d)
      else if map_of (md_guard_tool_approvals d) (ta_id approval) \<noteq> None
      then (Inl (StoreConflict ''approval request already exists''), d)
      else case find (same_ask approval) (values_of (md_guard_tool_approvals d)) of
        Some existing \<Rightarrow>
          if ta_expires_at existing \<le> now
          then let reopened = existing\<lparr>ta_expires_at := ta_expires_at approval\<rparr>
               in (Inr reopened, d\<lparr>md_guard_tool_approvals :=
                    AList.update (ta_id existing) reopened (md_guard_tool_approvals d)\<rparr>)
          else (Inr existing, d)
      | None \<Rightarrow>
          (Inr approval, d\<lparr>md_guard_tool_approvals :=
             AList.update (ta_id approval) approval (md_guard_tool_approvals d)\<rparr>))"

definition decide_guard_tool_approval ::
  "memory_data \<Rightarrow> approval_decision_request \<Rightarrow> guard_tool_approval option \<times> memory_data" where
  "decide_guard_tool_approval d request =
     (if dr_decision request = ApprovalPending then (None, d)
      else case map_of (md_guard_tool_approvals d) (dr_request_id request) of
        None \<Rightarrow> (None, d)
      | Some approval \<Rightarrow>
          if ta_tenant_id approval \<noteq> dr_tenant request \<or> ta_sandbox_id approval \<noteq> dr_sandbox request
            \<or> ta_state approval \<noteq> ApprovalPending
            \<or> ta_requested_by_key_id approval = dr_decided_by_key_id request
            \<or> dr_at request < ta_created_at approval \<or> ta_expires_at approval \<le> dr_at request
          then (None, d)
          else
            let approval = approval\<lparr>ta_state := dr_decision request,
                  ta_decided_by_key_id := Some (dr_decided_by_key_id request),
                  ta_decided_by_label := Some (dr_decided_by_label request),
                  ta_decided_at := Some (dr_at request)\<rparr>
            in (Some approval, d\<lparr>md_guard_tool_approvals :=
                 AList.update (dr_request_id request) approval (md_guard_tool_approvals d)\<rparr>))"

definition spendable ::
  "uuid \<Rightarrow> uuid \<Rightarrow> string \<Rightarrow> string \<Rightarrow> uuid \<Rightarrow> instant \<Rightarrow> guard_tool_approval \<Rightarrow> bool" where
  "spendable tenant sandbox tool request_digest requested_by_key_id now a \<longleftrightarrow>
     ta_tenant_id a = tenant \<and> ta_sandbox_id a = sandbox \<and> ta_tool a = tool
     \<and> ta_request_digest a = request_digest \<and> ta_requested_by_key_id a = requested_by_key_id
     \<and> ta_state a = Granted \<and> ta_consumed_at a = None \<and> now < ta_expires_at a
     \<and> (case ta_decided_at a of Some decided \<Rightarrow> decided \<le> now | None \<Rightarrow> False)"

definition consume_guard_tool_approval ::
  "memory_data \<Rightarrow> uuid \<Rightarrow> uuid \<Rightarrow> string \<Rightarrow> string \<Rightarrow> uuid \<Rightarrow> instant
    \<Rightarrow> guard_tool_approval option \<times> memory_data" where
  "consume_guard_tool_approval d tenant sandbox tool request_digest requested_by_key_id now =
     (case max_by_key (\<lambda>a. (ta_decided_at a, ta_id a))
         (filter (spendable tenant sandbox tool request_digest requested_by_key_id now)
           (values_of (md_guard_tool_approvals d))) of
        None \<Rightarrow> (None, d)
      | Some approval \<Rightarrow>
          let approval = approval\<lparr>ta_consumed_at := Some now\<rparr>
          in (Some approval, d\<lparr>md_guard_tool_approvals :=
               AList.update (ta_id approval) approval (md_guard_tool_approvals d)\<rparr>))"

definition approval_key :: "guard_tool_approval \<Rightarrow> instant \<times> uuid" where
  "approval_key row = (ta_created_at row, ta_id row)"

definition list_guard_tool_approvals ::
  "memory_data \<Rightarrow> uuid \<Rightarrow> uuid \<Rightarrow> u32 \<Rightarrow> page_cursor option \<Rightarrow> guard_tool_approval list \<times> page_cursor option" where
  "list_guard_tool_approvals d tenant sandbox limit after =
     (let listed = filter (\<lambda>a. after_cursor after (approval_key a))
            (filter (\<lambda>a. ta_tenant_id a = tenant \<and> ta_sandbox_id a = sandbox)
              (values_of (md_guard_tool_approvals d)))
      in page (sort_newest_first approval_key listed) (clamp_page limit) approval_key)"

end
