(* ===== verification/Approval_Laws.thy ===== *)
theory Approval_Laws
  imports Mem_Approvals
begin

text \<open>
  Laws of tool approvals: when every request enters undecided, a decided row was decided by a key other
  than the asker inside its window, the question of a row never changes, a decision is final and a grant
  is spent at most once.
\<close>

section \<open>Rows and their history\<close>

text \<open>What a request starts as: undecided and unspent.\<close>

definition fresh_ask :: "guard_tool_approval \<Rightarrow> bool" where
  "fresh_ask a \<longleftrightarrow> ta_state a = ApprovalPending \<and> ta_decided_by_key_id a = None \<and> ta_decided_at a = None
     \<and> ta_consumed_at a = None"

definition approval_row_ok :: "guard_tool_approval \<Rightarrow> bool" where
  "approval_row_ok a \<longleftrightarrow>
     fresh_ask a
     \<or> ta_state a \<noteq> ApprovalPending
       \<and> (\<exists>k t. ta_decided_by_key_id a = Some k \<and> k \<noteq> ta_requested_by_key_id a \<and> ta_decided_at a = Some t
            \<and> ta_created_at a \<le> t \<and> t < ta_expires_at a
            \<and> (\<forall>u. ta_consumed_at a = Some u \<longrightarrow> ta_state a = Granted \<and> t \<le> u \<and> u < ta_expires_at a))"

definition approvals_inv :: "(uuid \<times> guard_tool_approval) list \<Rightarrow> bool" where
  "approvals_inv m \<longleftrightarrow> table_ok ta_id m \<and> (\<forall>i a. map_of m i = Some a \<longrightarrow> approval_row_ok a)"

abbreviation approvals_ok :: "memory_data \<Rightarrow> bool" where
  "approvals_ok d \<equiv> approvals_inv (md_guard_tool_approvals d)"

text \<open>What a later row keeps of an earlier one: the question always, the decision and the spending once made.\<close>

definition approval_extends :: "guard_tool_approval \<Rightarrow> guard_tool_approval \<Rightarrow> bool" where
  "approval_extends a b \<longleftrightarrow>
     ta_id b = ta_id a \<and> ta_tenant_id b = ta_tenant_id a \<and> ta_sandbox_id b = ta_sandbox_id a \<and> ta_tool b = ta_tool a
     \<and> ta_request_digest b = ta_request_digest a \<and> ta_detail b = ta_detail a
     \<and> ta_requested_by_key_id b = ta_requested_by_key_id a \<and> ta_requested_by_label b = ta_requested_by_label a
     \<and> ta_created_at b = ta_created_at a
     \<and> (ta_state a \<noteq> ApprovalPending \<longrightarrow>
          b = a\<lparr>ta_consumed_at := ta_consumed_at b\<rparr> \<and> (ta_consumed_at a \<noteq> None \<longrightarrow> b = a))"

lemma approval_extends_refl [simp]: "approval_extends a a"
  by (simp add: approval_extends_def)

lemma approval_extends_pending:
  assumes "ta_state a = ApprovalPending"
    and "ta_id b = ta_id a" "ta_tenant_id b = ta_tenant_id a" "ta_sandbox_id b = ta_sandbox_id a" "ta_tool b = ta_tool a"
    "ta_request_digest b = ta_request_digest a" "ta_detail b = ta_detail a"
    "ta_requested_by_key_id b = ta_requested_by_key_id a" "ta_requested_by_label b = ta_requested_by_label a"
    "ta_created_at b = ta_created_at a"
  shows "approval_extends a b"
  unfolding approval_extends_def using assms by blast

lemma approval_extends_consumed:
  assumes "ta_consumed_at a = None"
  shows "approval_extends a (a\<lparr>ta_consumed_at := x\<rparr>)"
  unfolding approval_extends_def by (intro conjI impI) (simp_all add: assms)

lemma approval_extends_trans:
  assumes ab: "approval_extends a b" and bc: "approval_extends b c"
  shows "approval_extends a c"
proof (cases "ta_state a = ApprovalPending")
  case True
  with ab bc show ?thesis by (simp add: approval_extends_def)
next
  case False
  obtain x where b: "b = a\<lparr>ta_consumed_at := x\<rparr>" and x: "ta_consumed_at a \<noteq> None \<longrightarrow> b = a"
    using ab False unfolding approval_extends_def by blast
  have "ta_state b \<noteq> ApprovalPending" using False by (simp add: b)
  then obtain y where c: "c = b\<lparr>ta_consumed_at := y\<rparr>" and y: "ta_consumed_at b \<noteq> None \<longrightarrow> c = b"
    using bc unfolding approval_extends_def by blast
  have "ta_consumed_at a \<noteq> None \<longrightarrow> c = a" using x y by blast
  then show ?thesis by (simp add: approval_extends_def c b)
qed

definition history_extends :: "(uuid \<times> guard_tool_approval) list \<Rightarrow> (uuid \<times> guard_tool_approval) list \<Rightarrow> bool" where
  "history_extends m n \<longleftrightarrow> (\<forall>i a. map_of m i = Some a \<longrightarrow> (\<exists>b. map_of n i = Some b \<and> approval_extends a b))"

lemma approvals_inv_update:
  "approvals_inv m \<Longrightarrow> ta_id a = i \<Longrightarrow> approval_row_ok a \<Longrightarrow> approvals_inv (AList.update i a m)"
  by (auto simp: approvals_inv_def)

lemma history_refl [simp]: "history_extends m m"
  by (auto simp: history_extends_def)

lemma history_update: "map_of m i = Some a \<Longrightarrow> approval_extends a b \<Longrightarrow> history_extends m (AList.update i b m)"
  by (auto simp: history_extends_def)

lemma history_insert: "map_of m i = None \<Longrightarrow> history_extends m (AList.update i b m)"
  by (auto simp: history_extends_def)

lemma approvals_row: "approvals_inv m \<Longrightarrow> a \<in> set (values_of m) \<Longrightarrow> map_of m (ta_id a) = Some a \<and> approval_row_ok a"
  by (auto simp: approvals_inv_def table_ok_values)

lemma put_approval_cases:
  "snd (put_guard_tool_approval d now approval) = d
   \<or> (\<exists>a t. a \<in> set (values_of (md_guard_tool_approvals d)) \<and> ta_state a = ApprovalPending
        \<and> snd (put_guard_tool_approval d now approval) = d\<lparr>md_guard_tool_approvals :=
             AList.update (ta_id a) (a\<lparr>ta_expires_at := t\<rparr>) (md_guard_tool_approvals d)\<rparr>)
   \<or> map_of (md_guard_tool_approvals d) (ta_id approval) = None
     \<and> snd (put_guard_tool_approval d now approval) = d\<lparr>md_guard_tool_approvals :=
          AList.update (ta_id approval) approval (md_guard_tool_approvals d)\<rparr>"
proof (cases "find (same_ask approval) (values_of (md_guard_tool_approvals d))")
  case None
  have "snd (put_guard_tool_approval d now approval) = d
      \<or> map_of (md_guard_tool_approvals d) (ta_id approval) = None
        \<and> snd (put_guard_tool_approval d now approval) = d\<lparr>md_guard_tool_approvals :=
             AList.update (ta_id approval) approval (md_guard_tool_approvals d)\<rparr>"
    by (cases "map_of (md_guard_tool_approvals d) (ta_id approval) = None")
      (auto simp only: put_guard_tool_approval_def None option.case snd_conv split: if_splits)
  then show ?thesis by blast
next
  case (Some a)
  then have "a \<in> set (values_of (md_guard_tool_approvals d))" "same_ask approval a"
    by (auto simp: find_Some_iff)
  then have "a \<in> set (values_of (md_guard_tool_approvals d)) \<and> ta_state a = ApprovalPending"
    by (simp add: same_ask_def)
  moreover have "snd (put_guard_tool_approval d now approval) \<in> {d, d\<lparr>md_guard_tool_approvals :=
      AList.update (ta_id a) (a\<lparr>ta_expires_at := ta_expires_at approval\<rparr>) (md_guard_tool_approvals d)\<rparr>}"
    by (auto simp only: put_guard_tool_approval_def Some Let_def option.case snd_conv insert_iff empty_iff split: if_splits)
  ultimately show ?thesis by blast
qed

lemma put_approval_law:
  assumes inv: "approvals_ok d" and ask: "fresh_ask approval"
  shows "approvals_ok (snd (put_guard_tool_approval d now approval))
    \<and> history_extends (md_guard_tool_approvals d) (md_guard_tool_approvals (snd (put_guard_tool_approval d now approval)))"
  using put_approval_cases [of d now approval]
proof (elim disjE exE conjE)
  assume "snd (put_guard_tool_approval d now approval) = d"
  with inv show ?thesis by simp
next
  fix a t assume a: "a \<in> set (values_of (md_guard_tool_approvals d))" "ta_state a = ApprovalPending"
    and r: "snd (put_guard_tool_approval d now approval) = d\<lparr>md_guard_tool_approvals :=
        AList.update (ta_id a) (a\<lparr>ta_expires_at := t\<rparr>) (md_guard_tool_approvals d)\<rparr>"
  have row: "map_of (md_guard_tool_approvals d) (ta_id a) = Some a" "approval_row_ok a"
    using approvals_row [OF inv a(1)] by simp_all
  then have "approval_row_ok (a\<lparr>ta_expires_at := t\<rparr>)" using a(2) by (simp add: approval_row_ok_def fresh_ask_def)
  moreover have "approval_extends a (a\<lparr>ta_expires_at := t\<rparr>)" using a(2) by (simp add: approval_extends_def)
  ultimately show ?thesis using inv row(1) by (simp add: r approvals_inv_update history_update)
next
  assume "map_of (md_guard_tool_approvals d) (ta_id approval) = None"
    "snd (put_guard_tool_approval d now approval) = d\<lparr>md_guard_tool_approvals :=
        AList.update (ta_id approval) approval (md_guard_tool_approvals d)\<rparr>"
  with inv ask show ?thesis by (simp add: approvals_inv_update history_insert approval_row_ok_def)
qed

definition decided :: "approval_decision_request \<Rightarrow> guard_tool_approval \<Rightarrow> guard_tool_approval" where
  "decided request a = a\<lparr>ta_state := dr_decision request, ta_decided_by_key_id := Some (dr_decided_by_key_id request),
     ta_decided_by_label := Some (dr_decided_by_label request), ta_decided_at := Some (dr_at request)\<rparr>"

definition decidable_by :: "approval_decision_request \<Rightarrow> guard_tool_approval \<Rightarrow> bool" where
  "decidable_by request a \<longleftrightarrow>
     dr_decision request \<noteq> ApprovalPending \<and> ta_state a = ApprovalPending
     \<and> ta_tenant_id a = dr_tenant request \<and> ta_sandbox_id a = dr_sandbox request
     \<and> ta_requested_by_key_id a \<noteq> dr_decided_by_key_id request
     \<and> ta_created_at a \<le> dr_at request \<and> dr_at request < ta_expires_at a"

lemma decide_eq:
  "decide_guard_tool_approval d request =
     (case map_of (md_guard_tool_approvals d) (dr_request_id request) of
        Some a \<Rightarrow>
          if decidable_by request a
          then (Some (decided request a), d\<lparr>md_guard_tool_approvals :=
                 AList.update (dr_request_id request) (decided request a) (md_guard_tool_approvals d)\<rparr>)
          else (None, d)
      | None \<Rightarrow> (None, d))"
proof (cases "map_of (md_guard_tool_approvals d) (dr_request_id request)")
  case None
  then show ?thesis by (simp add: decide_guard_tool_approval_def)
next
  case (Some a)
  show ?thesis
  proof (cases "dr_decision request = ApprovalPending")
    case True
    then have "\<not> decidable_by request a" by (simp add: decidable_by_def)
    with True show ?thesis by (simp add: decide_guard_tool_approval_def Some)
  next
    case False
    then have "(ta_tenant_id a \<noteq> dr_tenant request \<or> ta_sandbox_id a \<noteq> dr_sandbox request
        \<or> ta_state a \<noteq> ApprovalPending \<or> ta_requested_by_key_id a = dr_decided_by_key_id request
        \<or> dr_at request < ta_created_at a \<or> ta_expires_at a \<le> dr_at request) \<longleftrightarrow> \<not> decidable_by request a"
      unfolding decidable_by_def by linarith
    then show ?thesis unfolding decide_guard_tool_approval_def Some option.case
      by (cases "decidable_by request a") (simp_all only: False if_False if_True simp_thms Let_def decided_def)
  qed
qed

lemma decided_row:
  assumes "approval_row_ok a" and "decidable_by request a"
  shows "approval_row_ok (decided request a)" "approval_extends a (decided request a)"
proof -
  have "ta_consumed_at a = None" using assms by (simp add: approval_row_ok_def fresh_ask_def decidable_by_def)
  moreover have "dr_decision request \<noteq> ApprovalPending" "dr_decided_by_key_id request \<noteq> ta_requested_by_key_id a"
    "ta_created_at a \<le> dr_at request" "dr_at request < ta_expires_at a"
    using assms(2) by (auto simp: decidable_by_def)
  ultimately show "approval_row_ok (decided request a)"
    unfolding approval_row_ok_def decided_def by (intro disjI2) simp
  have "ta_state a = ApprovalPending" using assms(2) by (simp add: decidable_by_def)
  then show "approval_extends a (decided request a)"
    by (rule approval_extends_pending) (simp_all add: decided_def)
qed

lemma decide_approval_law:
  assumes inv: "approvals_ok d"
  shows "approvals_ok (snd (decide_guard_tool_approval d request))
    \<and> history_extends (md_guard_tool_approvals d) (md_guard_tool_approvals (snd (decide_guard_tool_approval d request)))"
proof (cases "\<exists>a. map_of (md_guard_tool_approvals d) (dr_request_id request) = Some a \<and> decidable_by request a")
  case True
  then obtain a where a: "map_of (md_guard_tool_approvals d) (dr_request_id request) = Some a"
    and dec: "decidable_by request a" by blast
  have row: "ta_id a = dr_request_id request" "approval_row_ok a"
    using inv a table_ok_key [of ta_id _ _ a] unfolding approvals_inv_def by blast+
  have "ta_id (decided request a) = dr_request_id request" using row(1) by (simp add: decided_def)
  from approvals_inv_update [OF inv this decided_row(1) [OF row(2) dec]] history_update [OF a decided_row(2) [OF row(2) dec]]
  show ?thesis by (simp add: decide_eq a dec)
next
  case False
  then have "snd (decide_guard_tool_approval d request) = d"
    unfolding decide_eq by (cases "map_of (md_guard_tool_approvals d) (dr_request_id request)") simp_all
  with inv show ?thesis by simp
qed

abbreviation candidates where
  "candidates d tenant sandbox tool digest key now \<equiv>
     filter (spendable tenant sandbox tool digest key now) (values_of (md_guard_tool_approvals d))"

lemma consume_cases:
  assumes inv: "approvals_ok d"
  shows "consume_guard_tool_approval d tenant sandbox tool digest key now = (None, d)
    \<or> (\<exists>a. map_of (md_guard_tool_approvals d) (ta_id a) = Some a \<and> approval_row_ok a
        \<and> spendable tenant sandbox tool digest key now a
        \<and> consume_guard_tool_approval d tenant sandbox tool digest key now =
            (Some (a\<lparr>ta_consumed_at := Some now\<rparr>), d\<lparr>md_guard_tool_approvals :=
               AList.update (ta_id a) (a\<lparr>ta_consumed_at := Some now\<rparr>) (md_guard_tool_approvals d)\<rparr>))"
proof (cases "max_by_key (\<lambda>a. (ta_decided_at a, ta_id a)) (candidates d tenant sandbox tool digest key now)")
  case None
  then have "consume_guard_tool_approval d tenant sandbox tool digest key now = (None, d)"
    by (simp only: consume_guard_tool_approval_def option.case)
  then show ?thesis ..
next
  case (Some a)
  have "a \<in> set (candidates d tenant sandbox tool digest key now)" using max_by_key_Some [OF Some] by (rule conjunct1)
  then have mem: "a \<in> set (values_of (md_guard_tool_approvals d))" and sp: "spendable tenant sandbox tool digest key now a"
    by simp_all
  have "consume_guard_tool_approval d tenant sandbox tool digest key now =
      (Some (a\<lparr>ta_consumed_at := Some now\<rparr>), d\<lparr>md_guard_tool_approvals :=
         AList.update (ta_id a) (a\<lparr>ta_consumed_at := Some now\<rparr>) (md_guard_tool_approvals d)\<rparr>)"
    by (simp only: consume_guard_tool_approval_def Some option.case Let_def guard_tool_approval.simps) simp
  then show ?thesis using conjunct1 [OF approvals_row [OF inv mem]] conjunct2 [OF approvals_row [OF inv mem]] sp
    by (intro disjI2 exI [of _ a] conjI)
qed

lemma consume_row_ok:
  assumes "approval_row_ok a" and "spendable tenant sandbox tool digest key now a"
  shows "approval_row_ok (a\<lparr>ta_consumed_at := Some now\<rparr>)" "approval_extends a (a\<lparr>ta_consumed_at := Some now\<rparr>)"
proof -
  have st: "ta_state a = Granted" and un: "ta_consumed_at a = None" and ex: "now < ta_expires_at a"
    using assms(2) by (simp_all add: spendable_def)
  have "\<not> fresh_ask a" using st by (simp add: fresh_ask_def)
  with assms(1) obtain k t where kt: "ta_decided_by_key_id a = Some k" "k \<noteq> ta_requested_by_key_id a"
    "ta_decided_at a = Some t" "ta_created_at a \<le> t" "t < ta_expires_at a"
    unfolding approval_row_ok_def by blast
  have "t \<le> now" using assms(2) kt(3) by (simp add: spendable_def)
  with kt st ex show "approval_row_ok (a\<lparr>ta_consumed_at := Some now\<rparr>)"
    unfolding approval_row_ok_def by (intro disjI2) simp
  show "approval_extends a (a\<lparr>ta_consumed_at := Some now\<rparr>)" using un by (rule approval_extends_consumed)
qed

lemma consume_approval_law:
  assumes inv: "approvals_ok d"
  shows "approvals_ok (snd (consume_guard_tool_approval d tenant sandbox tool digest key now))
    \<and> history_extends (md_guard_tool_approvals d)
      (md_guard_tool_approvals (snd (consume_guard_tool_approval d tenant sandbox tool digest key now)))"
  using consume_cases [OF inv, of tenant sandbox tool digest key now]
proof (elim disjE exE conjE)
  assume "consume_guard_tool_approval d tenant sandbox tool digest key now = (None, d)"
  with inv show ?thesis by simp
next
  fix a assume a: "map_of (md_guard_tool_approvals d) (ta_id a) = Some a" "approval_row_ok a"
      "spendable tenant sandbox tool digest key now a"
    and r: "consume_guard_tool_approval d tenant sandbox tool digest key now =
            (Some (a\<lparr>ta_consumed_at := Some now\<rparr>), d\<lparr>md_guard_tool_approvals :=
               AList.update (ta_id a) (a\<lparr>ta_consumed_at := Some now\<rparr>) (md_guard_tool_approvals d)\<rparr>)"
  have "ta_id (a\<lparr>ta_consumed_at := Some now\<rparr>) = ta_id a" by simp
  from approvals_inv_update [OF inv this consume_row_ok(1) [OF a(2,3)]] history_update [OF a(1) consume_row_ok(2) [OF a(2,3)]]
  show ?thesis by (simp add: r)
qed

end
