(* ===== verification/Table_Laws.thy ===== *)
theory Table_Laws
  imports Ledger_Laws Guard_Laws Approval_Laws
begin

text \<open>
  Every operation of the in-memory store keeps its tables well formed: distinct keys, and every row
  under its own identifier.
\<close>

section \<open>Every row stays under its own identifier\<close>

lemma tables_create: "tables_ok d \<Longrightarrow> tables_ok (snd (create_sandbox d v))"
  by (simp add: create_sandbox_def tables_ok_def)

lemma tables_sandbox:
  "tables_ok d \<Longrightarrow> map_of (md_sandboxes d) i = Some s \<Longrightarrow> sb_id s' = sb_id s
    \<Longrightarrow> tables_ok (d\<lparr>md_sandboxes := AList.update i s' (md_sandboxes d)\<rparr>)"
  using table_ok_key [of sb_id "md_sandboxes d" i s] by (simp add: tables_ok_def)

lemma tables_budget:
  "tables_ok d \<Longrightarrow> gi_sandbox_id (gb_identity b) = i
    \<Longrightarrow> tables_ok (d\<lparr>md_guard_budgets := AList.update i b (md_guard_budgets d)\<rparr>)"
  by (simp add: tables_ok_def)

lemma tables_update_state: "tables_ok d \<Longrightarrow> tables_ok (snd (update_state d now tenant i expected next path))"
  by (auto simp: update_state_def owned_Inr Let_def split: sum.splits intro!: tables_sandbox)

lemma tables_delete_sandbox: "tables_ok d \<Longrightarrow> tables_ok (snd (delete_sandbox d now tenant i))"
  by (auto simp: delete_sandbox_def owned_Inr split: sum.splits intro!: tables_sandbox)

lemma tables_update_policy: "tables_ok d \<Longrightarrow> tables_ok (snd (update_guard_policy d now tenant i guard h))"
  by (auto simp: update_guard_policy_def owned_Inr Let_def split: sum.splits intro!: tables_sandbox)

lemma tables_put_key: "tables_ok d \<Longrightarrow> tables_ok (snd (put_key d v))"
  by (simp add: put_key_def tables_ok_def)

lemma tables_revoke_key: "tables_ok d \<Longrightarrow> tables_ok (snd (revoke_key d now tenant i))"
proof (cases "map_of (md_keys d) i")
  case (Some v)
  assume "tables_ok d"
  with table_ok_key [of ak_id "md_keys d" i v] Some show ?thesis by (simp add: revoke_key_def tables_ok_def)
qed (simp add: revoke_key_def)

lemma tables_artifacts:
  "tables_ok d \<Longrightarrow> keys_distinct m \<Longrightarrow> tables_ok (d\<lparr>md_artifact_objects := m\<rparr>)"
  "tables_ok d \<Longrightarrow> keys_distinct (md_artifact_objects d)"
  by (simp_all add: tables_ok_def)

lemma tables_put_snapshot: "tables_ok d \<Longrightarrow> tables_ok (snd (put_snapshot d now v))"
  by (cases "each_r (check_link (md_artifact_objects d)) [Some (sn_object_key v)]")
    (simp_all add: put_snapshot_def link_keys_def tables_ok_def keys_distinct_link_loop del: each_r.simps link_loop.simps)

lemma tables_put_stored_snapshot: "tables_ok d \<Longrightarrow> tables_ok (snd (put_stored_snapshot d now v))"
  by (cases "each_r (check_link (md_artifact_objects d)) (stored_keys v)")
    (simp_all add: put_stored_snapshot_def link_keys_def tables_ok_def keys_distinct_link_loop basic_view_def)

lemma tables_delete_snapshot: "tables_ok d \<Longrightarrow> ledger_ok d \<Longrightarrow> tables_ok (snd (delete_snapshot d tenant i))"
  using delete_snapshot_cases [of d tenant i] by (auto simp: tables_ok_def ledger_inv_def)

lemma tables_usage: "tables_ok d \<Longrightarrow> tables_ok (append_usage d v)"
  by (simp add: append_usage_def tables_ok_def)

lemma tables_node: "tables_ok d \<Longrightarrow> tables_ok (snd (register_node d v))"
  by (simp add: register_node_def tables_ok_def Let_def)

lemma tables_tenant: "tables_ok d \<Longrightarrow> tables_ok (snd (put_tenant d v))"
  by (simp add: put_tenant_def tables_ok_def)

lemma get_worker_lease_Inr: "get_worker_lease d tenant i = Inr l \<longleftrightarrow> map_of (md_leases d) i = Some l \<and> wl_tenant_id l = tenant"
  by (auto simp: get_worker_lease_def split: option.splits)

lemma tables_renew: "tables_ok d \<Longrightarrow> tables_ok (snd (renew_worker_lease d now later tenant i generation ttl))"
proof (cases "get_worker_lease d tenant i")
  case (Inr l)
  assume "tables_ok d"
  moreover have "map_of (md_leases d) i = Some l" using Inr by (simp add: get_worker_lease_Inr)
  ultimately show ?thesis using table_ok_key [of wl_id "md_leases d" i l] Inr
    by (simp add: renew_worker_lease_def tables_ok_def Let_def)
qed (simp add: renew_worker_lease_def)

lemma tables_reserve_upload: "tables_ok d \<Longrightarrow> tables_ok (snd (reserve_artifact_upload d now tenant run key))"
  by (auto simp: reserve_artifact_upload_def tables_artifacts split: sum.split option.split)

lemma tables_complete_upload: "tables_ok d \<Longrightarrow> tables_ok (snd (complete_artifact_upload d now tenant run key))"
  by (auto simp: complete_artifact_upload_def tables_artifacts Let_def split: option.split)

lemma tables_delete_upload: "tables_ok d \<Longrightarrow> tables_ok (snd (delete_artifact_upload d now tenant run key))"
  by (auto simp: delete_artifact_upload_def tables_artifacts split: option.split)

lemma tables_claim: "tables_ok d \<Longrightarrow> tables_ok (snd (claim_artifact_deletions d fresh now retention grace limit lease))"
  by (simp add: claim_artifact_deletions_def Let_def split_beta tables_ok_def keys_distinct_claim_loop)

lemma tables_finish: "tables_ok d \<Longrightarrow> tables_ok (snd (finish_artifact_deletion d now key claim deleted retry_at))"
  by (auto simp: finish_artifact_deletion_def tables_artifacts split: option.split)

lemma tables_proposals:
  "tables_ok d \<Longrightarrow> gr_id v = i \<Longrightarrow> tables_ok (d\<lparr>md_guard_proposals := AList.update i v (md_guard_proposals d)\<rparr>)"
  by (simp add: tables_ok_def)

lemma snd_if_chain: "snd (if A then (x, a) else if B then (y, a) else if C then (z, a) else (w, b)) \<in> {a, b}"
  by simp

definition stored_proposal :: "memory_data \<Rightarrow> guard_proposal \<Rightarrow> guard_proposal" where
  "stored_proposal d v = (case map_of (md_guard_proposals d) (gr_id v) of Some p \<Rightarrow> p | None \<Rightarrow> v)"

lemma put_proposal_cases:
  "snd (put_guard_proposal d v) \<in> {d,
     d\<lparr>md_guard_proposals := AList.update (gr_id v) (stored_proposal d v) (md_guard_proposals d)\<rparr>,
     d\<lparr>md_guard_proposals := AList.update (gr_id v) v (md_guard_proposals d)\<rparr>}"
proof (cases "owned d (gr_tenant_id v) (gr_sandbox_id v)")
  case (Inr s)
  let ?a = "d\<lparr>md_guard_proposals := AList.update (gr_id v) (stored_proposal d v) (md_guard_proposals d)\<rparr>"
  have "snd (put_guard_proposal d v) \<in> {?a, ?a\<lparr>md_guard_proposals := AList.update (gr_id v) v (md_guard_proposals ?a)\<rparr>}"
    unfolding put_guard_proposal_def Inr sum.case Let_def stored_proposal_def by (rule snd_if_chain)
  then show ?thesis by simp
qed (simp add: put_guard_proposal_def)

lemma tables_proposal:
  assumes t: "tables_ok d"
  shows "tables_ok (snd (put_guard_proposal d v))"
proof -
  have p: "table_ok gr_id (md_guard_proposals d)" using t by (simp add: tables_ok_def)
  have "gr_id (stored_proposal d v) = gr_id v"
  proof (cases "map_of (md_guard_proposals d) (gr_id v)")
    case (Some q)
    with table_ok_key [OF p Some] show ?thesis by (simp add: stored_proposal_def)
  qed (simp add: stored_proposal_def)
  with put_proposal_cases [of d v] t show ?thesis
    using tables_proposals [OF t, of "stored_proposal d v" "gr_id v"] tables_proposals [OF t, of v "gr_id v"] by fastforce
qed

lemma table_okI:
  assumes "keys_distinct m" and "\<And>i v. map_of m i = Some v \<Longrightarrow> key v = i"
  shows "table_ok key m"
  using assms by (auto simp: table_ok_def keyed_by_def keys_distinct_def)

lemma tables_guard:
  assumes t: "tables_ok d" and g: "guard_ok d'"
    and kd: "keys_distinct (md_sandboxes d')" "keys_distinct (md_guard_budgets d')"
    and d': "d' = d\<lparr>md_sandboxes := md_sandboxes d', md_guard_budgets := md_guard_budgets d'\<rparr>"
  shows "tables_ok d'"
proof -
  have "table_ok sb_id (md_sandboxes d')" using kd(1) guard_inv_id [OF g] by (rule table_okI)
  moreover have "table_ok (\<lambda>b. gi_sandbox_id (gb_identity b)) (md_guard_budgets d')"
    using kd(2) by (rule table_okI) (use guard_inv_row [OF g] in \<open>auto simp: budget_row_ok_def\<close>)
  ultimately have "tables_ok (d\<lparr>md_sandboxes := md_sandboxes d', md_guard_budgets := md_guard_budgets d'\<rparr>)"
    using t by (simp add: tables_ok_def)
  then show ?thesis by (subst d')
qed

lemma keys_distinct_tables: "tables_ok d \<Longrightarrow> keys_distinct (md_sandboxes d) \<and> keys_distinct (md_guard_budgets d)"
  by (simp add: tables_ok_def table_ok_def)

lemma tables_put_budget: "tables_ok d \<Longrightarrow> guard_ok d \<Longrightarrow> tables_ok (snd (put_guard_budget d v))"
  by (rule tables_guard [OF _ guard_ok_put_budget])
    (auto simp: put_guard_budget_def Let_def keys_distinct_tables split: sum.split)

lemma tables_reserve_budget:
  "tables_ok d \<Longrightarrow> guard_ok d \<Longrightarrow> tables_ok (snd (reserve_guard_budget d now later identity fence debit))"
  by (rule tables_guard [OF _ guard_ok_reserve_budget])
    (auto simp: reserve_guard_budget_def keys_distinct_tables split: sum.split)

lemma tables_mark: "tables_ok d \<Longrightarrow> guard_ok d \<Longrightarrow> tables_ok (snd (mark_guard_quarantined d now later tenant i fence))"
  by (rule tables_guard [OF _ guard_ok_mark])
    (auto simp: mark_guard_quarantined_def Let_def keys_distinct_tables split: sum.split)

lemma tables_release: "tables_ok d \<Longrightarrow> guard_ok d \<Longrightarrow> tables_ok (snd (release_guard_quarantine d now tenant i by_whom))"
  by (rule tables_guard [OF _ guard_ok_release])
    (auto simp: release_guard_quarantine_def Let_def keys_distinct_tables split: sum.split option.split)

definition incident_row_ok :: "texts \<Rightarrow> uuid \<Rightarrow> guard_incident \<Rightarrow> bool" where
  "incident_row_ok tx i c \<longleftrightarrow> gi_sandbox_id (ic_identity c) = i \<and> completion_ok c \<and> validate_incident_evidence tx c = Inr ()"

definition incidents_inv :: "texts \<Rightarrow> (uuid \<times> guard_incident) list \<Rightarrow> bool" where
  "incidents_inv tx m \<longleftrightarrow> (\<forall>i c. map_of m i = Some c \<longrightarrow> incident_row_ok tx i c)"

lemma put_incident_cases:
  "put_guard_incident tx d now v = (fst (put_guard_incident tx d now v), d) \<and> (\<exists>e. fst (put_guard_incident tx d now v) = Inl e)
   \<or> (\<exists>r. merge_incident tx (map_of (md_guard_incidents d) (gi_sandbox_id (ic_identity v))) v = Inr r
        \<and> put_guard_incident tx d now v =
            (Inr r, d\<lparr>md_guard_incidents := AList.update (gi_sandbox_id (ic_identity v)) r (md_guard_incidents d)\<rparr>))"
proof -
  let ?i = "gi_sandbox_id (ic_identity v)"
  let ?c = "bind_r (owned d (gi_tenant_id (ic_identity v)) ?i) (\<lambda>_.
             then_r (memory_lease d now (gi_tenant_id (ic_identity v)) ?i (ic_fence v))
             (bind_r (ok_or (map_of (md_guard_budgets d) ?i) RecordNotFound) (\<lambda>budget.
              if gb_identity budget \<noteq> ic_identity v then Inl (StoreConflict ''Guard policy identity mismatch'')
              else merge_incident tx (map_of (md_guard_incidents d) ?i) v)))"
  have eq: "put_guard_incident tx d now v = (case ?c of Inl e \<Rightarrow> (Inl e, d)
      | Inr r \<Rightarrow> (Inr r, d\<lparr>md_guard_incidents := AList.update ?i r (md_guard_incidents d)\<rparr>))"
    unfolding put_guard_incident_def Let_def ..
  show ?thesis
  proof (cases ?c)
    case (Inl e)
    then show ?thesis unfolding eq by simp
  next
    case (Inr r)
    then have "merge_incident tx (map_of (md_guard_incidents d) ?i) v = Inr r"
      by (simp only: bind_r_Inr then_r_Inr if_Inl_Inr) blast
    with Inr show ?thesis unfolding eq by simp
  qed
qed

lemma merge_row_ok:
  assumes inv: "incidents_inv tx m" and r: "merge_incident tx (map_of m (gi_sandbox_id (ic_identity v))) v = Inr r"
  shows "incident_row_ok tx (gi_sandbox_id (ic_identity v)) r"
proof (cases "map_of m (gi_sandbox_id (ic_identity v))")
  case None
  from merge_incident_None [OF r [unfolded None]] show ?thesis by (simp add: incident_row_ok_def)
next
  case (Some old)
  from merge_incident_Some [OF r [unfolded Some]] inv Some show ?thesis
    by (simp add: incident_row_ok_def incidents_inv_def incident_extends_def)
qed

lemma incidents_put:
  assumes "incidents_inv tx (md_guard_incidents d)"
  shows "incidents_inv tx (md_guard_incidents (snd (put_guard_incident tx d now v)))"
  using put_incident_cases [of tx d now v]
proof (elim disjE exE conjE)
  assume "put_guard_incident tx d now v = (fst (put_guard_incident tx d now v), d)"
  then have "snd (put_guard_incident tx d now v) = d" by (metis snd_conv)
  with assms show ?thesis by simp
next
  fix r assume "merge_incident tx (map_of (md_guard_incidents d) (gi_sandbox_id (ic_identity v))) v = Inr r"
    and e: "put_guard_incident tx d now v =
            (Inr r, d\<lparr>md_guard_incidents := AList.update (gi_sandbox_id (ic_identity v)) r (md_guard_incidents d)\<rparr>)"
  from merge_row_ok [OF assms this(1)] assms show ?thesis by (simp add: e incidents_inv_def)
qed

lemma tables_put_incident:
  assumes t: "tables_ok d" and inv: "incidents_inv tx (md_guard_incidents d)"
  shows "tables_ok (snd (put_guard_incident tx d now v))"
proof -
  have kd: "keys_distinct (md_guard_incidents d)" using t by (simp add: tables_ok_def table_ok_def)
  let ?d = "snd (put_guard_incident tx d now v)"
  have d': "?d = d\<lparr>md_guard_incidents := md_guard_incidents ?d\<rparr>" and kd': "keys_distinct (md_guard_incidents ?d)"
    using kd put_incident_cases [of tx d now v] by (auto simp: snd_def split: prod.splits)
  have "table_ok (\<lambda>c. gi_sandbox_id (ic_identity c)) (md_guard_incidents ?d)"
    using kd' by (rule table_okI) (use incidents_put [OF inv, of now v] in \<open>auto simp: incidents_inv_def incident_row_ok_def\<close>)
  with t have "tables_ok (d\<lparr>md_guard_incidents := md_guard_incidents ?d\<rparr>)" by (simp add: tables_ok_def)
  then show ?thesis by (subst d')
qed

lemma tables_approvals:
  assumes "tables_ok d" and "approvals_ok d'" and "d' = d\<lparr>md_guard_tool_approvals := md_guard_tool_approvals d'\<rparr>"
  shows "tables_ok d'"
proof -
  have "tables_ok (d\<lparr>md_guard_tool_approvals := md_guard_tool_approvals d'\<rparr>)"
    using assms(1,2) by (simp add: tables_ok_def approvals_inv_def)
  then show ?thesis by (subst assms(3))
qed

end
