(* ===== verification/Mem_Machine.thy ===== *)
theory Mem_Machine
  imports Table_Laws
begin

text \<open>
  The in-memory store as a state machine: one operation of the store is one step, taken under the lock
  the code holds. The invariants of the components hold after every sequence of operations.
\<close>

section \<open>Operations and steps\<close>

datatype op =
    CreateSandbox sandbox
  | UpdateState instant uuid uuid sandbox_state sandbox_state "string option"
  | DeleteSandbox instant uuid uuid
  | PutKey api_key_record
  | RevokeKey instant uuid uuid
  | PutSnapshot instant snapshot
  | PutStoredSnapshot instant stored_snapshot
  | DeleteSnapshot uuid uuid
  | AppendUsage usage_event
  | RegisterNode node
  | PutTenant tenant_record
  | RenewLease instant instant uuid uuid int u64
  | ReserveUpload instant uuid "uuid option" string
  | CompleteUpload instant uuid "uuid option" string
  | DeleteUpload instant uuid "uuid option" string
  | ClaimDeletions "nat \<Rightarrow> uuid" instant int int u32 int
  | FinishDeletion instant string uuid bool instant
  | PutBudget guard_budget_state
  | ReserveBudget instant instant guard_identity guard_fence budget_debit
  | PutIncident instant guard_incident
  | MarkQuarantined instant instant uuid uuid guard_fence
  | UpdatePolicy instant uuid uuid guard_config string
  | ReleaseQuarantine instant uuid uuid string
  | PutProposal guard_proposal
  | PutApproval instant guard_tool_approval
  | DecideApproval approval_decision_request
  | ConsumeApproval uuid uuid string string uuid instant

fun step :: "texts \<Rightarrow> op \<Rightarrow> memory_data \<Rightarrow> memory_data" where
  "step tx (CreateSandbox v) d = snd (create_sandbox d v)"
| "step tx (UpdateState now tenant i expected next path) d = snd (update_state d now tenant i expected next path)"
| "step tx (DeleteSandbox now tenant i) d = snd (delete_sandbox d now tenant i)"
| "step tx (PutKey v) d = snd (put_key d v)"
| "step tx (RevokeKey now tenant i) d = snd (revoke_key d now tenant i)"
| "step tx (PutSnapshot now v) d = snd (put_snapshot d now v)"
| "step tx (PutStoredSnapshot now v) d = snd (put_stored_snapshot d now v)"
| "step tx (DeleteSnapshot tenant i) d = snd (delete_snapshot d tenant i)"
| "step tx (AppendUsage v) d = append_usage d v"
| "step tx (RegisterNode v) d = snd (register_node d v)"
| "step tx (PutTenant v) d = snd (put_tenant d v)"
| "step tx (RenewLease now later tenant i generation ttl) d = snd (renew_worker_lease d now later tenant i generation ttl)"
| "step tx (ReserveUpload now tenant run key) d = snd (reserve_artifact_upload d now tenant run key)"
| "step tx (CompleteUpload now tenant run key) d = snd (complete_artifact_upload d now tenant run key)"
| "step tx (DeleteUpload now tenant run key) d = snd (delete_artifact_upload d now tenant run key)"
| "step tx (ClaimDeletions fresh now retention grace limit lease) d =
     snd (claim_artifact_deletions d fresh now retention grace limit lease)"
| "step tx (FinishDeletion now key claim deleted retry_at) d = snd (finish_artifact_deletion d now key claim deleted retry_at)"
| "step tx (PutBudget v) d = snd (put_guard_budget d v)"
| "step tx (ReserveBudget now later identity fence debit) d = snd (reserve_guard_budget d now later identity fence debit)"
| "step tx (PutIncident now v) d = snd (put_guard_incident tx d now v)"
| "step tx (MarkQuarantined now later tenant i fence) d = snd (mark_guard_quarantined d now later tenant i fence)"
| "step tx (UpdatePolicy now tenant i guard h) d = snd (update_guard_policy d now tenant i guard h)"
| "step tx (ReleaseQuarantine now tenant i released_by) d = snd (release_guard_quarantine d now tenant i released_by)"
| "step tx (PutProposal v) d = snd (put_guard_proposal d v)"
| "step tx (PutApproval now v) d = snd (put_guard_tool_approval d now v)"
| "step tx (DecideApproval request) d = snd (decide_guard_tool_approval d request)"
| "step tx (ConsumeApproval tenant sandbox tool digest key now) d =
     snd (consume_guard_tool_approval d tenant sandbox tool digest key now)"

lemmas other_defs = create_sandbox_def update_state_def delete_sandbox_def put_key_def revoke_key_def append_usage_def
  register_node_def put_tenant_def renew_worker_lease_def put_guard_budget_def reserve_guard_budget_def
  put_guard_incident_def mark_guard_quarantined_def update_guard_policy_def release_guard_quarantine_def
  put_guard_proposal_def put_guard_tool_approval_def decide_guard_tool_approval_def consume_guard_tool_approval_def

fun ledger_op :: "op \<Rightarrow> bool" where
  "ledger_op (PutSnapshot _ _) = True"
| "ledger_op (PutStoredSnapshot _ _) = True"
| "ledger_op (DeleteSnapshot _ _) = True"
| "ledger_op (ReserveUpload _ _ _ _) = True"
| "ledger_op (CompleteUpload _ _ _ _) = True"
| "ledger_op (DeleteUpload _ _ _ _) = True"
| "ledger_op (ClaimDeletions _ _ _ _ _ _) = True"
| "ledger_op (FinishDeletion _ _ _ _ _) = True"
| "ledger_op _ = False"

lemma other_op_frame:
  "\<not> ledger_op x \<Longrightarrow> md_snapshots (step tx x d) = md_snapshots d
     \<and> md_stored_snapshots (step tx x d) = md_stored_snapshots d
     \<and> md_artifact_objects (step tx x d) = md_artifact_objects d"
  by (cases x) (auto simp: other_defs Let_def split: sum.splits option.splits)

lemma step_ledger: "ledger_ok d \<Longrightarrow> ledger_ok (step tx x d)"
proof (cases "ledger_op x")
  case True
  assume "ledger_ok d"
  with True show ?thesis
    by (cases x) (simp_all add: ledger_ok_put_snapshot ledger_ok_put_stored_snapshot ledger_ok_delete_snapshot
        ledger_ok_reserve ledger_ok_complete ledger_ok_delete_upload ledger_ok_claim ledger_ok_finish)
next
  case False
  assume "ledger_ok d"
  then show ?thesis using other_op_frame [OF False] by simp
qed

lemmas frame_defs = put_key_def revoke_key_def append_usage_def register_node_def put_tenant_def renew_worker_lease_def
  put_snapshot_def put_stored_snapshot_def link_keys_def delete_snapshot_def unlink_keys_def
  reserve_artifact_upload_def complete_artifact_upload_def delete_artifact_upload_def claim_artifact_deletions_def
  finish_artifact_deletion_def put_guard_proposal_def put_guard_tool_approval_def decide_guard_tool_approval_def
  consume_guard_tool_approval_def

section \<open>The invariant of the store\<close>

definition store_inv :: "texts \<Rightarrow> memory_data \<Rightarrow> bool" where
  "store_inv tx d \<longleftrightarrow> tables_ok d \<and> ledger_ok d \<and> guard_ok d \<and> incidents_inv tx (md_guard_incidents d) \<and> approvals_ok d"

text \<open>
  The only route that records a request for a tool approval (\<^verbatim>\<open>aiec-api/src/guard_proposals.rs\<close>) builds
  it undecided and unspent. The store itself does not check it.
\<close>

fun admissible :: "op \<Rightarrow> bool" where
  "admissible (PutApproval now a) = fresh_ask a"
| "admissible _ = True"

fun guard_op :: "op \<Rightarrow> bool" where
  "guard_op (CreateSandbox _) = True"
| "guard_op (UpdateState _ _ _ _ _ _) = True"
| "guard_op (DeleteSandbox _ _ _) = True"
| "guard_op (PutBudget _) = True"
| "guard_op (ReserveBudget _ _ _ _ _) = True"
| "guard_op (MarkQuarantined _ _ _ _ _) = True"
| "guard_op (UpdatePolicy _ _ _ _ _) = True"
| "guard_op (ReleaseQuarantine _ _ _ _) = True"
| "guard_op _ = False"

fun approval_op :: "op \<Rightarrow> bool" where
  "approval_op (PutApproval _ _) = True"
| "approval_op (DecideApproval _) = True"
| "approval_op (ConsumeApproval _ _ _ _ _ _) = True"
| "approval_op _ = False"

lemma guard_frame:
  "\<not> guard_op x \<Longrightarrow> md_sandboxes (step tx x d) = md_sandboxes d \<and> md_guard_budgets (step tx x d) = md_guard_budgets d"
  by (cases x) (auto simp: frame_defs put_guard_incident_def Let_def split_beta split: sum.splits option.splits)

lemma approval_frame: "\<not> approval_op x \<Longrightarrow> md_guard_tool_approvals (step tx x d) = md_guard_tool_approvals d"
  by (cases x) (auto simp: frame_defs other_defs Let_def split_beta split: sum.splits option.splits)

lemma incident_frame: "\<forall>now v. x \<noteq> PutIncident now v \<Longrightarrow> md_guard_incidents (step tx x d) = md_guard_incidents d"
  by (cases x) (auto simp: frame_defs other_defs Let_def split_beta split: sum.splits option.splits)

lemma lease_frame:
  "\<forall>now later tenant i generation ttl. x \<noteq> RenewLease now later tenant i generation ttl
    \<Longrightarrow> md_leases (step tx x d) = md_leases d"
  by (cases x) (auto simp: frame_defs other_defs Let_def split_beta split: sum.splits option.splits)

lemma step_guard: "guard_ok d \<Longrightarrow> guard_ok (step tx x d)"
proof (cases "guard_op x")
  case True
  assume "guard_ok d"
  with True show ?thesis
    by (cases x) (simp_all add: guard_ok_create guard_ok_update_state guard_ok_delete_sandbox guard_ok_update_policy
        guard_ok_put_budget guard_ok_reserve_budget guard_ok_mark guard_ok_release)
next
  case False
  assume "guard_ok d"
  then show ?thesis using guard_frame [OF False] by simp
qed

lemma step_incidents:
  "incidents_inv tx (md_guard_incidents d) \<Longrightarrow> incidents_inv tx (md_guard_incidents (step tx x d))"
  by (cases "\<exists>now v. x = PutIncident now v") (auto simp: incidents_put incident_frame)

lemma step_approvals:
  assumes "approvals_ok d" and "admissible x"
  shows "approvals_ok (step tx x d) \<and> history_extends (md_guard_tool_approvals d) (md_guard_tool_approvals (step tx x d))"
proof (cases "approval_op x")
  case True
  with assms show ?thesis
    by (cases x) (simp_all add: put_approval_law decide_approval_law consume_approval_law)
next
  case False
  with assms show ?thesis by (simp add: approval_frame)
qed

lemma step_tables:
  assumes "store_inv tx d" and "admissible x"
  shows "tables_ok (step tx x d)"
proof -
  have inv: "tables_ok d" "ledger_ok d" "guard_ok d" "incidents_inv tx (md_guard_incidents d)" "approvals_ok d"
    using assms(1) by (simp_all add: store_inv_def)
  show ?thesis
  proof (cases "approval_op x")
    case True
    have "step tx x d = d\<lparr>md_guard_tool_approvals := md_guard_tool_approvals (step tx x d)\<rparr>"
      using True by (cases x) (auto simp: put_guard_tool_approval_def decide_guard_tool_approval_def
          consume_guard_tool_approval_def Let_def split: option.splits)
    with inv(1) step_approvals [OF inv(5) assms(2), of tx] show ?thesis by (blast intro: tables_approvals)
  next
    case False
    with inv show ?thesis
      by (cases x) (simp_all add: tables_create tables_update_state tables_delete_sandbox tables_put_key tables_revoke_key
          tables_put_snapshot tables_put_stored_snapshot tables_delete_snapshot tables_usage tables_node tables_tenant
          tables_renew tables_reserve_upload tables_complete_upload tables_delete_upload tables_claim tables_finish
          tables_put_budget tables_reserve_budget tables_put_incident tables_mark tables_update_policy tables_release
          tables_proposal)
  qed
qed

lemma step_inv: "store_inv tx d \<Longrightarrow> admissible x \<Longrightarrow> store_inv tx (step tx x d)"
  using step_tables step_ledger step_guard step_incidents step_approvals unfolding store_inv_def by blast

end
