(* ===== verification/Store_Runs.thy ===== *)
theory Store_Runs
  imports Mem_Machine
begin

text \<open>
  Sequences of store operations: what an invariant of every step gives for every run, and what no
  operation undoes. A retired key stays retired, budgets, incidents and leases move one way, and
  quarantine ends by a release only.
\<close>

section \<open>Runs\<close>

locale invariant_machine =
  fixes init :: "'s \<Rightarrow> bool"
    and ok :: "'o \<Rightarrow> bool"
    and nxt :: "'o \<Rightarrow> 's \<Rightarrow> 's"
    and inv :: "'s \<Rightarrow> bool"
  assumes init_inv: "init s \<Longrightarrow> inv s"
    and nxt_inv: "inv s \<Longrightarrow> ok x \<Longrightarrow> inv (nxt x s)"
begin

lemma run_keeps: "inv s \<Longrightarrow> list_all ok xs \<Longrightarrow> inv (fold nxt xs s)"
  by (induction xs arbitrary: s) (simp_all add: nxt_inv)

lemma run_inv: "init s \<Longrightarrow> list_all ok xs \<Longrightarrow> inv (fold nxt xs s)"
  by (simp add: init_inv run_keeps)

end

locale monotone_machine = invariant_machine +
  fixes rel :: "'a \<Rightarrow> 'a \<Rightarrow> bool"
  assumes rel_refl: "rel s s"
    and rel_trans: "rel s t \<Longrightarrow> rel t u \<Longrightarrow> rel s u"
    and nxt_rel: "inv s \<Longrightarrow> ok x \<Longrightarrow> rel s (nxt x s)"
begin

lemma run_rel: "inv s \<Longrightarrow> list_all ok xs \<Longrightarrow> rel s (fold nxt xs s)"
proof (induction xs arbitrary: s)
  case (Cons x xs)
  then have "rel s (nxt x s)" "rel (nxt x s) (fold nxt xs (nxt x s))"
    by (simp_all add: nxt_rel nxt_inv)
  then show ?case using rel_trans by simp
qed (simp add: rel_refl)

end

text \<open>The store starts empty; worker leases are only ever renewed by it, so some may be there.\<close>

definition initial :: "memory_data \<Rightarrow> bool" where
  "initial d \<longleftrightarrow> (\<exists>leases. table_ok wl_id leases \<and> d = empty_memory\<lparr>md_leases := leases\<rparr>)"

definition run_ops :: "texts \<Rightarrow> op list \<Rightarrow> memory_data \<Rightarrow> memory_data" where
  "run_ops tx xs d = fold (step tx) xs d"

lemma initial_inv: "initial d \<Longrightarrow> store_inv tx d"
proof -
  assume "initial d"
  then obtain leases where l: "table_ok wl_id leases" and d: "d = empty_memory\<lparr>md_leases := leases\<rparr>"
    by (auto simp: initial_def)
  have "ledger_ok d" by (simp add: d empty_memory_def ledger_inv_def refs_def holders_def held_def)
  then show ?thesis using l
    by (simp add: store_inv_def tables_ok_def d empty_memory_def guard_inv_def incidents_inv_def approvals_inv_def)
qed

section \<open>What no operation undoes\<close>

lemma retired_put_snapshot:
  "retired_key (md_artifact_objects d) k \<Longrightarrow> retired_key (md_artifact_objects (snd (put_snapshot d now v))) k"
  by (cases "each_r (check_link (md_artifact_objects d)) [Some (sn_object_key v)]")
    (simp_all add: put_snapshot_def link_keys_def retired_link del: each_r.simps link_loop.simps)

lemma retired_put_stored_snapshot:
  "retired_key (md_artifact_objects d) k \<Longrightarrow> retired_key (md_artifact_objects (snd (put_stored_snapshot d now v))) k"
  by (cases "each_r (check_link (md_artifact_objects d)) (stored_keys v)")
    (simp_all add: put_stored_snapshot_def link_keys_def retired_link)

lemma retired_unlink_keys:
  "retired_key (md_artifact_objects d) k \<Longrightarrow> retired_key (md_artifact_objects (snd (unlink_keys d ks))) k"
  by (cases "unlink_loop [] ks (md_artifact_objects d)") (simp_all add: unlink_keys_def retired_unlink)

lemma retired_delete_snapshot:
  "retired_key (md_artifact_objects d) k \<Longrightarrow> retired_key (md_artifact_objects (snd (delete_snapshot d tenant i))) k"
  by (simp add: delete_snapshot_def Let_def retired_unlink_keys split: option.split)

lemma retired_reserve:
  "retired_key (md_artifact_objects d) k \<Longrightarrow> retired_key (md_artifact_objects (snd (reserve_artifact_upload d now tenant run key))) k"
  by (auto simp: reserve_artifact_upload_def retired_key_def split: sum.split option.split)

lemma retired_complete:
  "retired_key (md_artifact_objects d) k \<Longrightarrow> retired_key (md_artifact_objects (snd (complete_artifact_upload d now tenant run key))) k"
  by (auto simp: complete_artifact_upload_def retired_key_def retired_def Let_def split: option.splits dest: owned_artifact_Some)

lemma retired_delete_upload:
  "retired_key (md_artifact_objects d) k \<Longrightarrow> retired_key (md_artifact_objects (snd (delete_artifact_upload d now tenant run key))) k"
  by (auto simp: delete_artifact_upload_def retired_key_def retired_def split: option.splits)

lemma retired_claim:
  "retired_key (md_artifact_objects d) k
    \<Longrightarrow> retired_key (md_artifact_objects (snd (claim_artifact_deletions d fresh now retention grace limit lease))) k"
  by (simp add: claim_artifact_deletions_def Let_def split_beta retired_claim_loop)

lemma retired_finish:
  "retired_key (md_artifact_objects d) k
    \<Longrightarrow> retired_key (md_artifact_objects (snd (finish_artifact_deletion d now key claim deleted retry_at))) k"
  by (auto simp: finish_artifact_deletion_def retired_key_def retired_def split: option.splits)

lemma step_retired:
  assumes "retired_key (md_artifact_objects d) k"
  shows "retired_key (md_artifact_objects (step tx x d)) k"
proof (cases "ledger_op x")
  case True
  with assms show ?thesis
    by (cases x) (simp_all add: retired_put_snapshot retired_put_stored_snapshot retired_delete_snapshot retired_reserve
        retired_complete retired_delete_upload retired_claim retired_finish)
next
  case False
  with assms show ?thesis by (simp add: other_op_frame)
qed


section \<open>Budgets, incidents and leases move one way\<close>

definition budget_extends :: "guard_budget_state \<Rightarrow> guard_budget_state \<Rightarrow> bool" where
  "budget_extends a b \<longleftrightarrow>
     gi_sandbox_id (gb_identity b) = gi_sandbox_id (gb_identity a) \<and> gi_tenant_id (gb_identity b) = gi_tenant_id (gb_identity a)
     \<and> gb_expires_at b = gb_expires_at a \<and> gb_max_model_requests b = gb_max_model_requests a
     \<and> gb_max_bytes_in b = gb_max_bytes_in a \<and> gb_max_bytes_out b = gb_max_bytes_out a
     \<and> gb_model_requests a \<le> gb_model_requests b \<and> gb_bytes_in a \<le> gb_bytes_in b \<and> gb_bytes_out a \<le> gb_bytes_out b"

definition table_extends :: "('v \<Rightarrow> 'v \<Rightarrow> bool) \<Rightarrow> ('k \<times> 'v) list \<Rightarrow> ('k \<times> 'v) list \<Rightarrow> bool" where
  "table_extends ext m n \<longleftrightarrow> (\<forall>i a. map_of m i = Some a \<longrightarrow> (\<exists>b. map_of n i = Some b \<and> ext a b))"

lemma table_extends_refl: "(\<And>a. ext a a) \<Longrightarrow> table_extends ext m m"
  by (simp add: table_extends_def)

lemma table_extends_trans:
  assumes "\<And>a b c. ext a b \<Longrightarrow> ext b c \<Longrightarrow> ext a c" and "table_extends ext l m" and "table_extends ext m n"
  shows "table_extends ext l n"
  unfolding table_extends_def
proof (intro allI impI)
  fix i a assume "map_of l i = Some a"
  then obtain b where "map_of m i = Some b" "ext a b" using assms(2) unfolding table_extends_def by blast
  moreover then obtain c where "map_of n i = Some c" "ext b c" using assms(3) unfolding table_extends_def by blast
  ultimately show "\<exists>c. map_of n i = Some c \<and> ext a c" using assms(1) by blast
qed

lemma table_extends_update:
  "(\<And>a. ext a a) \<Longrightarrow> (\<And>a. map_of m i = Some a \<Longrightarrow> ext a b) \<Longrightarrow> table_extends ext m (AList.update i b m)"
  unfolding table_extends_def by simp

lemma budget_extends_refl: "budget_extends a a"
  by (simp add: budget_extends_def)

lemma budget_extends_trans: "budget_extends a b \<Longrightarrow> budget_extends b c \<Longrightarrow> budget_extends a c"
  unfolding budget_extends_def by (auto intro: order_trans)

lemma checked_add_mono: "checked_add_w a b = Some c \<Longrightarrow> a \<le> (c :: u64)"
  by (rule checked_add_w_ge)

lemma reserve_extends: "reserve b s identity debit now = Inr r \<Longrightarrow> budget_extends b r"
  unfolding budget_extends_def
  using reserve_Inr(6-8) [of b s identity debit now r]
  by (subst (1 2 3 4 5 6) reserve_Inr(5) [of b s identity debit now r]) (auto dest: checked_add_mono)

lemma initialize_extends: "initialize (Some old) v = Inr r \<Longrightarrow> budget_extends old r"
  by (auto simp: initialize_def budget_extends_def split: if_splits)

lemma budgets_put: "table_extends budget_extends (md_guard_budgets d) (md_guard_budgets (snd (put_guard_budget d v)))"
proof (cases "bind_r (owned d (gi_tenant_id (gb_identity v)) (gi_sandbox_id (gb_identity v))) (\<lambda>sandbox.
             bind_r (initialize (map_of (md_guard_budgets d) (sb_id sandbox)) v) (\<lambda>state. Inr (sandbox, state)))")
  case (Inl e)
  then show ?thesis by (simp add: put_guard_budget_def table_extends_refl budget_extends_refl)
next
  case (Inr p)
  then obtain s b where p: "p = (s, b)" and b: "initialize (map_of (md_guard_budgets d) (sb_id s)) v = Inr b"
    by (auto simp: result_simps)
  let ?b = "if sb_state s = Quarantined then b\<lparr>gb_quarantined := True\<rparr> else b"
  have "budget_extends a ?b" if "map_of (md_guard_budgets d) (sb_id s) = Some a" for a
    using initialize_extends [OF b [unfolded that]] by (simp add: budget_extends_def)
  then have "table_extends budget_extends (md_guard_budgets d) (AList.update (sb_id s) ?b (md_guard_budgets d))"
    by (intro table_extends_update budget_extends_refl)
  then show ?thesis using Inr p by (simp add: put_guard_budget_def Let_def)
qed

lemma budgets_reserve:
  "table_extends budget_extends (md_guard_budgets d) (md_guard_budgets (snd (reserve_guard_budget d now later identity fence debit)))"
proof (cases "fst (reserve_guard_budget d now later identity fence debit)")
  case (Inl e)
  then show ?thesis by (simp add: reserve_guard_budget_Inl table_extends_refl budget_extends_refl)
next
  case (Inr r)
  then obtain s b where b: "map_of (md_guard_budgets d) (sb_id s) = Some b" "reserve b s identity debit later = Inr r"
    and d': "snd (reserve_guard_budget d now later identity fence debit) =
       d\<lparr>md_guard_budgets := AList.update (sb_id s) r (md_guard_budgets d)\<rparr>"
    by (rule reserve_guard_budget_Inr)
  have "budget_extends a r" if "map_of (md_guard_budgets d) (sb_id s) = Some a" for a
    using reserve_extends [OF b(2)] that b(1) by simp
  then show ?thesis unfolding d' by (simp add: table_extends_update budget_extends_refl)
qed

lemma budgets_quarantined:
  "map_of m i = Some b \<Longrightarrow> table_extends budget_extends m (AList.update i (b\<lparr>gb_quarantined := q\<rparr>) m)"
  by (rule table_extends_update) (simp_all add: budget_extends_def)

lemma budgets_mark:
  "table_extends budget_extends (md_guard_budgets d) (md_guard_budgets (snd (mark_guard_quarantined d now later tenant i fence)))"
  by (auto simp: mark_guard_quarantined_def result_simps Let_def budgets_quarantined table_extends_refl budget_extends_refl
      split: sum.splits)

lemma budgets_release:
  "table_extends budget_extends (md_guard_budgets d) (md_guard_budgets (snd (release_guard_quarantine d now tenant i by_whom)))"
  by (auto simp: release_guard_quarantine_def Let_def budgets_quarantined table_extends_refl budget_extends_refl
      split: sum.splits option.splits)

lemma budgets_frame:
  "md_guard_budgets (snd (create_sandbox d v)) = md_guard_budgets d"
  "md_guard_budgets (snd (update_state d now tenant i expected next path)) = md_guard_budgets d"
  "md_guard_budgets (snd (delete_sandbox d now tenant i)) = md_guard_budgets d"
  "md_guard_budgets (snd (update_guard_policy d now tenant i guard h)) = md_guard_budgets d"
  by (simp_all add: create_sandbox_def update_state_def delete_sandbox_def update_guard_policy_def Let_def split: sum.split)

lemma step_budgets: "table_extends budget_extends (md_guard_budgets d) (md_guard_budgets (step tx x d))"
proof (cases "guard_op x")
  case True
  then show ?thesis
    by (cases x) (simp_all add: budgets_put budgets_reserve budgets_mark budgets_release budgets_frame
        table_extends_refl budget_extends_refl)
next
  case False
  then show ?thesis by (simp add: guard_frame table_extends_refl budget_extends_refl)
qed

lemma keeps_trans: "keeps a b \<Longrightarrow> keeps b c \<Longrightarrow> keeps a c"
  by (auto simp: keeps_def)

lemma incident_extends_refl: "incident_extends c c"
  by (simp add: incident_extends_def keeps_def)

lemma incident_extends_completed:
  assumes ab: "incident_extends a b" and bc: "incident_extends b c" and fin: "ic_completed_at a \<noteq> None"
  shows "c = a\<lparr>ic_notified_at := ic_notified_at c, ic_errors := ic_errors c\<rparr>"
proof -
  have b: "b = a\<lparr>ic_notified_at := ic_notified_at b, ic_errors := ic_errors b\<rparr>"
    using ab fin unfolding incident_extends_def by blast
  have "ic_completed_at b = ic_completed_at a" by (subst b) simp
  then have c: "c = b\<lparr>ic_notified_at := ic_notified_at c, ic_errors := ic_errors c\<rparr>"
    using bc fin unfolding incident_extends_def by simp
  show ?thesis by (subst c, subst b) simp
qed

lemma incident_extendsD:
  assumes "incident_extends a b"
  shows "(ic_id b, ic_identity b, ic_fence b, ic_triggered_at b, ic_event_start_sequence b, ic_event_previous_hash b) =
      (ic_id a, ic_identity a, ic_fence a, ic_triggered_at a, ic_event_start_sequence a, ic_event_previous_hash a)"
    and "prefix (ic_events a) (ic_events b)" "prefix (ic_rules a) (ic_rules b)" "prefix (ic_errors a) (ic_errors b)"
    and "keeps (ic_network_cut_at a) (ic_network_cut_at b)" "keeps (ic_paused_at a) (ic_paused_at b)"
    and "keeps (ic_snapshot_id a) (ic_snapshot_id b)" "keeps (ic_completed_at a) (ic_completed_at b)"
    and "keeps (ic_notified_at a) (ic_notified_at b)"
  using assms by (simp_all only: incident_extends_def prod.inject simp_thms)

lemma incident_extends_trans:
  assumes ab: "incident_extends a b" and bc: "incident_extends b c"
  shows "incident_extends a c"
proof -
  note d = incident_extendsD [OF ab] and e = incident_extendsD [OF bc]
  have same: "(ic_id c, ic_identity c, ic_fence c, ic_triggered_at c, ic_event_start_sequence c, ic_event_previous_hash c) =
      (ic_id a, ic_identity a, ic_fence a, ic_triggered_at a, ic_event_start_sequence a, ic_event_previous_hash a)"
    using e(1) d(1) by (rule trans)
  have final: "ic_completed_at a \<noteq> None \<longrightarrow> c = a\<lparr>ic_notified_at := ic_notified_at c, ic_errors := ic_errors c\<rparr>"
    using incident_extends_completed [OF ab bc] by (rule impI)
  show ?thesis
    unfolding incident_extends_def
    using same prefix_order.trans [OF d(2) e(2)] prefix_order.trans [OF d(3) e(3)] prefix_order.trans [OF d(4) e(4)]
      keeps_trans [OF d(5) e(5)] keeps_trans [OF d(6) e(6)] keeps_trans [OF d(7) e(7)] keeps_trans [OF d(8) e(8)]
      keeps_trans [OF d(9) e(9)] final
    by (simp only: prod.inject simp_thms)
qed

lemma incidents_extend_put:
  "table_extends incident_extends (md_guard_incidents d) (md_guard_incidents (snd (put_guard_incident tx d now v)))"
  using put_incident_cases [of tx d now v]
proof (elim disjE exE conjE)
  assume "put_guard_incident tx d now v = (fst (put_guard_incident tx d now v), d)"
  then have "snd (put_guard_incident tx d now v) = d" by (metis snd_conv)
  then show ?thesis by (simp add: table_extends_refl incident_extends_refl)
next
  let ?i = "gi_sandbox_id (ic_identity v)"
  fix r assume m: "merge_incident tx (map_of (md_guard_incidents d) ?i) v = Inr r"
    and e: "put_guard_incident tx d now v = (Inr r, d\<lparr>md_guard_incidents := AList.update ?i r (md_guard_incidents d)\<rparr>)"
  have "incident_extends old r" if "map_of (md_guard_incidents d) ?i = Some old" for old
    using merge_incident_Some(1) [OF m [unfolded that]] .
  then show ?thesis unfolding e by (simp add: table_extends_update incident_extends_refl)
qed

lemma step_incidents_extend: "table_extends incident_extends (md_guard_incidents d) (md_guard_incidents (step tx x d))"
proof (cases "\<exists>now v. x = PutIncident now v")
  case True
  then show ?thesis by (auto simp: incidents_extend_put)
next
  case False
  then show ?thesis by (simp add: incident_frame table_extends_refl incident_extends_refl)
qed

definition lease_extends :: "worker_lease \<Rightarrow> worker_lease \<Rightarrow> bool" where
  "lease_extends a b \<longleftrightarrow> wl_id b = wl_id a \<and> wl_tenant_id b = wl_tenant_id a \<and> wl_sandbox_id b = wl_sandbox_id a
     \<and> wl_node_id b = wl_node_id a \<and> wl_status b = wl_status a \<and> wl_generation a \<le> wl_generation b
     \<and> (wl_generation b = wl_generation a \<longrightarrow> b = a)"

lemma lease_extends_refl: "lease_extends a a"
  by (simp add: lease_extends_def)

lemma lease_extends_trans: "lease_extends a b \<Longrightarrow> lease_extends b c \<Longrightarrow> lease_extends a c"
  unfolding lease_extends_def by (metis order_antisym order_trans)

lemma leases_renew:
  "table_extends lease_extends (md_leases d) (md_leases (snd (renew_worker_lease d now later tenant i generation ttl)))"
proof (cases "get_worker_lease d tenant i")
  case (Inl e)
  then show ?thesis by (simp add: renew_worker_lease_def table_extends_refl lease_extends_refl)
next
  case (Inr l)
  then have l: "map_of (md_leases d) i = Some l" by (simp add: get_worker_lease_Inr)
  let ?l = "l\<lparr>wl_generation := wl_generation l + 1, wl_updated_at := later,
      wl_expires_at := later + seconds (int (unat ttl))\<rparr>"
  have "lease_extends a ?l" if "map_of (md_leases d) i = Some a" for a
    using l that by (simp add: lease_extends_def)
  then have "table_extends lease_extends (md_leases d) (AList.update i ?l (md_leases d))"
    by (intro table_extends_update lease_extends_refl)
  moreover have "md_leases (snd (renew_worker_lease d now later tenant i generation ttl))
      \<in> {md_leases d, AList.update i ?l (md_leases d)}"
    unfolding renew_worker_lease_def Inr sum.case Let_def by (simp split: if_split)
  ultimately show ?thesis by (auto simp: table_extends_refl lease_extends_refl)
qed

lemma step_leases: "table_extends lease_extends (md_leases d) (md_leases (step tx x d))"
proof (cases "\<exists>now later tenant i generation ttl. x = RenewLease now later tenant i generation ttl")
  case True
  then show ?thesis by (auto simp: leases_renew)
next
  case False
  then show ?thesis by (simp add: lease_frame table_extends_refl lease_extends_refl)
qed

lemma history_table: "history_extends = table_extends approval_extends"
  by (intro ext) (simp add: history_extends_def table_extends_def)


text \<open>Quarantine ends by a release only.\<close>

definition quarantined :: "memory_data \<Rightarrow> uuid \<Rightarrow> bool" where
  "quarantined d i \<longleftrightarrow> (\<exists>s. map_of (md_sandboxes d) i = Some s \<and> sb_state s = Quarantined)"

fun releases :: "op \<Rightarrow> uuid \<Rightarrow> bool" where
  "releases (ReleaseQuarantine now tenant j released_by) i = (i = j)"
| "releases _ i = False"

lemma quarantined_update:
  "quarantined d i \<Longrightarrow> (i = j \<Longrightarrow> sb_state s = Quarantined) \<Longrightarrow> quarantined (d\<lparr>md_sandboxes := AList.update j s (md_sandboxes d)\<rparr>) i"
  by (auto simp: quarantined_def)

lemma quarantined_cong: "md_sandboxes d = md_sandboxes e \<Longrightarrow> quarantined d i = quarantined e i"
  by (simp add: quarantined_def)

lemma quarantined_create: "quarantined d i \<Longrightarrow> quarantined (snd (create_sandbox d v)) i"
  by (auto simp: create_sandbox_def quarantined_def)

lemma quarantined_update_state: "quarantined d i \<Longrightarrow> quarantined (snd (update_state d now tenant j expected next path)) i"
proof (cases "owned d tenant j")
  case (Inr s)
  assume q: "quarantined d i"
  have "\<not> can_transition_to (sb_state s) next" if "i = j"
    using q that Inr by (auto simp: quarantined_def owned_Inr no_exit_from_quarantine)
  then show ?thesis using q Inr unfolding update_state_def Inr sum.case Let_def
    by (auto intro!: quarantined_update)
qed (simp add: update_state_def)

lemma quarantined_delete: "quarantined d i \<Longrightarrow> quarantined (snd (delete_sandbox d now tenant j)) i"
proof (cases "owned d tenant j")
  case (Inr s)
  assume q: "quarantined d i"
  have "sb_state s = Quarantined" if "i = j" using q that Inr by (auto simp: quarantined_def owned_Inr)
  then show ?thesis using q unfolding delete_sandbox_def Inr sum.case by (auto intro!: quarantined_update)
qed (simp add: delete_sandbox_def)

lemma quarantined_policy: "quarantined d i \<Longrightarrow> quarantined (snd (update_guard_policy d now tenant j guard h)) i"
proof (cases "owned d tenant j")
  case (Inr s)
  assume q: "quarantined d i"
  have "sb_state s = Quarantined" if "i = j" using q that Inr by (auto simp: quarantined_def owned_Inr)
  then show ?thesis using q unfolding update_guard_policy_def Inr sum.case Let_def by (auto intro!: quarantined_update)
qed (simp add: update_guard_policy_def)

lemma quarantined_release:
  "quarantined d i \<Longrightarrow> i \<noteq> j \<Longrightarrow> quarantined (snd (release_guard_quarantine d now tenant j released_by)) i"
  by (auto simp: release_guard_quarantine_def quarantined_def Let_def split: sum.split option.split)

lemma quarantined_mark: "quarantined d i \<Longrightarrow> quarantined (snd (mark_guard_quarantined d now later tenant j fence)) i"
  by (auto simp: mark_guard_quarantined_def quarantined_def Let_def split: sum.split)

lemma quarantined_budgets:
  "quarantined d i \<Longrightarrow> quarantined (snd (put_guard_budget d v)) i"
  "quarantined d i \<Longrightarrow> quarantined (snd (reserve_guard_budget d now later identity fence debit)) i"
  by (auto simp: put_guard_budget_def reserve_guard_budget_def quarantined_def Let_def split: sum.split)

lemma step_quarantined:
  assumes "quarantined d i" and "\<not> releases x i"
  shows "quarantined (step tx x d) i"
proof (cases "guard_op x")
  case True
  with assms show ?thesis
    by (cases x) (simp_all add: quarantined_create quarantined_update_state quarantined_delete quarantined_policy
        quarantined_release quarantined_mark quarantined_budgets)
next
  case False
  with assms show ?thesis using quarantined_cong [of "step tx x d" d] by (simp add: guard_frame)
qed

lemma quarantine_blocks_spending:
  assumes inv: "guard_ok d" and q: "quarantined d (gi_sandbox_id identity)"
  shows "\<exists>e. reserve_guard_budget d now later identity fence debit = (Inl e, d)"
proof (cases "fst (reserve_guard_budget d now later identity fence debit)")
  case (Inl e)
  with reserve_guard_budget_Inl [OF Inl] show ?thesis by (metis prod.collapse)
next
  case (Inr r)
  then obtain s b where s: "map_of (md_sandboxes d) (gi_sandbox_id identity) = Some s"
    and r: "reserve b s identity debit later = Inr r" by (rule reserve_guard_budget_Inr)
  have "sb_state s = Quarantined" using q s by (simp add: quarantined_def)
  with reserve_Inr(3) [OF r] show ?thesis by (simp add: consumes_def)
qed

end
