(* ===== verification/Store_Machines.thy ===== *)
theory Store_Machines
  imports Store_Runs
begin

text \<open>
  The in-memory store as an instance of the machine interfaces of \<open>Store_Runs\<close>, one instance per
  history it keeps, and the sample store the witnesses evaluate.
\<close>

section \<open>The store as an instance of the machines\<close>

interpretation store: invariant_machine initial admissible "step tx" "store_inv tx" for tx
  by unfold_locales (simp_all add: initial_inv step_inv)

interpretation retire: monotone_machine initial admissible "step tx" "store_inv tx"
  "\<lambda>d e. \<forall>k. retired_key (md_artifact_objects d) k \<longrightarrow> retired_key (md_artifact_objects e) k" for tx
  by unfold_locales (auto simp: step_retired)

interpretation history: monotone_machine initial admissible "step tx" "store_inv tx"
  "\<lambda>d e. table_extends approval_extends (md_guard_tool_approvals d) (md_guard_tool_approvals e)" for tx
proof
  show "table_extends approval_extends (md_guard_tool_approvals s) (md_guard_tool_approvals s)" for s
    by (rule table_extends_refl) simp
  show "table_extends approval_extends (md_guard_tool_approvals s) (md_guard_tool_approvals u)"
    if "table_extends approval_extends (md_guard_tool_approvals s) (md_guard_tool_approvals t)"
      "table_extends approval_extends (md_guard_tool_approvals t) (md_guard_tool_approvals u)" for s t u
    using approval_extends_trans that by (rule table_extends_trans)
  show "table_extends approval_extends (md_guard_tool_approvals s) (md_guard_tool_approvals (step tx x s))"
    if "store_inv tx s" "admissible x" for s x
    using step_approvals [of s x tx] that by (simp add: store_inv_def history_table)
qed

interpretation budgets: monotone_machine initial admissible "step tx" "store_inv tx"
  "\<lambda>d e. table_extends budget_extends (md_guard_budgets d) (md_guard_budgets e)" for tx
  by unfold_locales (auto simp: step_budgets intro: table_extends_refl budget_extends_refl
      table_extends_trans [OF budget_extends_trans])

interpretation incidents: monotone_machine initial admissible "step tx" "store_inv tx"
  "\<lambda>d e. table_extends incident_extends (md_guard_incidents d) (md_guard_incidents e)" for tx
  by unfold_locales (auto simp: step_incidents_extend intro: table_extends_refl incident_extends_refl
      table_extends_trans [OF incident_extends_trans])

interpretation leases: monotone_machine initial admissible "step tx" "store_inv tx"
  "\<lambda>d e. table_extends lease_extends (md_leases d) (md_leases e)" for tx
  by unfold_locales (auto simp: step_leases intro: table_extends_refl lease_extends_refl
      table_extends_trans [OF lease_extends_trans])

lemma run_inv_ops: "initial d \<Longrightarrow> list_all admissible xs \<Longrightarrow> store_inv tx (run_ops tx xs d)"
  unfolding run_ops_def by (rule store.run_inv)

lemma run_keeps_ops: "store_inv tx d \<Longrightarrow> list_all admissible xs \<Longrightarrow> store_inv tx (run_ops tx xs d)"
  unfolding run_ops_def by (rule store.run_keeps)

lemma run_ops_append: "run_ops tx (xs @ ys) d = run_ops tx ys (run_ops tx xs d)"
  by (simp add: run_ops_def)

section \<open>Proposals are decided once\<close>

definition same_question :: "guard_proposal \<Rightarrow> guard_proposal \<Rightarrow> bool" where
  "same_question p q \<longleftrightarrow>
     gr_sandbox_id p = gr_sandbox_id q \<and> gr_tenant_id p = gr_tenant_id q \<and> gr_agent_id p = gr_agent_id q
     \<and> gr_base_policy_hash p = gr_base_policy_hash q \<and> gr_request p = gr_request q \<and> gr_created_at p = gr_created_at q"

definition proposal_extends :: "guard_proposal \<Rightarrow> guard_proposal \<Rightarrow> bool" where
  "proposal_extends p q \<longleftrightarrow> gr_id q = gr_id p \<and> same_question p q
     \<and> (gr_state p \<noteq> ProposalPending \<longrightarrow> q = p)
     \<and> (gr_state p = ProposalPending \<longrightarrow> gr_state q \<noteq> ProposalPending \<longrightarrow> gr_decided_by q \<noteq> None \<and> gr_decided_at q \<noteq> None)"

lemma proposal_extends_refl: "proposal_extends p p"
  by (simp add: proposal_extends_def same_question_def)

lemma proposal_extends_trans: "proposal_extends p q \<Longrightarrow> proposal_extends q r \<Longrightarrow> proposal_extends p r"
  unfolding proposal_extends_def same_question_def by metis

lemma proposal_extendsI:
  "gr_id p = gr_id q \<Longrightarrow> same_question p q \<Longrightarrow> gr_state p = ProposalPending
    \<Longrightarrow> \<not> (gr_state q \<noteq> ProposalPending \<and> (gr_decided_by q = None \<or> gr_decided_at q = None)) \<Longrightarrow> proposal_extends p q"
  by (auto simp: proposal_extends_def)

lemma put_proposal_eq:
  assumes o: "owned d (gr_tenant_id v) (gr_sandbox_id v) = Inr s"
  defines "p \<equiv> stored_proposal d v"
  shows "put_guard_proposal d v =
    (let d' = d\<lparr>md_guard_proposals := AList.update (gr_id v) p (md_guard_proposals d)\<rparr>
     in if \<not> same_question p v then (Inl (StoreConflict ''a policy proposal cannot change what it asked for''), d')
        else if gr_state p \<noteq> ProposalPending then (Inr p, d')
        else if gr_state v \<noteq> ProposalPending \<and> (gr_decided_by v = None \<or> gr_decided_at v = None)
        then (Inl (StoreConflict ''a decided policy proposal requires an operator and a time''), d')
        else (Inr v, d\<lparr>md_guard_proposals := AList.update (gr_id v) v (md_guard_proposals d)\<rparr>))"
proof -
  have neg: "(gr_sandbox_id p \<noteq> gr_sandbox_id v \<or> gr_tenant_id p \<noteq> gr_tenant_id v \<or> gr_agent_id p \<noteq> gr_agent_id v
      \<or> gr_base_policy_hash p \<noteq> gr_base_policy_hash v \<or> gr_request p \<noteq> gr_request v \<or> gr_created_at p \<noteq> gr_created_at v)
      = (\<not> same_question p v)"
    by (simp only: same_question_def de_Morgan_conj)
  have twice: "d\<lparr>md_guard_proposals := AList.update (gr_id v) p (md_guard_proposals d)\<rparr>
      \<lparr>md_guard_proposals := AList.update (gr_id v) v (md_guard_proposals (d\<lparr>md_guard_proposals :=
         AList.update (gr_id v) p (md_guard_proposals d)\<rparr>))\<rparr>
      = d\<lparr>md_guard_proposals := AList.update (gr_id v) v (md_guard_proposals d)\<rparr>"
    by simp
  show ?thesis
    unfolding put_guard_proposal_def o sum.case Let_def stored_proposal_def [symmetric] p_def [symmetric] neg twice ..
qed

lemma snd_if_else:
  "snd (if \<not> A then (x, a) else if \<not> B then (y, a) else if C then (z, a) else (w, b)) = (if A \<and> B \<and> \<not> C then b else a)"
  by simp

lemma put_proposal_law:
  assumes t: "tables_ok d"
  shows "table_extends proposal_extends (md_guard_proposals d) (md_guard_proposals (snd (put_guard_proposal d v)))"
proof (cases "owned d (gr_tenant_id v) (gr_sandbox_id v)")
  case (Inl e)
  then show ?thesis by (simp add: put_guard_proposal_def table_extends_refl proposal_extends_refl)
next
  case (Inr s)
  let ?m = "md_guard_proposals d" and ?p = "stored_proposal d v"
  have tp: "table_ok gr_id ?m" using t by (simp add: tables_ok_def)
  have stored: "?p = a \<and> gr_id a = gr_id v" if "map_of ?m (gr_id v) = Some a" for a
    using that table_ok_key [OF tp that] by (simp add: stored_proposal_def)
  have keep: "table_extends proposal_extends ?m (AList.update (gr_id v) ?p ?m)"
  proof (rule table_extends_update [OF proposal_extends_refl])
    fix a assume "map_of ?m (gr_id v) = Some a"
    from stored [OF this] show "proposal_extends a ?p" by (simp add: proposal_extends_refl)
  qed
  have move: "table_extends proposal_extends ?m (AList.update (gr_id v) v ?m)"
    if "same_question ?p v" "gr_state ?p = ProposalPending"
      "\<not> (gr_state v \<noteq> ProposalPending \<and> (gr_decided_by v = None \<or> gr_decided_at v = None))"
  proof (rule table_extends_update [OF proposal_extends_refl])
    fix a assume "map_of ?m (gr_id v) = Some a"
    from stored [OF this] have a: "?p = a" "gr_id a = gr_id v" by simp_all
    show "proposal_extends a v" using a(2) that unfolding a(1) by (rule proposal_extendsI)
  qed
  show ?thesis
  proof (cases "same_question ?p v \<and> gr_state ?p = ProposalPending
      \<and> \<not> (gr_state v \<noteq> ProposalPending \<and> (gr_decided_by v = None \<or> gr_decided_at v = None))")
    case True
    then have "snd (put_guard_proposal d v) = d\<lparr>md_guard_proposals := AList.update (gr_id v) v ?m\<rparr>"
      unfolding put_proposal_eq [OF Inr] Let_def snd_if_else by (rule if_P)
    then show ?thesis using move [OF conjunct1 [OF True] conjunct1 [OF conjunct2 [OF True]] conjunct2 [OF conjunct2 [OF True]]] by simp
  next
    case False
    then have "snd (put_guard_proposal d v) = d\<lparr>md_guard_proposals := AList.update (gr_id v) ?p ?m\<rparr>"
      unfolding put_proposal_eq [OF Inr] Let_def snd_if_else by (rule if_not_P)
    with keep show ?thesis by simp
  qed
qed

lemma proposal_frame: "\<forall>v. x \<noteq> PutProposal v \<Longrightarrow> md_guard_proposals (step tx x d) = md_guard_proposals d"
  by (cases x) (auto simp: frame_defs other_defs Let_def split_beta split: sum.splits option.splits)

lemma step_proposals:
  "store_inv tx d \<Longrightarrow> table_extends proposal_extends (md_guard_proposals d) (md_guard_proposals (step tx x d))"
proof (cases "\<exists>v. x = PutProposal v")
  case True
  assume "store_inv tx d"
  with True show ?thesis by (auto simp: put_proposal_law store_inv_def)
next
  case False
  then show ?thesis by (simp add: proposal_frame table_extends_refl proposal_extends_refl)
qed

interpretation proposals: monotone_machine initial admissible "step tx" "store_inv tx"
  "\<lambda>d e. table_extends proposal_extends (md_guard_proposals d) (md_guard_proposals e)" for tx
  by unfold_locales (auto simp: step_proposals intro: table_extends_refl proposal_extends_refl
      table_extends_trans [OF proposal_extends_trans])

section \<open>A sample store\<close>

definition sample_sandbox :: sandbox where
  "sample_sandbox = \<lparr>sb_id = 10, sb_tenant_id = 1, sb_node_id = None, sb_image_id = ''img'', sb_state = Running,
     sb_runtime = Docker, sb_cpu = 1, sb_memory_mb = 64, sb_disk_mb = 64, sb_timeout_seconds = 60,
     sb_network = Disabled, sb_environment = default_environment_spec, sb_created_at = 0, sb_updated_at = 0,
     sb_runtime_path = None\<rparr>"

definition sample_digest :: string where
  "sample_digest = replicate 64 (CHR ''a'')"

definition sample_ask :: guard_tool_approval where
  "sample_ask = \<lparr>ta_id = 20, ta_sandbox_id = 10, ta_tenant_id = 1, ta_tool = ''t'', ta_request_digest = sample_digest,
     ta_detail = None, ta_requested_by_key_id = 30, ta_requested_by_label = ''k'', ta_state = ApprovalPending,
     ta_decided_by_key_id = None, ta_decided_by_label = None, ta_decided_at = None, ta_expires_at = 100,
     ta_consumed_at = None, ta_created_at = 0\<rparr>"

definition sample_decision :: approval_decision_request where
  "sample_decision = \<lparr>dr_tenant = 1, dr_sandbox = 10, dr_request_id = 20, dr_decision = Granted,
     dr_decided_by_key_id = 31, dr_decided_by_label = ''op'', dr_at = 5\<rparr>"

definition sample_lease :: worker_lease where
  "sample_lease = \<lparr>wl_id = 40, wl_tenant_id = 1, wl_sandbox_id = 10, wl_node_id = 50, wl_generation = 1,
     wl_status = ''active'', wl_reason = None, wl_expires_at = 1000, wl_created_at = 0, wl_updated_at = 0\<rparr>"

definition sample_budget :: guard_budget_state where
  "sample_budget = \<lparr>gb_identity = \<lparr>gi_sandbox_id = 10, gi_tenant_id = 1, gi_policy_hash = ''p''\<rparr>,
     gb_expires_at = 1000, gb_max_model_requests = 3, gb_max_bytes_in = 10, gb_max_bytes_out = 10,
     gb_model_requests = 0, gb_bytes_in = 0, gb_bytes_out = 0, gb_quarantined = False\<rparr>"

definition sample_fence :: guard_fence where
  "sample_fence = \<lparr>gf_lease_id = 40, gf_generation = 1\<rparr>"

definition sample_store :: memory_data where
  "sample_store = empty_memory\<lparr>md_leases := [(40, sample_lease)]\<rparr>"

lemma sample_initial: "initial sample_store"
  unfolding initial_def sample_store_def
  by (intro exI [of _ "[(40, sample_lease)]"]) (simp add: table_ok_def keys_distinct_def keyed_by_def sample_lease_def)

definition sample_snapshot :: snapshot where
  "sample_snapshot = \<lparr>sn_id = 60, sn_tenant_id = 1, sn_sandbox_id = 10, sn_object_key = ''held'', sn_size_bytes = 4,
     sn_image_id = ''img'', sn_created_at = 0\<rparr>"

abbreviation sample_tx :: texts where
  "sample_tx \<equiv> sample_texts (\<lambda>x. GENESIS_HASH)"

definition sample_ops :: "op list" where
  "sample_ops = [CreateSandbox sample_sandbox, PutSnapshot 2 sample_snapshot, ReserveUpload 3 1 None ''loose'']"

definition approval_ops :: "op list" where
  "approval_ops = [PutApproval 1 sample_ask, DecideApproval sample_decision]"

definition budget_ops :: "op list" where
  "budget_ops = [CreateSandbox sample_sandbox, PutBudget sample_budget]"

definition quarantine_ops :: "op list" where
  "quarantine_ops = budget_ops @ [MarkQuarantined 5 6 1 10 sample_fence]"

lemmas sample_defs = sample_store_def empty_memory_def sample_sandbox_def sample_snapshot_def sample_ask_def
  sample_decision_def sample_lease_def sample_budget_def sample_fence_def

lemmas sample_eval = run_ops_def sample_defs create_sandbox_def put_snapshot_def link_keys_def check_link_def
  validate_object_key_def starts_with_def ends_with_def link_one_def reserve_artifact_upload_def tenant_known_def
  values_of_def is_ascii_control_def new_artifact_def

lemma samples_admissible:
  "list_all admissible sample_ops" "list_all admissible approval_ops" "list_all admissible budget_ops"
  "list_all admissible quarantine_ops"
  by (simp_all add: sample_ops_def approval_ops_def budget_ops_def quarantine_ops_def fresh_ask_def sample_ask_def)

lemma sample_ops_objects:
  "md_artifact_objects (run_ops tx sample_ops sample_store) =
     [(''held'', (new_artifact 1 ObjAvailable 2)\<lparr>ma_references := 1\<rparr>), (''loose'', new_artifact 1 ObjPending 3)]"
  "md_artifact_scan (run_ops tx sample_ops sample_store) = None"
  by (simp_all add: sample_ops_def sample_eval)

lemma approval_ops_rows:
  "md_guard_tool_approvals (run_ops tx approval_ops sample_store) = [(20, decided sample_decision sample_ask)]"
proof -
  have "put_guard_tool_approval sample_store 1 sample_ask =
      (Inr sample_ask, sample_store\<lparr>md_guard_tool_approvals := [(20, sample_ask)]\<rparr>)"
    by (simp add: put_guard_tool_approval_def sample_defs sample_digest_def values_of_def byte_defs list_all_iff)
  then show ?thesis
    by (simp add: run_ops_def approval_ops_def decide_eq decidable_by_def, simp add: sample_defs)
qed

lemma budget_ops_store:
  "md_sandboxes (run_ops tx budget_ops sample_store) = [(10, sample_sandbox)]"
  "md_guard_budgets (run_ops tx budget_ops sample_store) = [(10, sample_budget)]"
  "md_leases (run_ops tx budget_ops sample_store) = [(40, sample_lease)]"
  by (simp_all add: run_ops_def budget_ops_def create_sandbox_def put_guard_budget_def owned_def initialize_def sample_defs)

lemma quarantine_ops_store:
  "md_sandboxes (run_ops tx quarantine_ops sample_store) = [(10, sample_sandbox\<lparr>sb_state := Quarantined, sb_updated_at := 6\<rparr>)]"
  unfolding quarantine_ops_def run_ops_append
  by (simp add: run_ops_def [of tx "[_]"] mark_guard_quarantined_def owned_def budget_ops_store memory_lease_def ok_or_def
      validate_fence_def can_transition_to_def values_of_def Let_def)
    (simp add: sample_defs)


lemma table_extendsD: "table_extends ext m n \<Longrightarrow> map_of m i = Some a \<Longrightarrow> \<exists>b. map_of n i = Some b \<and> ext a b"
  by (simp add: table_extends_def)

end
