(* ===== verification/Store_Claims.thy ===== *)
theory Store_Claims
  imports Store_Machines
begin

text \<open>
  What holds of the in-memory store after every sequence of operations: well-formedness, the object
  ledger, quarantine, budgets, incidents and tool approvals.
\<close>

section \<open>The ledger\<close>

text \<open>
  C1. From an empty store every sequence of operations, failing ones included, leaves a well-formed
  store: each table has distinct keys and every row stands under its own identifier, reference counts
  agree with the snapshots, the quarantine latch of a budget agrees with its sandbox and usage is within
  caps, every incident carries verified evidence, and no tool approval was decided by its asker.
\<close>

theorem every_run_well_formed:
  assumes "initial d" and "list_all admissible xs"
  shows "store_inv tx (run_ops tx xs d)"
  using assms by (rule run_inv_ops)

theorem every_run_well_formed_witness:
  "initial sample_store \<and> list_all admissible sample_ops \<and> store_inv sample_tx (run_ops sample_tx sample_ops sample_store)"
  using every_run_well_formed [OF sample_initial samples_admissible(1)] sample_initial samples_admissible(1) by blast

text \<open>
  C5. The collector never claims an object a snapshot needs: after any sequence of operations, no key
  that a pass claims for deletion is named by any snapshot of the store.
\<close>

theorem collector_spares_referenced:
  assumes "initial d" and "list_all admissible xs"
    and "fst (claim_artifact_deletions (run_ops tx xs d) fresh now retention grace limit lease) = Inr claims"
    and "c \<in> set claims"
  shows "holders (md_snapshots (run_ops tx xs d)) (md_stored_snapshots (run_ops tx xs d)) (ad_key c) = {}"
proof -
  have "ledger_ok (run_ops tx xs d)" using run_inv_ops [OF assms(1,2), of tx] by (simp add: store_inv_def)
  from claim_unreferenced [OF this assms(3,4)] show ?thesis .
qed

definition sample_claim :: artifact_deletion where
  "sample_claim = \<lparr>ad_key = ''loose'', ad_tenant_id = 1, ad_claim = 7\<rparr>"

theorem collector_spares_referenced_witness:
  "fst (claim_artifact_deletions (run_ops sample_tx sample_ops sample_store) (\<lambda>i. 7) 2000000000000 3600 600 10 300) = Inr [sample_claim]
   \<and> holders (md_snapshots (run_ops sample_tx sample_ops sample_store))
       (md_stored_snapshots (run_ops sample_tx sample_ops sample_store)) ''loose'' = {}"
proof -
  have c: "fst (claim_artifact_deletions (run_ops sample_tx sample_ops sample_store) (\<lambda>i. 7) 2000000000000 3600 600 10 300)
      = Inr [sample_claim]"
    by (simp add: claim_artifact_deletions_def sample_ops_objects scan_window_def claimable_def new_artifact_def
        seconds_def sample_claim_def Let_def)
  from collector_spares_referenced [OF sample_initial samples_admissible(1) c, of sample_claim]
  have "holders (md_snapshots (run_ops sample_tx sample_ops sample_store))
      (md_stored_snapshots (run_ops sample_tx sample_ops sample_store)) (ad_key sample_claim) = {}" by simp
  with c show ?thesis by (simp add: sample_claim_def)
qed

text \<open>
  C15. Deleting a snapshot fails in one way only: after any sequence of operations it either removes the
  snapshot or reports that the tenant has no such record and changes nothing. In particular the
  reference count it decrements is never zero, so the subtraction cannot panic.
\<close>

theorem delete_snapshot_outcomes:
  assumes "initial d" and "list_all admissible xs"
  shows "delete_snapshot (run_ops tx xs d) tenant i = (Inl RecordNotFound, run_ops tx xs d)
    \<or> fst (delete_snapshot (run_ops tx xs d) tenant i) = Inr ()
      \<and> map_of (md_snapshots (snd (delete_snapshot (run_ops tx xs d) tenant i))) i = None"
proof -
  have "ledger_ok (run_ops tx xs d)" using run_inv_ops [OF assms, of tx] by (simp add: store_inv_def)
  from delete_snapshot_cases [OF this, of tenant i] show ?thesis by auto
qed

theorem delete_snapshot_outcomes_witness:
  "fst (delete_snapshot (run_ops sample_tx sample_ops sample_store) 1 60) = Inr ()
   \<and> map_of (md_snapshots (snd (delete_snapshot (run_ops sample_tx sample_ops sample_store) 1 60))) 60 = None"
proof -
  have "fst (delete_snapshot (run_ops sample_tx sample_ops sample_store) 1 60) \<noteq> Inl RecordNotFound"
    by (simp add: delete_snapshot_def sample_ops_def sample_eval unlink_keys_def unlink_one_def)
  with delete_snapshot_outcomes [OF sample_initial samples_admissible(1), of sample_tx 1 60] show ?thesis by auto
qed

text \<open>
  C18. Retirement is permanent: once an object is being deleted or has been deleted, no sequence of
  operations makes its key pending or available again, so a key is never reused after its bytes go.
\<close>

theorem retired_forever:
  assumes "retired_key (md_artifact_objects d) k"
  shows "retired_key (md_artifact_objects (run_ops tx xs d)) k"
  using assms unfolding run_ops_def by (induction xs arbitrary: d) (simp_all add: step_retired)

theorem retired_forever_witness:
  "let d = empty_memory\<lparr>md_artifact_objects := [(''k'', new_artifact 1 ObjDeleted 0)]\<rparr>
   in retired_key (md_artifact_objects (run_ops sample_tx [CompleteUpload 5 1 None ''k'', PutSnapshot 6 sample_snapshot] d)) ''k''"
  unfolding Let_def by (rule retired_forever) (simp add: retired_key_def retired_def new_artifact_def)

section \<open>Quarantine and budgets\<close>

lemma run_quarantined:
  "quarantined d i \<Longrightarrow> list_all (\<lambda>x. \<not> releases x i) xs \<Longrightarrow> quarantined (run_ops tx xs d) i"
  unfolding run_ops_def by (induction xs arbitrary: d) (simp_all add: step_quarantined)

text \<open>
  C4. Quarantine is a latch: once a sandbox is quarantined it stays so through every sequence of
  operations that does not contain a release of it, and throughout it can spend no Guard budget, it
  cannot be deleted and no state update moves it.
\<close>

theorem quarantine_is_a_latch:
  assumes "initial d" and "list_all admissible (xs @ ys)" and "quarantined (run_ops tx xs d) i"
    and "list_all (\<lambda>x. \<not> releases x i) ys"
  shows "quarantined (run_ops tx (xs @ ys) d) i
    \<and> (\<forall>now later identity fence debit. gi_sandbox_id identity = i \<longrightarrow>
         (\<exists>e. reserve_guard_budget (run_ops tx (xs @ ys) d) now later identity fence debit = (Inl e, run_ops tx (xs @ ys) d)))"
proof -
  have q: "quarantined (run_ops tx (xs @ ys) d) i"
    unfolding run_ops_append using assms(3,4) by (rule run_quarantined)
  have "guard_ok (run_ops tx (xs @ ys) d)" using run_inv_ops [OF assms(1,2), of tx] by (simp add: store_inv_def)
  with q show ?thesis using quarantine_blocks_spending by blast
qed

theorem quarantine_is_a_latch_witness:
  "quarantined (run_ops sample_tx (quarantine_ops @ [DeleteSandbox 7 1 10, UpdateState 8 1 10 Quarantined Running None]) sample_store) 10"
proof -
  have "quarantined (run_ops sample_tx quarantine_ops sample_store) 10"
    by (simp add: quarantined_def quarantine_ops_store)
  then show ?thesis
    using quarantine_is_a_latch [OF sample_initial, of quarantine_ops
        "[DeleteSandbox 7 1 10, UpdateState 8 1 10 Quarantined Running None]" sample_tx 10] samples_admissible(4)
    by simp
qed

text \<open>
  C7. Guard budgets only run down: once a budget exists, every later store still has it, with the same
  owner, expiry and caps, with counters that have not decreased, and never with a counter above its cap,
  whatever policy changes, quarantines and releases come between.
\<close>

theorem budgets_only_run_down:
  assumes "initial d" and "list_all admissible (xs @ ys)" and "map_of (md_guard_budgets (run_ops tx xs d)) i = Some b"
  shows "within_caps b \<and> (\<exists>c. map_of (md_guard_budgets (run_ops tx (xs @ ys) d)) i = Some c \<and> budget_extends b c \<and> within_caps c)"
proof -
  have adm: "list_all admissible xs" "list_all admissible ys" using assms(2) by simp_all
  have inv: "store_inv tx (run_ops tx xs d)" "store_inv tx (run_ops tx (xs @ ys) d)"
    using run_inv_ops [OF assms(1) adm(1)] run_inv_ops [OF assms(1,2)] by blast+
  have "table_extends budget_extends (md_guard_budgets (run_ops tx xs d)) (md_guard_budgets (run_ops tx (xs @ ys) d))"
    unfolding run_ops_append using budgets.run_rel [OF inv(1) adm(2)] by (simp add: run_ops_def)
  from table_extendsD [OF this assms(3)] obtain c where
    c: "map_of (md_guard_budgets (run_ops tx (xs @ ys) d)) i = Some c" "budget_extends b c" by blast
  have "guard_ok (run_ops tx xs d)" "guard_ok (run_ops tx (xs @ ys) d)" using inv by (simp_all add: store_inv_def)
  then have "within_caps b" "within_caps c"
    using guard_inv_row assms(3) c(1) unfolding budget_row_ok_def by blast+
  with c show ?thesis by blast
qed

theorem budgets_only_run_down_witness:
  "\<exists>c. map_of (md_guard_budgets (run_ops sample_tx (budget_ops @
       [ReserveBudget 5 6 (gb_identity sample_budget) sample_fence \<lparr>bd_model_requests = 2, bd_bytes_in = 0, bd_bytes_out = 0\<rparr>])
       sample_store)) 10 = Some c \<and> budget_extends sample_budget c \<and> within_caps c"
  using budgets_only_run_down [OF sample_initial, of budget_ops
      "[ReserveBudget 5 6 (gb_identity sample_budget) sample_fence \<lparr>bd_model_requests = 2, bd_bytes_in = 0, bd_bytes_out = 0\<rparr>]"
      sample_tx 10 sample_budget] samples_admissible(3) budget_ops_store(2) by simp



section \<open>Incidents and approvals\<close>

text \<open>
  C6. Incidents are append-only evidence: every stored incident verifies (its events chain from the
  recorded anchor to the recorded head and belong to its sandbox, tenant and policy), is complete only
  when the network was cut, the guest paused, a snapshot preserved and a report written, and every later
  store holds the same incident, its evidence, rules and errors extended at the end and its recorded
  times, snapshot and first fence unchanged.
\<close>

theorem incidents_append_only:
  assumes "initial d" and "list_all admissible (xs @ ys)" and "map_of (md_guard_incidents (run_ops tx xs d)) i = Some c"
  shows "validate_incident_evidence tx c = Inr () \<and> completion_ok c
    \<and> (\<exists>e. map_of (md_guard_incidents (run_ops tx (xs @ ys) d)) i = Some e \<and> incident_extends c e
         \<and> validate_incident_evidence tx e = Inr ())"
proof -
  have adm: "list_all admissible xs" "list_all admissible ys" using assms(2) by simp_all
  have inv: "store_inv tx (run_ops tx xs d)" "store_inv tx (run_ops tx (xs @ ys) d)"
    using run_inv_ops [OF assms(1) adm(1)] run_inv_ops [OF assms(1,2)] by blast+
  have "table_extends incident_extends (md_guard_incidents (run_ops tx xs d)) (md_guard_incidents (run_ops tx (xs @ ys) d))"
    unfolding run_ops_append using incidents.run_rel [OF inv(1) adm(2)] by (simp add: run_ops_def)
  from table_extendsD [OF this assms(3)] obtain e where
    e: "map_of (md_guard_incidents (run_ops tx (xs @ ys) d)) i = Some e" "incident_extends c e" by blast
  have "incident_row_ok tx i c" "incident_row_ok tx i e"
    using inv assms(3) e(1) unfolding store_inv_def incidents_inv_def by blast+
  with e show ?thesis unfolding incident_row_ok_def by blast
qed

definition sample_incident :: guard_incident where
  "sample_incident = \<lparr>ic_id = 70, ic_identity = gb_identity sample_budget, ic_fence = sample_fence, ic_rules = [],
     ic_triggered_at = 5, ic_network_cut_at = Some 6, ic_paused_at = None, ic_snapshot_id = None, ic_completed_at = None,
     ic_events = [], ic_event_start_sequence = 1, ic_event_previous_hash = GENESIS_HASH, ic_event_sequence = 0,
     ic_event_head = GENESIS_HASH, ic_errors = [], ic_notified_at = None, ic_report = []\<rparr>"

lemma sample_incident_merge: "merge_incident tx None sample_incident = Inr sample_incident"
proof -
  have "is_sha256_hex GENESIS_HASH" by (rule genesis_is_hash)
  then show ?thesis
    by (simp add: merge_incident_def validate_incident_evidence_def sample_incident_def last_sequence_def checked_add_w_def)
qed

lemma sample_incident_stored:
  "map_of (md_guard_incidents (run_ops tx (budget_ops @ [PutIncident 5 sample_incident]) sample_store)) 10 = Some sample_incident"
proof -
  have i: "ic_identity sample_incident = gb_identity sample_budget" "ic_fence sample_incident = sample_fence"
    by (simp_all add: sample_incident_def)
  have none: "md_guard_incidents (run_ops tx budget_ops sample_store) = []"
    by (simp add: run_ops_def budget_ops_def create_sandbox_def put_guard_budget_def owned_def initialize_def sample_defs)
  have lease: "memory_lease (run_ops tx budget_ops sample_store) 5 1 10 sample_fence = Inr ()"
    by (simp add: memory_lease_def budget_ops_store values_of_def ok_or_def validate_fence_def, simp add: sample_defs)
  have own: "owned (run_ops tx budget_ops sample_store) 1 10 = Inr sample_sandbox"
    by (simp add: owned_def budget_ops_store, simp add: sample_defs)
  have ids: "gi_sandbox_id (gb_identity sample_budget) = 10" "gi_tenant_id (gb_identity sample_budget) = 1"
    by (simp_all add: sample_budget_def)
  show ?thesis
    unfolding run_ops_append
    by (simp add: run_ops_def [of tx "[_]"] put_guard_incident_def i ids own lease none budget_ops_store ok_or_def sample_incident_merge)
qed

theorem incidents_append_only_witness:
  "\<exists>e. map_of (md_guard_incidents (run_ops sample_tx ((budget_ops @ [PutIncident 5 sample_incident]) @
        [PutIncident 6 (sample_incident\<lparr>ic_network_cut_at := Some 9, ic_paused_at := Some 8\<rparr>)]) sample_store)) 10 = Some e
     \<and> incident_extends sample_incident e"
proof -
  let ?xs = "budget_ops @ [PutIncident 5 sample_incident]"
  let ?ys = "[PutIncident 6 (sample_incident\<lparr>ic_network_cut_at := Some 9, ic_paused_at := Some 8\<rparr>)]"
  have "list_all admissible (?xs @ ?ys)" using samples_admissible(3) by simp
  from incidents_append_only [OF sample_initial this sample_incident_stored] show ?thesis by blast
qed

lemma consume_row:
  assumes inv: "approvals_ok d" and c: "consume_guard_tool_approval d tenant sandbox tool digest key now = (Some b, d')"
  shows "\<exists>a. map_of (md_guard_tool_approvals d) (ta_id a) = Some a \<and> approval_row_ok a
    \<and> spendable tenant sandbox tool digest key now a \<and> b = a\<lparr>ta_consumed_at := Some now\<rparr>
    \<and> d' = d\<lparr>md_guard_tool_approvals := AList.update (ta_id a) b (md_guard_tool_approvals d)\<rparr>"
  using consume_cases [OF inv, of tenant sandbox tool digest key now]
proof (elim disjE exE conjE)
  assume "consume_guard_tool_approval d tenant sandbox tool digest key now = (None, d)"
  with c show ?thesis by simp
next
  fix a assume a: "map_of (md_guard_tool_approvals d) (ta_id a) = Some a" "approval_row_ok a"
    "spendable tenant sandbox tool digest key now a"
    and e: "consume_guard_tool_approval d tenant sandbox tool digest key now =
        (Some (a\<lparr>ta_consumed_at := Some now\<rparr>), d\<lparr>md_guard_tool_approvals :=
           AList.update (ta_id a) (a\<lparr>ta_consumed_at := Some now\<rparr>) (md_guard_tool_approvals d)\<rparr>)"
  from e c have b: "b = a\<lparr>ta_consumed_at := Some now\<rparr>"
    and d': "d' = d\<lparr>md_guard_tool_approvals := AList.update (ta_id a) (a\<lparr>ta_consumed_at := Some now\<rparr>) (md_guard_tool_approvals d)\<rparr>"
    by (simp_all only: prod.inject option.inject)
  show ?thesis using a b d' by (intro exI [of _ a] conjI) (simp_all only:)
qed

text \<open>
  C2. Tool approvals need two keys: when requests enter undecided, whatever the sequence of operations,
  a call is authorised only by a row that was granted by a key other than the asker's, inside its
  window, for this tenant, sandbox, tool, argument digest and asker, and that was not spent before.
\<close>

theorem approvals_need_two_keys:
  assumes "initial d" and "list_all admissible xs"
    and "consume_guard_tool_approval (run_ops tx xs d) tenant sandbox tool digest key now = (Some b, d')"
  shows "\<exists>a k t. map_of (md_guard_tool_approvals (run_ops tx xs d)) (ta_id b) = Some a \<and> ta_consumed_at a = None
    \<and> ta_state a = Granted \<and> ta_decided_by_key_id a = Some k \<and> k \<noteq> key \<and> ta_decided_at a = Some t
    \<and> ta_created_at a \<le> t \<and> t \<le> now \<and> now < ta_expires_at a
    \<and> ta_tenant_id a = tenant \<and> ta_sandbox_id a = sandbox \<and> ta_tool a = tool \<and> ta_request_digest a = digest
    \<and> ta_requested_by_key_id a = key"
proof -
  have inv: "approvals_ok (run_ops tx xs d)" using run_inv_ops [OF assms(1,2), of tx] by (simp add: store_inv_def)
  obtain a where a: "map_of (md_guard_tool_approvals (run_ops tx xs d)) (ta_id a) = Some a" "approval_row_ok a"
    "spendable tenant sandbox tool digest key now a" and b: "b = a\<lparr>ta_consumed_at := Some now\<rparr>"
    using consume_row [OF inv assms(3)] by blast
  have sp: "ta_state a = Granted" "ta_consumed_at a = None" "now < ta_expires_at a" "ta_tenant_id a = tenant"
    "ta_sandbox_id a = sandbox" "ta_tool a = tool" "ta_request_digest a = digest" "ta_requested_by_key_id a = key"
    using a(3) by (simp_all add: spendable_def)
  have "\<not> fresh_ask a" using sp(1) by (simp add: fresh_ask_def)
  with a(2) obtain k t where kt: "ta_decided_by_key_id a = Some k" "k \<noteq> ta_requested_by_key_id a" "ta_decided_at a = Some t"
    "ta_created_at a \<le> t" unfolding approval_row_ok_def by blast
  have "t \<le> now" using a(3) kt(3) by (simp add: spendable_def)
  moreover have "ta_id b = ta_id a" by (simp add: b)
  ultimately show ?thesis using a(1) sp kt by (intro exI [of _ a] exI [of _ k] exI [of _ t]) simp
qed

lemma sample_consume:
  "consume_guard_tool_approval (run_ops tx approval_ops sample_store) 1 10 ''t'' sample_digest 30 6 =
     (Some ((decided sample_decision sample_ask)\<lparr>ta_consumed_at := Some 6\<rparr>),
      (run_ops tx approval_ops sample_store)\<lparr>md_guard_tool_approvals :=
        [(20, (decided sample_decision sample_ask)\<lparr>ta_consumed_at := Some 6\<rparr>)]\<rparr>)"
proof -
  have "spendable 1 10 ''t'' sample_digest 30 6 (decided sample_decision sample_ask)"
    by (simp add: spendable_def decided_def sample_ask_def sample_decision_def)
  moreover have "ta_id (decided sample_decision sample_ask) = 20" by (simp add: decided_def sample_ask_def)
  ultimately show ?thesis by (simp add: consume_guard_tool_approval_def approval_ops_rows values_of_def Let_def)
qed

theorem approvals_need_two_keys_witness:
  "\<exists>a k. map_of (md_guard_tool_approvals (run_ops sample_tx approval_ops sample_store)) 20 = Some a
     \<and> ta_decided_by_key_id a = Some k \<and> k \<noteq> 30"
proof -
  have "ta_id ((decided sample_decision sample_ask)\<lparr>ta_consumed_at := Some 6\<rparr>) = 20" by (simp add: decided_def sample_ask_def)
  with approvals_need_two_keys [OF sample_initial samples_admissible(2) sample_consume [of sample_tx]] show ?thesis
    by (elim exE conjE) (intro exI conjI, simp_all)
qed

text \<open>
  C3. A grant is spent once: after a call was authorised by a row, no later call, whatever happens in
  between and whoever makes it, is authorised by the same row.
\<close>

theorem grants_are_spent_once:
  assumes "initial d" and "list_all admissible (xs @ ys)"
    and "consume_guard_tool_approval (run_ops tx xs d) tenant sandbox tool digest key now = (Some a, d')"
    and "consume_guard_tool_approval (run_ops tx ys d') tenant' sandbox' tool' digest' key' now' = (Some b, d'')"
  shows "ta_id b \<noteq> ta_id a"
proof
  assume same: "ta_id b = ta_id a"
  have adm: "list_all admissible xs" "list_all admissible ys" using assms(2) by simp_all
  have inv: "store_inv tx (run_ops tx xs d)" using run_inv_ops [OF assms(1) adm(1)] .
  have d': "d' = step tx (ConsumeApproval tenant sandbox tool digest key now) (run_ops tx xs d)" using assms(3) by simp
  have inv': "store_inv tx d'" unfolding d' using inv by (rule step_inv) simp
  have ok: "approvals_ok (run_ops tx xs d)" "approvals_ok (run_ops tx ys d')"
    using inv run_keeps_ops [OF inv' adm(2)] by (simp_all add: store_inv_def)
  obtain r where r: "spendable tenant sandbox tool digest key now r" "a = r\<lparr>ta_consumed_at := Some now\<rparr>"
    "d' = (run_ops tx xs d)\<lparr>md_guard_tool_approvals := AList.update (ta_id r) a (md_guard_tool_approvals (run_ops tx xs d))\<rparr>"
    using consume_row [OF ok(1) assms(3)] by blast
  have id: "ta_id a = ta_id r" and spent: "ta_state a = Granted" "ta_consumed_at a = Some now"
    using r(1) by (simp_all add: r(2) spendable_def)
  have row: "map_of (md_guard_tool_approvals d') (ta_id a) = Some a" by (simp add: r(3) id)
  have "table_extends approval_extends (md_guard_tool_approvals d') (md_guard_tool_approvals (run_ops tx ys d'))"
    using history.run_rel [OF inv' adm(2)] by (simp add: run_ops_def)
  from table_extendsD [OF this row] obtain c where c: "map_of (md_guard_tool_approvals (run_ops tx ys d')) (ta_id a) = Some c"
    "approval_extends a c" by blast
  have "c = a" using c(2) spent unfolding approval_extends_def by simp
  moreover obtain e where "map_of (md_guard_tool_approvals (run_ops tx ys d')) (ta_id e) = Some e" "ta_consumed_at e = None" "ta_id e = ta_id b"
  proof -
    obtain e where "map_of (md_guard_tool_approvals (run_ops tx ys d')) (ta_id e) = Some e"
      "spendable tenant' sandbox' tool' digest' key' now' e" "b = e\<lparr>ta_consumed_at := Some now'\<rparr>"
      using consume_row [OF ok(2) assms(4)] by blast
    then show thesis by (intro that [of e]) (simp_all add: spendable_def)
  qed
  ultimately show False using c(1) same spent(2) by simp
qed

definition second_ask :: guard_tool_approval where
  "second_ask = sample_ask\<lparr>ta_id := 21\<rparr>"

definition second_ops :: "op list" where
  "second_ops = [PutApproval 7 second_ask, DecideApproval (sample_decision\<lparr>dr_request_id := 21, dr_at := 7\<rparr>)]"

lemma second_rows:
  assumes d: "md_guard_tool_approvals d = [(20, (decided sample_decision sample_ask)\<lparr>ta_consumed_at := Some 6\<rparr>)]"
  shows "md_guard_tool_approvals (run_ops tx second_ops d) = [(20, (decided sample_decision sample_ask)\<lparr>ta_consumed_at := Some 6\<rparr>),
      (21, decided (sample_decision\<lparr>dr_request_id := 21, dr_at := 7\<rparr>) second_ask)]"
proof -
  let ?x = "(decided sample_decision sample_ask)\<lparr>ta_consumed_at := Some 6\<rparr>"
  let ?r = "sample_decision\<lparr>dr_request_id := 21, dr_at := 7\<rparr>"
  have row: "\<not> same_ask second_ask ?x" by (simp add: same_ask_def decided_def sample_decision_def)
  have ask: "length (ta_request_digest second_ask) = 64"
    "list_all (\<lambda>b. is_ascii_hexdigit b \<and> \<not> is_ascii_uppercase b) (ta_request_digest second_ask)"
    "\<not> ta_expires_at second_ask \<le> ta_created_at second_ask" "ta_id second_ask = 21"
    by (simp_all add: second_ask_def sample_ask_def sample_digest_def byte_defs list_all_iff)
  have put: "snd (put_guard_tool_approval d 7 second_ask) = d\<lparr>md_guard_tool_approvals := [(20, ?x), (21, second_ask)]\<rparr>"
    by (simp add: put_guard_tool_approval_def ask d values_of_def row)
  have dec: "decidable_by ?r second_ask" "dr_request_id ?r = 21"
    by (simp_all add: decidable_by_def second_ask_def sample_ask_def sample_decision_def)
  have "snd (decide_guard_tool_approval (d\<lparr>md_guard_tool_approvals := [(20, ?x), (21, second_ask)]\<rparr>) ?r) =
      d\<lparr>md_guard_tool_approvals := [(20, ?x), (21, decided ?r second_ask)]\<rparr>"
    unfolding decide_eq dec(2) by (simp add: dec(1))
  then show ?thesis by (simp add: run_ops_def second_ops_def put)
qed

lemma second_consume:
  assumes "md_guard_tool_approvals d = [(20, (decided sample_decision sample_ask)\<lparr>ta_consumed_at := Some 6\<rparr>)]"
  shows "\<exists>b e. consume_guard_tool_approval (run_ops tx second_ops d) 1 10 ''t'' sample_digest 30 8 = (Some b, e)"
proof -
  let ?b = "decided (sample_decision\<lparr>dr_request_id := 21, dr_at := 7\<rparr>) second_ask"
  have "spendable 1 10 ''t'' sample_digest 30 8 ?b"
    by (simp add: spendable_def decided_def second_ask_def sample_ask_def sample_decision_def)
  moreover have "\<not> spendable 1 10 ''t'' sample_digest 30 8 ((decided sample_decision sample_ask)\<lparr>ta_consumed_at := Some 6\<rparr>)"
    by (simp add: spendable_def)
  ultimately show ?thesis by (simp add: consume_guard_tool_approval_def second_rows [OF assms] values_of_def Let_def)
qed

theorem grants_are_spent_once_witness:
  "\<exists>a d' b d''. consume_guard_tool_approval (run_ops sample_tx approval_ops sample_store) 1 10 ''t'' sample_digest 30 6 = (Some a, d')
     \<and> consume_guard_tool_approval (run_ops sample_tx second_ops d') 1 10 ''t'' sample_digest 30 8 = (Some b, d'')
     \<and> ta_id b \<noteq> ta_id a"
proof -
  let ?a = "(decided sample_decision sample_ask)\<lparr>ta_consumed_at := Some 6\<rparr>"
  let ?d = "(run_ops sample_tx approval_ops sample_store)\<lparr>md_guard_tool_approvals := [(20, ?a)]\<rparr>"
  obtain b e where c: "consume_guard_tool_approval (run_ops sample_tx second_ops ?d) 1 10 ''t'' sample_digest 30 8 = (Some b, e)"
    using second_consume [of ?d sample_tx] by auto
  have "list_all admissible (approval_ops @ second_ops)"
    using samples_admissible(2) by (simp add: second_ops_def second_ask_def fresh_ask_def sample_ask_def)
  from grants_are_spent_once [OF sample_initial this sample_consume c] sample_consume [of sample_tx] c
  show ?thesis by (intro exI conjI)
qed


end
