(* ===== verification/Store_Views.thy ===== *)
theory Store_Views
  imports Store_Claims
begin

text \<open>
  Proposals, leases and listings of the in-memory store, and the abstract life cycle of sandboxes that
  the store refines.
\<close>

section \<open>Proposals and leases\<close>

text \<open>
  C19. A policy proposal is decided once: every later store holds the same proposal with the same
  question, a decided one is never changed again, and one that was stored pending and is later decided
  names the operator and the time.
\<close>

theorem proposals_decided_once:
  assumes "initial d" and "list_all admissible (xs @ ys)" and "map_of (md_guard_proposals (run_ops tx xs d)) i = Some p"
  shows "\<exists>q. map_of (md_guard_proposals (run_ops tx (xs @ ys) d)) i = Some q \<and> proposal_extends p q"
proof -
  have adm: "list_all admissible xs" "list_all admissible ys" using assms(2) by simp_all
  have inv: "store_inv tx (run_ops tx xs d)" using run_inv_ops [OF assms(1) adm(1)] .
  have "table_extends proposal_extends (md_guard_proposals (run_ops tx xs d)) (md_guard_proposals (run_ops tx (xs @ ys) d))"
    unfolding run_ops_append using proposals.run_rel [OF inv adm(2)] by (simp add: run_ops_def)
  from table_extendsD [OF this assms(3)] show ?thesis .
qed

definition sample_proposal :: guard_proposal where
  "sample_proposal = \<lparr>gr_id = 80, gr_sandbox_id = 10, gr_tenant_id = 1, gr_agent_id = ''a'',
     gr_request = \<lparr>pq_summary = ''s'', pq_allow = []\<rparr>, gr_base_policy_hash = ''p'', gr_state = ProposalPending,
     gr_decided_by = None, gr_decided_at = None, gr_created_at = 0\<rparr>"

lemma sample_proposal_stored:
  assumes "gr_id v = 80" "gr_sandbox_id v = 10" "gr_tenant_id v = 1"
  shows "md_guard_proposals (run_ops tx [CreateSandbox sample_sandbox, PutProposal v] sample_store) = [(80, v)]"
proof -
  have "create_sandbox sample_store sample_sandbox = (Inr (), sample_store\<lparr>md_sandboxes := [(10, sample_sandbox)]\<rparr>)"
    by (simp add: create_sandbox_def sample_defs)
  moreover have "md_guard_proposals (snd (put_guard_proposal (sample_store\<lparr>md_sandboxes := [(10, sample_sandbox)]\<rparr>) v)) = [(80, v)]"
  proof -
    let ?d = "sample_store\<lparr>md_sandboxes := [(10, sample_sandbox)]\<rparr>"
    have own: "owned ?d (gr_tenant_id v) (gr_sandbox_id v) = Inr sample_sandbox"
      using assms by (simp add: owned_def sample_sandbox_def)
    have "stored_proposal ?d v = v" by (simp add: stored_proposal_def sample_store_def empty_memory_def)
    moreover have "same_question v v" by (simp add: same_question_def)
    ultimately show ?thesis unfolding put_proposal_eq [OF own] Let_def snd_if_else
      by (simp add: assms(1) sample_store_def empty_memory_def)
  qed
  ultimately show ?thesis by (simp add: run_ops_def)
qed

theorem proposals_decided_once_witness:
  "\<exists>q. map_of (md_guard_proposals (run_ops sample_tx ([CreateSandbox sample_sandbox, PutProposal sample_proposal] @
        [PutProposal (sample_proposal\<lparr>gr_state := ProposalDenied ''n'', gr_decided_by := Some ''op'', gr_decided_at := Some 4\<rparr>)])
        sample_store)) 80 = Some q \<and> proposal_extends sample_proposal q"
proof -
  let ?xs = "[CreateSandbox sample_sandbox, PutProposal sample_proposal]"
  let ?ys = "[PutProposal (sample_proposal\<lparr>gr_state := ProposalDenied ''n'', gr_decided_by := Some ''op'', gr_decided_at := Some 4\<rparr>)]"
  have "map_of (md_guard_proposals (run_ops sample_tx ?xs sample_store)) 80 = Some sample_proposal"
    by (subst sample_proposal_stored) (simp_all add: sample_proposal_def)
  moreover have "list_all admissible (?xs @ ?ys)" by simp
  ultimately show ?thesis by (intro proposals_decided_once [OF sample_initial])
qed



section \<open>Listings\<close>

definition tenant_sandboxes :: "uuid \<Rightarrow> memory_data \<Rightarrow> sandbox list" where
  "tenant_sandboxes tenant d = filter (\<lambda>v. sb_tenant_id v = tenant) (values_of (md_sandboxes d))"

definition sandbox_snapshots :: "uuid \<Rightarrow> uuid \<Rightarrow> memory_data \<Rightarrow> snapshot list" where
  "sandbox_snapshots tenant sandbox d =
     filter (\<lambda>v. sn_tenant_id v = tenant \<and> sn_sandbox_id v = sandbox) (values_of (md_snapshots d))"

definition sandbox_approvals :: "uuid \<Rightarrow> uuid \<Rightarrow> memory_data \<Rightarrow> guard_tool_approval list" where
  "sandbox_approvals tenant sandbox d =
     filter (\<lambda>v. ta_tenant_id v = tenant \<and> ta_sandbox_id v = sandbox) (values_of (md_guard_tool_approvals d))"

lemma list_sandboxes_page:
  "list_sandboxes d tenant limit after = list_page sandbox_key (tenant_sandboxes tenant d) (clamp_page limit) after"
  by (simp add: list_sandboxes_def list_page_def page_def tenant_sandboxes_def sandbox_key_def Let_def)

interpretation sandbox_pages: keyset_listing tables_ok "tenant_sandboxes tenant" sandbox_key "\<lambda>d. list_sandboxes d tenant" for tenant
proof
  show "distinct (map sandbox_key (tenant_sandboxes tenant d))" if "tables_ok d" for d
    using that unfolding sandbox_key_def tenant_sandboxes_def by (intro table_ok_distinct_keys) (simp add: tables_ok_def)
qed (rule list_sandboxes_page)

interpretation snapshot_pages: keyset_listing tables_ok "sandbox_snapshots tenant sandbox" snapshot_key
  "\<lambda>d. list_snapshots d tenant sandbox" for tenant sandbox
proof
  show "list_snapshots d tenant sandbox limit after = list_page snapshot_key (sandbox_snapshots tenant sandbox d) (clamp_page limit) after" for d limit after
    by (simp add: list_snapshots_def list_page_def sandbox_snapshots_def Let_def)
  show "distinct (map snapshot_key (sandbox_snapshots tenant sandbox d))" if "tables_ok d" for d
    using that unfolding snapshot_key_def sandbox_snapshots_def by (intro table_ok_distinct_keys) (simp add: tables_ok_def)
qed

interpretation approval_pages: keyset_listing tables_ok "sandbox_approvals tenant sandbox" approval_key
  "\<lambda>d. list_guard_tool_approvals d tenant sandbox" for tenant sandbox
proof
  show "list_guard_tool_approvals d tenant sandbox limit after = list_page approval_key (sandbox_approvals tenant sandbox d) (clamp_page limit) after" for d limit after
    by (simp add: list_guard_tool_approvals_def list_page_def sandbox_approvals_def Let_def)
  show "distinct (map approval_key (sandbox_approvals tenant sandbox d))" if "tables_ok d" for d
    using that unfolding approval_key_def sandbox_approvals_def by (intro table_ok_distinct_keys) (simp add: tables_ok_def)
qed

text \<open>
  C14. Paging ends and misses nothing: on a store no operation changes meanwhile, a caller that follows
  the cursors of the sandbox, snapshot or approval listing, with any page size, comes to the end after
  at most one page per row and one more, and has then seen every row of the tenant exactly once, newest
  first.
\<close>

theorem listings_end_complete:
  assumes "initial d" and "list_all admissible xs"
    and "e = run_ops tx xs d"
  shows "walk_pages (length (tenant_sandboxes tenant e) + 1) (list_sandboxes e tenant limit) None
      = Some (sort_newest_first sandbox_key (tenant_sandboxes tenant e))
    \<and> walk_pages (length (sandbox_snapshots tenant sandbox e) + 1) (list_snapshots e tenant sandbox limit) None
      = Some (sort_newest_first snapshot_key (sandbox_snapshots tenant sandbox e))
    \<and> walk_pages (length (sandbox_approvals tenant sandbox e) + 1) (list_guard_tool_approvals e tenant sandbox limit) None
      = Some (sort_newest_first approval_key (sandbox_approvals tenant sandbox e))"
proof -
  have "tables_ok e" using run_inv_ops [OF assms(1,2), of tx] by (simp add: store_inv_def assms(3))
  then show ?thesis
    by (intro conjI sandbox_pages.walk_complete snapshot_pages.walk_complete approval_pages.walk_complete) simp_all
qed

theorem listings_end_complete_witness:
  "walk_pages (length (tenant_sandboxes 1 (run_ops sample_tx sample_ops sample_store)) + 1)
       (list_sandboxes (run_ops sample_tx sample_ops sample_store) 1 1) None
     = Some (sort_newest_first sandbox_key (tenant_sandboxes 1 (run_ops sample_tx sample_ops sample_store)))"
  using listings_end_complete [OF sample_initial samples_admissible(1) refl] by blast

section \<open>The life cycle the store implements\<close>

















end
