(* ===== verification/Graphql_Parser.thy ===== *)
theory Graphql_Parser
  imports Prelude
begin

text \<open>
  The bounded GraphQL reader of \<open>aiec-guard/src/l7.rs\<close> (\<open>parse_graphql\<close> and the methods of
  \<open>Parser\<close>). The position in the input is represented by the bytes from that position on:
  \<^verbatim>\<open>self.input.get(self.pos)\<close> is the first of them and \<^verbatim>\<open>self.pos += n\<close> drops \<open>n\<close>. The counter
  \<open>selected\<close> is threaded through the methods that use it. Every method is a total function,
  so the reader ends on every input.
\<close>

section \<open>Bounds and refusals\<close>

definition MAX_INSPECTED_BODY_BYTES :: nat where "MAX_INSPECTED_BODY_BYTES = 65536"
definition MAX_GRAPHQL_DEPTH :: nat where "MAX_GRAPHQL_DEPTH = 12"
definition MAX_GRAPHQL_FIELDS :: nat where "MAX_GRAPHQL_FIELDS = 256"
definition MAX_GRAPHQL_OPERATIONS :: nat where "MAX_GRAPHQL_OPERATIONS = 8"
definition MAX_OPERATION_NAME_BYTES :: nat where "MAX_OPERATION_NAME_BYTES = 64"

datatype refusal = ForbiddenRequest | Malformed | TooLarge

record graphql_parse_error =
  pe_refusal :: refusal
  pe_reason :: string

definition malformed :: "string \<Rightarrow> graphql_parse_error" where
  "malformed reason = \<lparr>pe_refusal = Malformed, pe_reason = reason\<rparr>"

definition unsupported :: "string \<Rightarrow> graphql_parse_error" where
  "unsupported reason = \<lparr>pe_refusal = ForbiddenRequest, pe_reason = reason\<rparr>"

abbreviation not_parsable :: graphql_parse_error where
  "not_parsable \<equiv> malformed ''l7 graphql: document is not parsable''"

datatype graphql_kind = Query | Mutation | Subscription

record graphql_operation =
  op_kind :: graphql_kind
  op_name :: "string option"
  op_root_fields :: "string list"

type_synonym 'a parsed = "graphql_parse_error + 'a"

section \<open>Trivia, punctuation and names\<close>

fun skip_comment :: "string \<Rightarrow> string" where
  "skip_comment [] = []"
| "skip_comment (b # s) = (if b = CHR 0x0A then s else skip_comment s)"

lemma length_skip_comment: "length (skip_comment s) \<le> length s"
  by (induction s) auto

function skip_trivia :: "string \<Rightarrow> string" where
  "skip_trivia [] = []"
| "skip_trivia (b # s) =
     (if b \<in> {CHR '' '', CHR 0x09, CHR 0x0D, CHR 0x0A, CHR '',''} then skip_trivia s
      else if b = CHR ''#'' then skip_trivia (skip_comment s)
      else b # s)"
  by pat_completeness auto
termination
  by (relation "measure length") (auto simp: length_skip_comment le_imp_less_Suc)

definition byte_at :: "string \<Rightarrow> char option" where
  "byte_at s = (case s of [] \<Rightarrow> None | b # _ \<Rightarrow> Some b)"

text \<open>
  \<open>peek\<close> also moves past the trivia. Every caller skips trivia again before it reads on, so the
  model keeps the byte only.
\<close>

definition peek :: "string \<Rightarrow> char option" where
  "peek s = byte_at (skip_trivia s)"

definition eat :: "char \<Rightarrow> string \<Rightarrow> bool \<times> string" where
  "eat byte s =
     (let s = skip_trivia s
      in if byte_at s = Some byte then (True, drop 1 s) else (False, s))"

definition expect :: "char \<Rightarrow> string \<Rightarrow> string parsed" where
  "expect byte s = (let (found, s) = eat byte s in if found then Inr s else Inl not_parsable)"

definition name_start :: "char \<Rightarrow> bool" where
  "name_start b \<longleftrightarrow> is_ascii_alphabetic b \<or> b = CHR ''_''"

definition name_byte :: "char \<Rightarrow> bool" where
  "name_byte b \<longleftrightarrow> is_ascii_alphanumeric b \<or> b = CHR ''_''"

definition keyword :: "string \<Rightarrow> string \<Rightarrow> bool" where
  "keyword word s =
     (let s = skip_trivia s
      in starts_with s word
         \<and> (case byte_at (drop (length word) s) of Some b \<Rightarrow> \<not> name_byte b | None \<Rightarrow> True))"

definition gql_name :: "string \<Rightarrow> (string \<times> string) parsed" where
  "gql_name s =
     (let s = skip_trivia s
      in case s of
           [] \<Rightarrow> Inl not_parsable
         | b # r \<Rightarrow>
             if \<not> name_start b then Inl not_parsable
             else bind_r (ok_or (from_utf8 (b # takeWhile name_byte r)) not_parsable) (\<lambda>name.
               if MAX_OPERATION_NAME_BYTES < length name
               then Inl (unsupported ''l7 graphql: name exceeds the length bound'')
               else Inr (name, dropWhile name_byte r)))"

section \<open>Values\<close>

definition number_byte :: "char \<Rightarrow> bool" where
  "number_byte b \<longleftrightarrow> is_ascii_digit b \<or> b \<in> set ''-+.eE''"

definition gql_number :: "string \<Rightarrow> string" where
  "gql_number s = dropWhile number_byte s"

definition triple_quote :: string where
  "triple_quote = [CHR 0x22, CHR 0x22, CHR 0x22]"

function block_string :: "string \<Rightarrow> string parsed" where
  "block_string [] = Inl not_parsable"
| "block_string (b # s) =
     (if b = CHR 0x5C then block_string (drop 1 s)
      else if b = CHR 0x22 \<and> starts_with (b # s) triple_quote then Inr (drop 2 s)
      else block_string s)"
  by pat_completeness auto
termination by (relation "measure length") auto

function line_string :: "string \<Rightarrow> string parsed" where
  "line_string [] = Inl not_parsable"
| "line_string (b # s) =
     (if b = CHR 0x0A then Inl not_parsable
      else if b = CHR 0x5C then line_string (drop 1 s)
      else if b = CHR 0x22 then Inr s
      else line_string s)"
  by pat_completeness auto
termination by (relation "measure length") auto

definition gql_string :: "string \<Rightarrow> string parsed" where
  "gql_string s =
     (if starts_with s triple_quote then block_string (drop 3 s) else line_string (drop 1 s))"

function gql_value :: "nat \<Rightarrow> string \<Rightarrow> string parsed"
  and gql_items :: "char \<Rightarrow> nat \<Rightarrow> string \<Rightarrow> string parsed" where
  "gql_value depth s =
     (if MAX_GRAPHQL_DEPTH < depth then Inl (unsupported ''l7 graphql: value nests too deeply'')
      else case skip_trivia s of
        [] \<Rightarrow> Inl not_parsable
      | b # r \<Rightarrow>
          if b = CHR 0x22 then gql_string (b # r)
          else if b = CHR ''['' \<or> b = CHR ''{''
          then gql_items (if b = CHR ''['' then CHR '']'' else CHR ''}'') depth r
          else if b = CHR ''$'' then bind_r (gql_name r) (\<lambda>(_, s). Inr s)
          else if name_start b then bind_r (gql_name (b # r)) (\<lambda>(_, s). Inr s)
          else if is_ascii_digit b \<or> b = CHR ''-'' \<or> b = CHR ''+'' then Inr (gql_number (b # r))
          else Inl not_parsable)"
| "gql_items close depth s =
     (case skip_trivia s of
        [] \<Rightarrow> Inl not_parsable
      | b # r \<Rightarrow>
          if b = close then Inr r
          else bind_r (gql_value (depth + 1) (b # r)) (\<lambda>s. gql_items close depth s))"
  by pat_completeness auto

text \<open>What each method consumes; the loops end because every round reads at least one byte.\<close>

lemma length_skip_trivia: "length (skip_trivia s) \<le> length s"
proof (induction s rule: skip_trivia.induct)
  case (2 b s)
  then show ?case using length_skip_comment [of s] by auto
qed simp

lemma length_skip_trivia_Cons: "skip_trivia s = b # r \<Longrightarrow> length r < length s"
  using length_skip_trivia [of s] by simp

lemma length_gql_name: "gql_name s = Inr (n, r) \<Longrightarrow> length r < length s"
proof -
  assume "gql_name s = Inr (n, r)"
  then obtain b t where bt: "skip_trivia s = b # t" "r = dropWhile name_byte t"
    by (auto simp: gql_name_def Let_def result_simps split: list.splits)
  with length_dropWhile_le [of name_byte t] length_skip_trivia_Cons [OF bt(1)] show ?thesis by simp
qed

lemma length_block_string: "block_string s = Inr r \<Longrightarrow> length r < length s"
proof (induction s rule: block_string.induct)
  case (2 b s)
  show ?case
  proof (cases "b = CHR 0x5C")
    case True
    with 2 have "length r < length (drop 1 s)" by simp
    then show ?thesis by simp
  next
    case False
    with 2 show ?thesis by (auto split: if_splits)
  qed
qed simp

lemma length_line_string: "line_string s = Inr r \<Longrightarrow> length r < length s"
proof (induction s rule: line_string.induct)
  case (2 b s)
  show ?case
  proof (cases "b = CHR 0x5C")
    case True
    with 2 have "length r < length (drop 1 s)" by simp
    then show ?thesis by simp
  next
    case False
    with 2 show ?thesis by (auto split: if_splits)
  qed
qed simp

lemma length_gql_string: "gql_string s = Inr r \<Longrightarrow> length r < length s"
  using length_block_string [of "drop 3 s" r] length_line_string [of "drop 1 s" r]
  by (simp add: gql_string_def split: if_splits)

lemma length_gql_number:
  "is_ascii_digit b \<or> b = CHR ''-'' \<or> b = CHR ''+'' \<Longrightarrow> length (gql_number (b # r)) \<le> length r"
  by (auto simp: gql_number_def number_byte_def length_dropWhile_le)

lemma gql_value_consumes:
  "gql_value_gql_items_dom (Inl (depth, s)) \<Longrightarrow> gql_value depth s = Inr r \<Longrightarrow> length r < length s"
  "gql_value_gql_items_dom (Inr (close, depth, s)) \<Longrightarrow> gql_items close depth s = Inr r \<Longrightarrow> length r < length s"
proof (induction arbitrary: r and r rule: gql_value_gql_items.pinduct)
  case (1 depth s)
  from "1.prems" obtain b t where bt: "skip_trivia s = b # t" and d: "\<not> MAX_GRAPHQL_DEPTH < depth"
    by (auto simp: gql_value.psimps [OF "1.hyps"] split: if_splits list.splits)
  have t: "length t < length s" by (rule length_skip_trivia_Cons [OF bt])
  note v = "1.prems" [unfolded gql_value.psimps [OF "1.hyps"]]
  consider "b = CHR 0x22" | "b = CHR ''['' \<or> b = CHR ''{''" "b \<noteq> CHR 0x22"
    | "b \<noteq> CHR 0x22" "\<not> (b = CHR ''['' \<or> b = CHR ''{'')" by blast
  then show ?case
  proof cases
    case 1
    with v bt d have "gql_string (b # t) = Inr r" by simp
    from length_gql_string [OF this] t show ?thesis by simp
  next
    case 2
    with v bt d have "gql_items (if b = CHR ''['' then CHR '']'' else CHR ''}'') depth t = Inr r"
      by auto
    from "1.IH" [OF d bt 2(2) 2(1) this] t show ?thesis by simp
  next
    case 3
    with v bt d t show ?thesis
      using length_gql_name [of t] length_gql_name [of "b # t"] length_gql_number [of b t]
      by (auto simp: result_simps split: if_splits)
  qed
next
  case (2 close depth s)
  from "2.prems" obtain b t where bt: "skip_trivia s = b # t"
    by (auto simp: gql_items.psimps [OF "2.hyps"] split: list.splits)
  have t: "length t < length s" by (rule length_skip_trivia_Cons [OF bt])
  show ?case
  proof (cases "b = close")
    case True
    with "2.prems" bt t show ?thesis by (simp add: gql_items.psimps [OF "2.hyps"])
  next
    case False
    with "2.prems" bt obtain u where u: "gql_value (depth + 1) (b # t) = Inr u" "gql_items close depth u = Inr r"
      by (auto simp: gql_items.psimps [OF "2.hyps"] result_simps)
    from "2.IH" (1) [OF bt False u(1)] "2.IH" (2) [OF bt False u(1) u(2)] t show ?thesis by simp
  qed
qed

lemma gql_value_total: "All gql_value_gql_items_dom"
proof (rule "gql_value_gql_items.termination" [where R = "measure (case_sum
      (\<lambda>(depth, s). 2 * length s) (\<lambda>(close, depth, s). 2 * length s + 1))"], goal_cases)
  case (2 depth s b r)
  then show ?case using length_skip_trivia_Cons [of s b r] by simp
next
  case (3 close depth s b r)
  then show ?case using length_skip_trivia [of s] by simp
next
  case (4 close depth s b r u)
  then show ?case
    using gql_value_consumes(1) [of "depth + 1" "b # r" u] length_skip_trivia [of s] by simp
qed simp

termination gql_value
  by (rule gql_value_total)

declare gql_value.simps [simp del] gql_items.simps [simp del]

lemma length_gql_value: "gql_value depth s = Inr r \<Longrightarrow> length r < length s"
  by (rule gql_value_consumes(1) [OF gql_value_total [THEN spec]])

lemma length_expect: "expect c s = Inr r \<Longrightarrow> length r < length s"
  using length_skip_trivia [of s]
  by (auto simp: expect_def eat_def byte_at_def Let_def split: if_splits list.splits)

section \<open>Arguments, types and directives\<close>

function argument_loop :: "nat \<Rightarrow> string \<Rightarrow> string parsed" where
  "argument_loop depth s =
     (case skip_trivia s of
        [] \<Rightarrow> Inl not_parsable
      | b # r \<Rightarrow>
          if b = CHR '')'' then Inr r
          else bind_r (gql_name (b # r)) (\<lambda>(_, s).
               bind_r (expect (CHR '':'') s) (\<lambda>s.
               bind_r (gql_value depth s) (\<lambda>s. argument_loop depth s))))"
  by pat_completeness auto
termination
proof (relation "measure (\<lambda>(depth, s). length s)", goal_cases)
  case (2 depth s b r p n t u v)
  then show ?case
    using length_skip_trivia [of s] length_gql_name [of "b # r" n t] length_expect [of "CHR '':''" t u]
      length_gql_value [of depth u v] by simp
qed simp

definition arguments :: "nat \<Rightarrow> string \<Rightarrow> string parsed" where
  "arguments depth s = bind_r (expect (CHR ''('') s) (argument_loop depth)"

function type_ref :: "nat \<Rightarrow> string \<Rightarrow> string parsed" where
  "type_ref depth s =
     (if MAX_GRAPHQL_DEPTH < depth then Inl (unsupported ''l7 graphql: type nests too deeply'')
      else let s = skip_trivia s in
        bind_r
          (if byte_at s = Some (CHR ''['') then
             bind_r (type_ref (depth + 1) (drop 1 s)) (\<lambda>s. expect (CHR '']'') s)
           else bind_r (gql_name s) (\<lambda>(_, s). Inr s))
          (\<lambda>s. if byte_at s = Some (CHR ''!'') then Inr (drop 1 s) else Inr s))"
  by pat_completeness auto
termination
  by (relation "measure (\<lambda>(depth, s). MAX_GRAPHQL_DEPTH + 1 - depth)") auto

function variable_loop :: "nat \<Rightarrow> string \<Rightarrow> string parsed" where
  "variable_loop depth s =
     (case skip_trivia s of
        [] \<Rightarrow> Inl not_parsable
      | b # r \<Rightarrow>
          if b = CHR '')'' then Inr r
          else if b = CHR ''$'' then
            bind_r (gql_name r) (\<lambda>(_, s).
            bind_r (expect (CHR '':'') s) (\<lambda>s.
            bind_r (type_ref depth s) (\<lambda>s.
            bind_r (if byte_at s = Some (CHR ''='') then gql_value depth (drop 1 s) else Inr s)
              (\<lambda>s. variable_loop depth s))))
          else Inl not_parsable)"
  by pat_completeness auto

declare type_ref.simps [simp del] argument_loop.simps [simp del]

lemma length_type_ref: "type_ref depth s = Inr r \<Longrightarrow> length r < length s"
proof (induction depth s arbitrary: r rule: type_ref.induct)
  case (1 depth s)
  define t where "t = skip_trivia s"
  have t: "length t \<le> length s" by (simp add: t_def length_skip_trivia)
  have d: "\<not> MAX_GRAPHQL_DEPTH < depth"
    using "1.prems" by (auto simp: type_ref.simps [of depth s] split: if_splits)
  have "bind_r
      (if byte_at t = Some (CHR ''['') then
         bind_r (type_ref (depth + 1) (drop 1 t)) (\<lambda>s. expect (CHR '']'') s)
       else bind_r (gql_name t) (\<lambda>(_, s). Inr s))
      (\<lambda>s. if byte_at s = Some (CHR ''!'') then Inr (drop 1 s) else Inr s) = Inr r"
    using "1.prems" unfolding type_ref.simps [of depth s] t_def Let_def if_not_P [OF d] .
  then obtain u where
    u: "(if byte_at t = Some (CHR ''['') then
           bind_r (type_ref (depth + 1) (drop 1 t)) (\<lambda>s. expect (CHR '']'') s)
         else bind_r (gql_name t) (\<lambda>(_, s). Inr s)) = Inr u"
    and r: "(if byte_at u = Some (CHR ''!'') then Inr (drop 1 u) else Inr u) = (Inr r :: string parsed)"
    unfolding bind_r_Inr by blast
  have "length u < length t"
  proof (cases "byte_at t = Some (CHR ''['')")
    case True
    with u obtain v where v: "type_ref (depth + 1) (drop 1 t) = Inr v" "expect (CHR '']'') v = Inr u"
      by (auto simp: result_simps)
    from "1.IH" [OF d t_def True v(1)] length_expect [OF v(2)] show ?thesis by simp
  next
    case False
    with u show ?thesis by (auto simp: result_simps dest: length_gql_name)
  qed
  moreover have "length r \<le> length u" using r by (auto split: if_splits)
  ultimately show ?case using t by simp
qed

termination variable_loop
proof (relation "measure (\<lambda>(depth, s). length s)", goal_cases)
  case (2 depth s b r p n t u v w)
  have "length w \<le> length v"
    using 2 length_gql_value [of depth "drop 1 v" w] by (auto split: if_splits)
  with 2 show ?case
    using length_skip_trivia [of s] length_gql_name [of r n t] length_expect [of "CHR '':''" t u]
      length_type_ref [of depth u v] by simp
qed simp

declare variable_loop.simps [simp del]

definition variable_definitions :: "nat \<Rightarrow> string \<Rightarrow> string parsed" where
  "variable_definitions depth s = bind_r (expect (CHR ''('') s) (variable_loop depth)"

lemma length_argument_loop: "argument_loop depth s = Inr r \<Longrightarrow> length r < length s"
proof (induction depth s rule: argument_loop.induct)
  case (1 depth s)
  from "1.prems" obtain b t where bt: "skip_trivia s = b # t"
    by (auto simp: argument_loop.simps [of depth s] split: list.splits)
  show ?case
  proof (cases "b = CHR '')''")
    case True
    with "1.prems" bt length_skip_trivia_Cons [OF bt] show ?thesis
      by (simp add: argument_loop.simps [of depth s])
  next
    case False
    with "1.prems" bt obtain n u v w where
      n: "gql_name (b # t) = Inr (n, u)" and v: "expect (CHR '':'') u = Inr v"
      and w: "gql_value depth v = Inr w" and r: "argument_loop depth w = Inr r"
      by (auto simp: argument_loop.simps [of depth s] result_simps)
    from "1.IH" [OF bt False n refl v w r] length_skip_trivia [of s] bt
      length_gql_name [OF n] length_expect [OF v] length_gql_value [OF w]
    show ?thesis by simp
  qed
qed

lemma length_arguments: "arguments depth s = Inr r \<Longrightarrow> length r < length s"
  by (auto simp: arguments_def result_simps dest!: length_expect length_argument_loop)

function directives :: "string \<Rightarrow> string parsed" where
  "directives s =
     (let s = skip_trivia s in
      if byte_at s \<noteq> Some (CHR ''@'') then Inr s
      else bind_r (gql_name (drop 1 s)) (\<lambda>(_, s).
           bind_r (if peek s = Some (CHR ''('') then arguments 0 s else Inr s) (\<lambda>s. directives s)))"
  by pat_completeness auto
termination
proof (relation "measure length", goal_cases)
  case (2 s t p n u w)
  then have "length w \<le> length u" using length_arguments [of 0 u w] by (auto split: if_splits)
  with 2 show ?case
    using length_gql_name [of "drop 1 t" n u] length_skip_trivia [of s] by simp
qed simp

declare directives.simps [simp del]

lemma length_directives: "directives s = Inr r \<Longrightarrow> length r \<le> length s"
proof (induction s rule: directives.induct)
  case (1 s)
  define t where "t = skip_trivia s"
  have t: "length t \<le> length s" by (simp add: t_def length_skip_trivia)
  show ?case
  proof (cases "byte_at t = Some (CHR ''@'')")
    case False
    with "1.prems" t show ?thesis by (simp add: directives.simps [of s] t_def)
  next
    case True
    with "1.prems" obtain n u v where n: "gql_name (drop 1 t) = Inr (n, u)"
      and v: "(if peek u = Some (CHR ''('') then arguments 0 u else Inr u) = Inr v"
      and r: "directives v = Inr r"
      unfolding directives.simps [of s] t_def [symmetric] Let_def by (auto simp: result_simps)
    have "length v \<le> length u"
      using v length_arguments [of 0 u v] by (auto split: if_splits)
    moreover have "length r \<le> length v"
      using "1.IH" [OF t_def _ n refl v r] True by simp
    ultimately show ?thesis using t length_gql_name [OF n] by simp
  qed
qed

section \<open>Selections, operations and documents\<close>

function selection_set :: "nat \<Rightarrow> nat \<Rightarrow> string \<Rightarrow> (string list \<times> nat \<times> string) parsed"
  and selection_loop :: "nat \<Rightarrow> string list \<Rightarrow> nat \<Rightarrow> string \<Rightarrow> (string list \<times> nat \<times> string) parsed" where
  "selection_set depth selected s =
     (if MAX_GRAPHQL_DEPTH < depth
      then Inl (unsupported ''l7 graphql: selection set nests too deeply'')
      else bind_r (expect (CHR ''{'') s) (\<lambda>s. selection_loop depth [] selected s))"
| "selection_loop depth roots selected s =
     (case skip_trivia s of
        [] \<Rightarrow> Inl not_parsable
      | b # r \<Rightarrow>
          if b = CHR ''}'' then Inr (roots, selected, r)
          else if b = CHR ''.''
          then Inl (unsupported ''l7 graphql: fragment spreads are not inspected'')
          else bind_r (gql_name (b # r)) (\<lambda>(field, s).
            if MAX_GRAPHQL_FIELDS < selected + 1
            then Inl (unsupported ''l7 graphql: document selects too many fields'')
            else bind_r (case eat (CHR '':'') s of
                           (True, s) \<Rightarrow> gql_name s
                         | (False, s) \<Rightarrow> Inr (field, s)) (\<lambda>(field, s).
            bind_r (if peek s = Some (CHR ''('') then arguments 0 s else Inr s) (\<lambda>s.
            bind_r (directives s) (\<lambda>s.
            bind_r (if peek s = Some (CHR ''{'')
                    then selection_set (depth + 1) (selected + 1) s
                    else Inr ([], selected + 1, s)) (\<lambda>(_, selected, s).
            selection_loop depth
              (if depth = 1 \<and> field \<notin> set roots then roots @ [field] else roots) selected s))))))"
  by pat_completeness auto

lemma eat_cases:
  "case_prod (\<lambda>found s. if found then gql_name s else Inr (field, s)) (eat c s) = Inr (f, u)
    \<Longrightarrow> length u \<le> length s"
  using length_skip_trivia [of s]
  by (auto simp: eat_def Let_def split: if_splits dest!: length_gql_name)

lemma length_field:
  assumes "skip_trivia s = b # r" "gql_name (b # r) = Inr (n, t)"
    and "(case eat (CHR '':'') t of (True, s) \<Rightarrow> gql_name s | (False, s) \<Rightarrow> Inr (n, s)) = Inr (f, u)"
    and "(if peek u = Some (CHR ''('') then arguments 0 u else Inr u) = Inr v" "directives v = Inr w"
  shows "length w < length s"
proof -
  have "length v \<le> length u" using assms(4) length_arguments [of 0 u v] by (auto split: if_splits)
  moreover have "length u \<le> length t"
    using assms(3) eat_cases [of n "CHR '':''" t f u] by (auto split: prod.splits bool.splits)
  ultimately show ?thesis
    using length_skip_trivia [of s] assms(1) length_gql_name [OF assms(2)] length_directives [OF assms(5)]
    by simp
qed

lemma selection_loop_steps:
  assumes "selection_set_selection_loop_dom (Inr (depth, roots, selected, s))"
    and "selection_loop depth roots selected s = Inr (rs, sel, rest)"
  obtains r where "skip_trivia s = CHR ''}'' # r" "rest = r"
  | b r n t f u v w xs sel' x where "skip_trivia s = b # r" "b \<noteq> CHR ''}''" "b \<noteq> CHR ''.''"
      "gql_name (b # r) = Inr (n, t)" "\<not> MAX_GRAPHQL_FIELDS < selected + 1"
      "(case eat (CHR '':'') t of (True, s) \<Rightarrow> gql_name s | (False, s) \<Rightarrow> Inr (n, s)) = Inr (f, u)"
      "(if peek u = Some (CHR ''('') then arguments 0 u else Inr u) = Inr v"
      "directives v = Inr w"
      "(if peek w = Some (CHR ''{'') then selection_set (depth + 1) (selected + 1) w
        else Inr ([], selected + 1, w)) = Inr (xs, sel', x)"
      "selection_loop depth (if depth = 1 \<and> f \<notin> set roots then roots @ [f] else roots) sel' x
        = Inr (rs, sel, rest)"
proof (cases "skip_trivia s")
  case Nil
  with assms show ?thesis by (simp add: selection_loop.psimps)
next
  case (Cons b r)
  note eq = assms(2) [unfolded selection_loop.psimps [OF assms(1)] Cons list.case]
  show ?thesis
  proof (cases "b = CHR ''}''")
    case True
    with eq Cons that(1) show ?thesis by simp
  next
    case no_close: False
    note eq = eq [unfolded if_not_P [OF no_close]]
    then have no_dot: "b \<noteq> CHR ''.''" by (auto simp del: bind_r.simps)
    note eq = eq [unfolded if_not_P [OF no_dot] bind_r_Inr split_paired_Ex case_prod_conv]
    then obtain n t where n: "gql_name (b # r) = Inr (n, t)" and few: "\<not> MAX_GRAPHQL_FIELDS < selected + 1"
      by (auto split: if_splits)
    from eq n few have "\<exists>f u v w xs sel' x.
      (case eat (CHR '':'') t of (True, s) \<Rightarrow> gql_name s | (False, s) \<Rightarrow> Inr (n, s)) = Inr (f, u)
      \<and> (if peek u = Some (CHR ''('') then arguments 0 u else Inr u) = Inr v
      \<and> directives v = Inr w
      \<and> (if peek w = Some (CHR ''{'') then selection_set (depth + 1) (selected + 1) w
        else Inr ([], selected + 1, w)) = Inr (xs, sel', x)
      \<and> selection_loop depth (if depth = 1 \<and> f \<notin> set roots then roots @ [f] else roots) sel' x
        = Inr (rs, sel, rest)"
      by (simp only: sum.inject prod.inject if_False bind_r_Inr split_paired_Ex case_prod_conv) blast
    with Cons no_close no_dot n few that(2) show ?thesis by blast
  qed
qed

lemma selection_consumes:
  "selection_set_selection_loop_dom (Inl (depth, selected, s))
    \<Longrightarrow> selection_set depth selected s = Inr (rs, sel, rest) \<Longrightarrow> length rest < length s"
  "selection_set_selection_loop_dom (Inr (depth, roots, selected, s))
    \<Longrightarrow> selection_loop depth roots selected s = Inr (rs, sel, rest) \<Longrightarrow> length rest < length s"
proof (induction arbitrary: rs sel rest and rs sel rest rule: selection_set_selection_loop.pinduct)
  case (1 depth selected s)
  from "1.prems" obtain t where d: "\<not> MAX_GRAPHQL_DEPTH < depth" and t: "expect (CHR ''{'') s = Inr t"
    and l: "selection_loop depth [] selected t = Inr (rs, sel, rest)"
    unfolding selection_set.psimps [OF "1.hyps"] by (auto simp: bind_r_Inr split: if_splits)
  from "1.IH" [OF d t l] length_expect [OF t] show ?case by simp
next
  case (2 depth roots selected s)
  from "2.hyps" "2.prems" show ?case
  proof (cases rule: selection_loop_steps)
    case (1 r)
    with length_skip_trivia_Cons [of s] show ?thesis by simp
  next
    case (2 b r n t f u v w xs sel' x)
    have "length w < length s" by (rule length_field [OF 2(1,4,6,7,8)])
    moreover have "length x \<le> length w"
    proof (cases "peek w = Some (CHR ''{'')")
      case True
      with 2(9) have "selection_set (depth + 1) (selected + 1) w = Inr (xs, sel', x)" by simp
      from "2.IH" (1) [OF 2(1-4) refl 2(5,6) refl 2(7,8) True this] show ?thesis by simp
    qed (use 2(9) in simp)
    moreover have "length rest < length x"
      using "2.IH" (2) [OF 2(1-4) refl 2(5,6) refl 2(7-9) refl refl 2(10)] .
    ultimately show ?thesis by simp
  qed
qed

lemma selection_total: "All selection_set_selection_loop_dom"
proof (rule "selection_set_selection_loop.termination" [where R = "measure (case_sum
      (\<lambda>(depth, selected, s). 2 * length s) (\<lambda>(depth, roots, selected, s). 2 * length s + 1))"], goal_cases)
  case (2 depth selected s t)
  then show ?case using length_expect [of "CHR ''{''" s t] by simp
next
  case (3 depth roots selected s b r p n t q f u v w)
  then show ?case using length_field [of s b r n t f u v w] by simp
next
  case (4 depth roots selected s b r p n t q f u v w y xs z sel' x)
  have "length x \<le> length w"
    using 4(11-14) selection_consumes(1) [of "depth + 1" "selected + 1" w xs sel' x]
    by (auto split: if_splits)
  with 4 show ?case using length_field [of s b r n t f u v w] by clarsimp
qed simp

termination selection_set
  by (rule selection_total)

declare selection_set.simps [simp del] selection_loop.simps [simp del]

lemma length_selection_set: "selection_set depth selected s = Inr (rs, sel, rest) \<Longrightarrow> length rest < length s"
  by (rule selection_consumes(1) [OF selection_total [THEN spec]])

definition gql_operation :: "graphql_kind \<Rightarrow> nat \<Rightarrow> string \<Rightarrow> (graphql_operation \<times> nat \<times> string) parsed" where
  "gql_operation kind selected s =
     bind_r (if peek s \<in> {Some (CHR ''(''), Some (CHR ''@''), Some (CHR ''{'')} then Inr (None, s)
             else bind_r (gql_name s) (\<lambda>(name, s). Inr (Some name, s))) (\<lambda>(name, s).
     bind_r (if peek s = Some (CHR ''('') then variable_definitions 0 s else Inr s) (\<lambda>s.
     bind_r (directives s) (\<lambda>s.
     bind_r (selection_set 1 selected s) (\<lambda>(root_fields, selected, s).
       Inr (\<lparr>op_kind = kind, op_name = name, op_root_fields = root_fields\<rparr>, selected, s)))))"

lemma length_variable_loop: "variable_loop depth s = Inr r \<Longrightarrow> length r < length s"
proof (induction depth s rule: variable_loop.induct)
  case (1 depth s)
  from "1.prems" obtain b t where bt: "skip_trivia s = b # t"
    by (auto simp: variable_loop.simps [of depth s] split: list.splits)
  show ?case
  proof (cases "b = CHR '')''")
    case True
    with "1.prems" bt length_skip_trivia_Cons [OF bt] show ?thesis
      by (simp add: variable_loop.simps [of depth s])
  next
    case False
    with "1.prems" bt have d: "b = CHR ''$''" by (auto simp: variable_loop.simps [of depth s] split: if_splits)
    with False "1.prems" bt obtain n u v w x where
      n: "gql_name t = Inr (n, u)" and v: "expect (CHR '':'') u = Inr v" and w: "type_ref depth v = Inr w"
      and x: "(if byte_at w = Some (CHR ''='') then gql_value depth (drop 1 w) else Inr w) = Inr x"
      and r: "variable_loop depth x = Inr r"
      by (auto simp: variable_loop.simps [of depth s] bind_r_Inr simp del: bind_r.simps)
    have "length x \<le> length w"
      using x length_gql_value [of depth "drop 1 w" x] by (auto split: if_splits)
    with "1.IH" [OF bt False d n refl v w x r] length_skip_trivia [of s] bt
      length_gql_name [OF n] length_expect [OF v] length_type_ref [OF w]
    show ?thesis by simp
  qed
qed

lemma length_gql_operation: "gql_operation kind selected s = Inr (op, sel, r) \<Longrightarrow> length r < length s"
proof -
  assume "gql_operation kind selected s = Inr (op, sel, r)"
  then obtain name s1 s2 s3 fields where
    1: "(if peek s \<in> {Some (CHR ''(''), Some (CHR ''@''), Some (CHR ''{'')} then Inr (None, s)
         else bind_r (gql_name s) (\<lambda>(name, s). Inr (Some name, s))) = Inr (name, s1)"
    and 2: "(if peek s1 = Some (CHR ''('') then variable_definitions 0 s1 else Inr s1) = Inr s2"
    and 3: "directives s2 = Inr s3" and 4: "selection_set 1 selected s3 = Inr (fields, sel, r)"
    unfolding gql_operation_def bind_r_Inr split_paired_Ex case_prod_conv sum.inject prod.inject by blast
  have "length s1 \<le> length s" using 1 by (auto simp: result_simps split: if_splits dest: length_gql_name)
  moreover have "length s2 \<le> length s1"
    using 2 by (auto simp: variable_definitions_def result_simps split: if_splits
        dest!: length_expect length_variable_loop)
  ultimately show ?thesis using length_directives [OF 3] length_selection_set [OF 4] by simp
qed

definition operation_keyword :: "string \<Rightarrow> (graphql_kind \<times> nat) parsed" where
  "operation_keyword s =
     (if keyword ''query'' s then Inr (Query, 5)
      else if keyword ''mutation'' s then Inr (Mutation, 8)
      else if keyword ''subscription'' s then Inr (Subscription, 12)
      else Inl not_parsable)"

function document_loop :: "graphql_operation list \<Rightarrow> nat \<Rightarrow> string \<Rightarrow> graphql_operation list parsed" where
  "document_loop operations selected s =
     (case skip_trivia s of
        [] \<Rightarrow> Inr operations
      | b # r \<Rightarrow>
          bind_r
            (if b = CHR ''{'' then
               bind_r (selection_set 1 selected (b # r)) (\<lambda>(root_fields, selected, s).
                 Inr (\<lparr>op_kind = Query, op_name = None, op_root_fields = root_fields\<rparr>, selected, s))
             else if keyword ''fragment'' (b # r)
             then Inl (unsupported ''l7 graphql: fragment definitions are not inspected'')
             else bind_r (operation_keyword (b # r)) (\<lambda>(kind, word).
               gql_operation kind selected (drop word (b # r)))) (\<lambda>(operation, selected, s).
          if MAX_GRAPHQL_OPERATIONS < length (operations @ [operation])
          then Inl (unsupported ''l7 graphql: document declares too many operations'')
          else document_loop (operations @ [operation]) selected s))"
  by pat_completeness auto
termination
proof (relation "measure (\<lambda>(operations, selected, s). length s)", goal_cases)
  case (2 operations selected s b r p op q sel u)
  have "length u < length (b # r)"
    using 2(2-4) by (auto simp: bind_r_Inr simp del: bind_r.simps length_Cons split: if_splits
        dest!: length_selection_set length_gql_operation)
  with 2 show ?case using length_skip_trivia [of s] by clarsimp
qed simp

declare document_loop.simps [simp del]

definition parse_graphql :: "string \<Rightarrow> graphql_operation list parsed" where
  "parse_graphql document =
     (if MAX_INSPECTED_BODY_BYTES < length document
      then Inl \<lparr>pe_refusal = TooLarge, pe_reason = ''l7 graphql: document exceeds the inspection bound''\<rparr>
      else document_loop [] 0 document)"

end
