(* ===== verification/Guard_L7.thy ===== *)
theory Guard_L7
  imports Guard_Policy Graphql_Parser
begin

text \<open>
  Layer 7 governance, \<open>aiec-guard/src/l7.rs\<close>: the validator of an L7 policy, the decision for
  an opaque tunnel, and the decision for a request whose method, path and body Guard can read,
  by HTTP rule, JSON-RPC method, MCP tool and GraphQL operation. The JSON reader is an argument
  that yields the values a \<open>serde_json\<close> deserializer visits, repeated keys included;
  \<open>strict_json\<close> is the visitor of the code, which refuses a repeated key.
\<close>

section \<open>Bounds, verdicts and requests\<close>

definition MAX_JSONRPC_MESSAGES :: nat where "MAX_JSONRPC_MESSAGES = 64"
definition L7_MAX_METHOD_BYTES :: nat where "L7_MAX_METHOD_BYTES = 64"
definition MAX_TOOL_NAME_BYTES :: nat where "MAX_TOOL_NAME_BYTES = 128"
definition MAX_TARGET_BYTES :: nat where "MAX_TARGET_BYTES = 2048"
definition MAX_L7_RULES :: nat where "MAX_L7_RULES = 32"

datatype layer = HttpLayer | McpLayer | GraphqlLayer

datatype verdict = AllowVerdict string | DenyVerdict layer refusal string

fun allowed :: "verdict \<Rightarrow> bool" where
  "allowed (AllowVerdict reason) = True"
| "allowed (DenyVerdict l refusal reason) = False"

record visible_request =
  vr_host :: string
  vr_method :: string
  vr_path :: string
  vr_content_type :: "string option"
  vr_body :: "string option"

definition l7_error :: "string \<Rightarrow> guard_error" where
  "l7_error message = Policy (L7Rule message)"

section \<open>Syntax checks\<close>

definition l7_safe_path :: "string \<Rightarrow> bool" where
  "l7_safe_path path \<longleftrightarrow>
     starts_with path ''/'' \<and> length path \<le> MAX_TARGET_BYTES
     \<and> CHR ''%'' \<notin> set path \<and> CHR 0x5C \<notin> set path
     \<and> \<not> list_ex (\<lambda>segment. segment = ''.'' \<or> segment = ''..'') (split_on (CHR ''/'') path)
     \<and> \<not> list_ex (\<lambda>byte. byte \<le> CHR '' '' \<or> byte = CHR 0x7F) path"

definition valid_rule_path :: "string \<Rightarrow> bool" where
  "valid_rule_path path \<longleftrightarrow> l7_safe_path path \<and> length path \<le> MAX_PATH_BYTES"

definition path_matches :: "string \<Rightarrow> string \<Rightarrow> bool" where
  "path_matches rule path \<longleftrightarrow>
     path = rule
     \<or> (ends_with rule ''/'' \<and> starts_with path rule)
     \<or> (case strip_prefix path rule of Some rest \<Rightarrow> starts_with rest ''/'' | None \<Rightarrow> False)"

definition valid_method :: "string \<Rightarrow> bool" where
  "valid_method method \<longleftrightarrow>
     method \<noteq> [] \<and> length method \<le> L7_MAX_METHOD_BYTES
     \<and> list_all (\<lambda>b. is_ascii_uppercase b \<or> is_ascii_digit b \<or> b \<in> set ''-_.'') method
     \<and> (case method of b # _ \<Rightarrow> is_ascii_uppercase b | [] \<Rightarrow> False)"

definition valid_json_rpc_method :: "string \<Rightarrow> bool" where
  "valid_json_rpc_method method \<longleftrightarrow>
     method \<noteq> [] \<and> length method \<le> L7_MAX_METHOD_BYTES
     \<and> list_all (\<lambda>b. is_ascii_alphanumeric b \<or> b \<in> set ''-_./'') method"

definition valid_tool_name :: "string \<Rightarrow> bool" where
  "valid_tool_name name \<longleftrightarrow>
     name \<noteq> [] \<and> length name \<le> MAX_TOOL_NAME_BYTES
     \<and> list_all (\<lambda>b. is_ascii_alphanumeric b \<or> b \<in> set ''-_.'') name"

definition valid_graphql_name :: "string \<Rightarrow> bool" where
  "valid_graphql_name name \<longleftrightarrow>
     name \<noteq> [] \<and> length name \<le> MAX_OPERATION_NAME_BYTES
     \<and> (case name of b # _ \<Rightarrow> is_ascii_alphabetic b \<or> b = CHR ''_'' | [] \<Rightarrow> False)
     \<and> list_all (\<lambda>b. is_ascii_alphanumeric b \<or> b = CHR ''_'') name"

definition is_json :: "string option \<Rightarrow> string \<Rightarrow> bool" where
  "is_json content_type body \<longleftrightarrow>
     (case content_type of
        Some v \<Rightarrow> contains_str (to_ascii_lowercase v) ''json''
          \<or> contains_str (to_ascii_lowercase v) ''graphql''
      | None \<Rightarrow> (case body of b # _ \<Rightarrow> b = CHR ''{'' \<or> b = CHR ''['' | [] \<Rightarrow> False))"

definition graphql_media_type :: "string option \<Rightarrow> bool" where
  "graphql_media_type content_type \<longleftrightarrow>
     (case content_type of Some v \<Rightarrow> contains_str (to_ascii_lowercase v) ''graphql'' | None \<Rightarrow> False)"

section \<open>The policy\<close>

definition effective_mode :: "l7_policy \<Rightarrow> guard_error + l7_mode" where
  "effective_mode policy =
     (case l7_mode_of policy of
        Sni \<Rightarrow> Inr Sni
      | Intercept \<Rightarrow>
          if l7_intercept_ack policy then Inr Intercept
          else Inl (l7_error (''l7.mode intercept requires l7.intercept_ack: Guard holds a key able to read the ''
            @ ''traffic it governs, and only an operator may acknowledge that'')))"

definition validate_http_rule :: "http_rule \<Rightarrow> guard_error + unit" where
  "validate_http_rule rule =
     then_r (validate_dns_name (hr_host rule) ''l7.http.host'' 2)
     (if MAX_L7_RULES < length (hr_methods rule) \<or> MAX_L7_RULES < length (hr_paths rule)
      then Inl (l7_error ''an l7.http rule has more entries than it accepts'')
      else then_r
        (each_r (\<lambda>method. if \<not> valid_method method
            then Inl (l7_error ''l7.http.methods must be uppercase HTTP tokens such as GET or POST'')
            else Inr ()) (hr_methods rule))
        (each_r (\<lambda>path. if \<not> valid_rule_path path
            then Inl (l7_error ''l7.http.paths must be absolute, bounded paths without percent-encoding'')
            else Inr ()) (hr_paths rule)))"

definition validate_http_hosts :: "http_rule list \<Rightarrow> guard_error + unit" where
  "validate_http_hosts rules =
     each_r (\<lambda>(index, host).
         if list_ex (\<lambda>r. eq_ignore_case (hr_host r) host) (take index rules)
         then Inl (l7_error ''two l7.http rules name the same host'') else Inr ())
       (enumerate 0 (map (\<lambda>rule. to_ascii_lowercase (hr_host rule)) rules))"

definition validate_mcp :: "mcp_rules \<Rightarrow> guard_error + unit" where
  "validate_mcp mcp =
     then_r (each_r (\<lambda>entries. if MAX_L7_RULES < length entries
         then Inl (l7_error ''an l7.mcp list has more entries than it accepts'') else Inr ())
       [mcp_allowed_methods mcp, mcp_allowed_tools mcp, mcp_denied_tools mcp])
     (then_r (each_r (\<lambda>method. if \<not> valid_json_rpc_method method
         then Inl (l7_error ''l7.mcp.allowed_methods must be JSON-RPC method names'') else Inr ())
       (mcp_allowed_methods mcp))
     (then_r (each_r (\<lambda>tool. if \<not> valid_tool_name tool
         then Inl (l7_error ''l7.mcp tool names must match [A-Za-z0-9_.-]'') else Inr ())
       (mcp_allowed_tools mcp @ mcp_denied_tools mcp))
     (if list_ex (\<lambda>tool. tool \<in> set (mcp_denied_tools mcp)) (mcp_allowed_tools mcp)
      then Inl (l7_error ''an l7.mcp tool cannot be both allowed and denied'') else Inr ())))"

definition validate_graphql :: "graphql_rules \<Rightarrow> guard_error + unit" where
  "validate_graphql graphql =
     (if MAX_L7_RULES < length (gq_operations graphql) \<or> MAX_L7_RULES < length (gq_root_fields graphql)
      then Inl (l7_error ''an l7.graphql list has more entries than it accepts'')
      else each_r (\<lambda>name. if \<not> valid_graphql_name name
          then Inl (l7_error ''l7.graphql names must be GraphQL names'') else Inr ())
        (gq_operations graphql @ gq_root_fields graphql))"

definition l7_validate :: "l7_policy \<Rightarrow> guard_error + unit" where
  "l7_validate policy =
     bind_r (effective_mode policy) (\<lambda>_.
     if MAX_L7_RULES < length (l7_http policy)
     then Inl (l7_error ''l7.http has more rules than the schema accepts'')
     else then_r (each_r validate_http_rule (l7_http policy))
       (then_r (validate_http_hosts (l7_http policy))
       (then_r (validate_mcp (l7_mcp policy)) (validate_graphql (l7_graphql policy)))))"

section \<open>Tunnels and request lines\<close>

definition INTERCEPTION_REFUSAL :: string where
  "INTERCEPTION_REFUSAL =
     ''l7: interception requires l7.intercept_ack: Guard holds a key able to read this traffic''"

definition rule_for :: "l7_policy \<Rightarrow> string \<Rightarrow> http_rule option" where
  "rule_for policy host = find (\<lambda>r. eq_ignore_case (hr_host r) host) (l7_http policy)"

definition tunnel_verdict :: "l7_policy option \<Rightarrow> string \<Rightarrow> verdict" where
  "tunnel_verdict policy host =
     (case policy of
        None \<Rightarrow> AllowVerdict ''l7: no layer 7 policy is configured''
      | Some policy \<Rightarrow>
          if \<not> is_ok (effective_mode policy)
          then DenyVerdict HttpLayer ForbiddenRequest INTERCEPTION_REFUSAL
          else case rule_for policy host of
            None \<Rightarrow> AllowVerdict ''l7: opaque tunnel to a host no http rule governs''
          | Some rule \<Rightarrow>
              let governed = (hr_methods rule \<noteq> [] \<or> hr_paths rule \<noteq> [])
              in if l7_mode_of policy = Intercept \<or> governed
                 then DenyVerdict HttpLayer ForbiddenRequest
                   ''l7: TLS tunnel refused because Guard cannot read this host's method and path''
                 else AllowVerdict ''l7: opaque tunnel forwarded to a host with no method or path rule'')"

definition http_verdict :: "l7_policy \<Rightarrow> string \<Rightarrow> string \<Rightarrow> string \<Rightarrow> verdict" where
  "http_verdict policy host method path =
     (case rule_for policy host of
        None \<Rightarrow> AllowVerdict ''l7 http: no http rule governs this host''
      | Some rule \<Rightarrow>
          if \<not> valid_method method
          then DenyVerdict HttpLayer Malformed ''l7 http: request method is not an uppercase token''
          else if \<not> l7_safe_path path
          then DenyVerdict HttpLayer Malformed ''l7 http: request target is not a bounded absolute path''
          else if hr_methods rule \<noteq> [] \<and> \<not> list_ex (\<lambda>m. m = method) (hr_methods rule)
          then DenyVerdict HttpLayer ForbiddenRequest ''l7 http: method is not allowed for this host''
          else if hr_paths rule \<noteq> [] \<and> \<not> list_ex (\<lambda>p. path_matches p path) (hr_paths rule)
          then DenyVerdict HttpLayer ForbiddenRequest ''l7 http: path is not allowed for this host''
          else AllowVerdict ''l7 http: method and path are allowed for this host'')"

section \<open>JSON bodies\<close>

datatype 'n json_value =
    JsNull | JsBool bool | JsNumber 'n | JsString string
  | JsArray "'n json_value list" | JsObject "(string \<times> 'n json_value) list"

text \<open>The visitor: an array keeps its elements, an object stops at a key it has seen.\<close>

fun strict_json :: "'n json_value \<Rightarrow> 'n json_value option"
  and visit_seq :: "'n json_value list \<Rightarrow> 'n json_value list \<Rightarrow> 'n json_value option"
  and visit_map :: "string list \<Rightarrow> (string \<times> 'n json_value) list \<Rightarrow> (string \<times> 'n json_value) list \<Rightarrow> 'n json_value option" where
  "strict_json (JsArray items) = visit_seq [] items"
| "strict_json (JsObject members) = visit_map [] [] members"
| "strict_json scalar = Some scalar"
| "visit_seq values [] = Some (JsArray values)"
| "visit_seq values (item # items) =
     (case strict_json item of None \<Rightarrow> None | Some v \<Rightarrow> visit_seq (values @ [v]) items)"
| "visit_map seen object [] = Some (JsObject object)"
| "visit_map seen object ((key, item) # members) =
     (if key \<in> set seen then None
      else case strict_json item of
        None \<Rightarrow> None
      | Some v \<Rightarrow> visit_map (key # seen) (object @ [(key, v)]) members)"

definition message_verdict :: "mcp_rules \<Rightarrow> 'n json_value \<Rightarrow> verdict" where
  "message_verdict rules message =
     (case message of
        JsObject object \<Rightarrow>
          if \<not> (case map_of object ''jsonrpc'' of Some (JsString version) \<Rightarrow> version = ''2.0'' | _ \<Rightarrow> False)
          then DenyVerdict McpLayer Malformed ''l7 mcp: request is not JSON-RPC 2.0''
          else (case map_of object ''method'' of
            Some (JsString method) \<Rightarrow>
              if \<not> valid_json_rpc_method method
              then DenyVerdict McpLayer Malformed ''l7 mcp: method name is not valid''
              else if list_ex (\<lambda>tool. tool = method) (mcp_denied_tools rules)
              then DenyVerdict McpLayer ForbiddenRequest ''l7 mcp: method name is explicitly denied''
              else if \<not> list_ex (\<lambda>a. a = method) (mcp_allowed_methods rules)
              then DenyVerdict McpLayer ForbiddenRequest ''l7 mcp: method is not in the allowed set''
              else if method \<noteq> ''tools/call'' then AllowVerdict ''l7 mcp: method is allowed''
              else (case (case map_of object ''params'' of
                            Some (JsObject params) \<Rightarrow> map_of params ''name'' | _ \<Rightarrow> None) of
                Some (JsString tool) \<Rightarrow>
                  if \<not> valid_tool_name tool
                  then DenyVerdict McpLayer Malformed ''l7 mcp: tool name is not valid''
                  else if list_ex (\<lambda>d. d = tool) (mcp_denied_tools rules)
                  then DenyVerdict McpLayer ForbiddenRequest ''l7 mcp: tool name is explicitly denied''
                  else if \<not> list_ex (\<lambda>a. a = tool) (mcp_allowed_tools rules)
                  then DenyVerdict McpLayer ForbiddenRequest ''l7 mcp: tool name is not in the allowed set''
                  else AllowVerdict ''l7 mcp: method and tool name are allowed''
              | _ \<Rightarrow> DenyVerdict McpLayer Malformed ''l7 mcp: tools/call carries no params.name'')
          | _ \<Rightarrow> DenyVerdict McpLayer Malformed ''l7 mcp: request carries no method name'')
      | _ \<Rightarrow> DenyVerdict McpLayer Malformed ''l7 mcp: batch member is not a JSON-RPC object'')"

fun batch_verdict :: "mcp_rules \<Rightarrow> 'n json_value list \<Rightarrow> verdict" where
  "batch_verdict rules [] = AllowVerdict ''l7 mcp: every message in the batch is allowed''"
| "batch_verdict rules (message # messages) =
     (let verdict = message_verdict rules message
      in if \<not> allowed verdict then verdict else batch_verdict rules messages)"

definition mcp_verdict :: "mcp_rules \<Rightarrow> 'n json_value \<Rightarrow> verdict" where
  "mcp_verdict rules v =
     (case v of
        JsArray messages \<Rightarrow>
          if messages = [] then DenyVerdict McpLayer Malformed ''l7 mcp: JSON-RPC batch is empty''
          else if MAX_JSONRPC_MESSAGES < length messages
          then DenyVerdict McpLayer TooLarge ''l7 mcp: JSON-RPC batch exceeds the message bound''
          else batch_verdict rules messages
      | JsObject _ \<Rightarrow> message_verdict rules v
      | _ \<Rightarrow> DenyVerdict McpLayer Malformed ''l7 mcp: request body is not a JSON-RPC object or batch'')"

section \<open>GraphQL documents\<close>

fun operations_verdict :: "graphql_rules \<Rightarrow> graphql_operation list \<Rightarrow> verdict" where
  "operations_verdict rules [] = AllowVerdict ''l7 graphql: every declared operation is allowed''"
| "operations_verdict rules (operation # operations) =
     (if op_kind operation = Subscription
      then DenyVerdict GraphqlLayer ForbiddenRequest ''l7 graphql: subscription is not supported''
      else if op_kind operation = Mutation \<and> \<not> gq_allow_mutations rules
      then DenyVerdict GraphqlLayer ForbiddenRequest ''l7 graphql: mutation is not allowed''
      else if gq_operations rules \<noteq> []
        \<and> \<not> (case op_name operation of
              Some name \<Rightarrow> list_ex (\<lambda>a. a = name) (gq_operations rules) | None \<Rightarrow> False)
      then DenyVerdict GraphqlLayer ForbiddenRequest ''l7 graphql: operation name is not allowed''
      else if gq_root_fields rules \<noteq> [] \<and> op_root_fields operation = []
      then DenyVerdict GraphqlLayer ForbiddenRequest ''l7 graphql: operation selects no root field''
      else if gq_root_fields rules \<noteq> []
        \<and> list_ex (\<lambda>field. \<not> list_ex (\<lambda>a. a = field) (gq_root_fields rules)) (op_root_fields operation)
      then DenyVerdict GraphqlLayer ForbiddenRequest ''l7 graphql: root field is not allowed''
      else operations_verdict rules operations)"

definition graphql_verdict :: "graphql_rules \<Rightarrow> string \<Rightarrow> verdict" where
  "graphql_verdict rules document =
     (case parse_graphql document of
        Inl error \<Rightarrow> DenyVerdict GraphqlLayer (pe_refusal error) (pe_reason error)
      | Inr operations \<Rightarrow>
          if operations = []
          then DenyVerdict GraphqlLayer Malformed ''l7 graphql: document declares no operation''
          else operations_verdict rules operations)"

section \<open>Requests\<close>

definition json_verdict :: "l7_policy \<Rightarrow> 'n json_value \<Rightarrow> verdict" where
  "json_verdict policy v =
     (case v of
        JsObject object \<Rightarrow>
          if map_of object ''query'' \<noteq> None \<and> map_of object ''method'' = None then
            (case map_of object ''query'' of
               Some (JsString document) \<Rightarrow> graphql_verdict (l7_graphql policy) document
             | Some _ \<Rightarrow> DenyVerdict GraphqlLayer Malformed ''l7 graphql: query is not a string''
             | None \<Rightarrow> AllowVerdict ''l7: request line allowed and the body governs nothing'')
          else if map_of object ''method'' \<noteq> None \<or> map_of object ''jsonrpc'' \<noteq> None
          then mcp_verdict (l7_mcp policy) v
          else AllowVerdict ''l7: request line allowed and the body governs nothing''
      | JsArray messages \<Rightarrow>
          if messages \<noteq> [] then mcp_verdict (l7_mcp policy) v
          else AllowVerdict ''l7: request line allowed and the body governs nothing''
      | _ \<Rightarrow> AllowVerdict ''l7: request line allowed and the body governs nothing'')"

definition body_verdict :: "(string \<Rightarrow> 'n json_value option) \<Rightarrow> l7_policy \<Rightarrow> string option \<Rightarrow> string \<Rightarrow> verdict" where
  "body_verdict read_json policy content_type body =
     (if \<not> graphql_media_type content_type \<and> \<not> is_json content_type body
      then AllowVerdict ''l7: request line allowed and the body is not an inspected type''
      else if MAX_INSPECTED_BODY_BYTES < length body
      then DenyVerdict McpLayer TooLarge ''l7: request body exceeds the inspection bound''
      else if graphql_media_type content_type then
        (case from_utf8 body of
           Some t \<Rightarrow> graphql_verdict (l7_graphql policy) t
         | None \<Rightarrow> DenyVerdict GraphqlLayer Malformed ''l7 graphql: document is not valid UTF-8'')
      else (case from_utf8 body of
           None \<Rightarrow> DenyVerdict McpLayer Malformed ''l7: request body is not valid UTF-8''
         | Some t \<Rightarrow>
             (case Option.bind (read_json t) strict_json of
                None \<Rightarrow> DenyVerdict McpLayer Malformed ''l7: request body is not JSON without duplicate keys''
              | Some v \<Rightarrow> json_verdict policy v)))"

definition request_verdict ::
  "(string \<Rightarrow> 'n json_value option) \<Rightarrow> l7_policy option \<Rightarrow> visible_request \<Rightarrow> verdict" where
  "request_verdict read_json policy request =
     (case policy of
        None \<Rightarrow> AllowVerdict ''l7: no layer 7 policy is configured''
      | Some policy \<Rightarrow>
          if \<not> is_ok (effective_mode policy)
          then DenyVerdict HttpLayer ForbiddenRequest INTERCEPTION_REFUSAL
          else
            let http = http_verdict policy (vr_host request) (vr_method request) (vr_path request)
            in if \<not> allowed http then http
               else (case vr_body request of
                 None \<Rightarrow> AllowVerdict ''l7: request line allowed and no body is visible to inspect''
               | Some body \<Rightarrow>
                   if body = []
                   then AllowVerdict ''l7: request line allowed and no body is visible to inspect''
                   else body_verdict read_json policy (vr_content_type request) body))"

end
