(* ===== verification/Graphql_Laws.thy ===== *)
theory Graphql_Laws
  imports Graphql_Parser
begin

text \<open>
  What the GraphQL reader understands. Documents are given as syntax trees and spelled out with
  an arbitrary separator of white space, commas and comments after each token; the reader finds
  exactly the operations of the tree, with their kind, their name and their root fields.
\<close>

section \<open>Syntax trees and their spelling\<close>

datatype gvalue = VStr string | VVar string | VName string | VNum string | VList "gvalue list"

type_synonym gargs = "(string \<times> gvalue) list"

datatype gfield =
  Field (field_alias: "string option") (field_name: string) (field_args: gargs)
    (field_directives: "(string \<times> gargs) list") (field_sub: "gfield list")

datatype gtype = TName string bool | TList gtype bool

datatype goperation =
    Selection "gfield list"
  | Operation graphql_kind "string option" "(string \<times> gtype \<times> gvalue option) list"
      "(string \<times> gargs) list" "gfield list"

fun spell_value :: "string \<Rightarrow> gvalue \<Rightarrow> string" where
  "spell_value w (VStr t) = CHR 0x22 # t @ [CHR 0x22]"
| "spell_value w (VVar n) = CHR ''$'' # n"
| "spell_value w (VName n) = n"
| "spell_value w (VNum n) = n"
| "spell_value w (VList vs) = ''['' @ w @ concat (map (\<lambda>v. spell_value w v @ w) vs) @ '']''"

definition spell_arg :: "string \<Rightarrow> string \<times> gvalue \<Rightarrow> string" where
  "spell_arg w a = fst a @ w @ '':'' @ w @ spell_value w (snd a) @ w"

definition spell_args :: "string \<Rightarrow> gargs \<Rightarrow> string" where
  "spell_args w as = (if as = [] then [] else ''('' @ w @ concat (map (spell_arg w) as) @ '')'' @ w)"

definition spell_directive :: "string \<Rightarrow> string \<times> gargs \<Rightarrow> string" where
  "spell_directive w d = ''@'' @ fst d @ w @ spell_args w (snd d)"

fun spell_field :: "string \<Rightarrow> gfield \<Rightarrow> string" where
  "spell_field w (Field a n as ds fs) =
     (case a of None \<Rightarrow> [] | Some l \<Rightarrow> l @ w @ '':'' @ w) @ n @ w @ spell_args w as
     @ concat (map (spell_directive w) ds)
     @ (if fs = [] then [] else ''{'' @ w @ concat (map (spell_field w) fs) @ ''}'' @ w)"

definition spell_selection :: "string \<Rightarrow> gfield list \<Rightarrow> string" where
  "spell_selection w fs = ''{'' @ w @ concat (map (spell_field w) fs) @ ''}''"

fun spell_type :: "gtype \<Rightarrow> string" where
  "spell_type (TName n req) = n @ (if req then ''!'' else [])"
| "spell_type (TList t req) = ''['' @ spell_type t @ '']'' @ (if req then ''!'' else [])"

definition spell_variable :: "string \<Rightarrow> string \<times> gtype \<times> gvalue option \<Rightarrow> string" where
  "spell_variable w x =
     (case x of (n, t, v) \<Rightarrow>
        ''$'' @ n @ w @ '':'' @ w @ spell_type t
        @ (case v of None \<Rightarrow> [] | Some v \<Rightarrow> ''='' @ w @ spell_value w v) @ w)"

definition spell_variables :: "string \<Rightarrow> (string \<times> gtype \<times> gvalue option) list \<Rightarrow> string" where
  "spell_variables w xs =
     (if xs = [] then [] else ''('' @ w @ concat (map (spell_variable w) xs) @ '')'' @ w)"

fun kind_word :: "graphql_kind \<Rightarrow> string" where
  "kind_word Query = ''query''"
| "kind_word Mutation = ''mutation''"
| "kind_word Subscription = ''subscription''"

fun spell_operation :: "string \<Rightarrow> goperation \<Rightarrow> string" where
  "spell_operation w (Selection fs) = spell_selection w fs @ w"
| "spell_operation w (Operation k n xs ds fs) =
     kind_word k @ w @ (case n of None \<Rightarrow> [] | Some n \<Rightarrow> n @ w) @ spell_variables w xs
     @ concat (map (spell_directive w) ds) @ spell_selection w fs @ w"

definition spell_document :: "string \<Rightarrow> goperation list \<Rightarrow> string" where
  "spell_document w ops = w @ concat (map (spell_operation w) ops)"

section \<open>Well-formed trees\<close>

definition name_ok :: "string \<Rightarrow> bool" where
  "name_ok n \<longleftrightarrow> n \<noteq> [] \<and> name_start (hd n) \<and> list_all name_byte n \<and> length n \<le> MAX_OPERATION_NAME_BYTES"

fun value_ok :: "nat \<Rightarrow> gvalue \<Rightarrow> bool" where
  "value_ok d (VStr t) = (d \<le> MAX_GRAPHQL_DEPTH \<and> list_all (\<lambda>b. b \<notin> {CHR 0x22, CHR 0x5C, CHR 0x0A}) t)"
| "value_ok d (VVar n) = (d \<le> MAX_GRAPHQL_DEPTH \<and> name_ok n)"
| "value_ok d (VName n) = (d \<le> MAX_GRAPHQL_DEPTH \<and> name_ok n)"
| "value_ok d (VNum n) = (d \<le> MAX_GRAPHQL_DEPTH \<and> n \<noteq> [] \<and> (is_ascii_digit (hd n) \<or> hd n = CHR ''-'' \<or> hd n = CHR ''+'')
     \<and> list_all number_byte n)"
| "value_ok d (VList vs) = (d \<le> MAX_GRAPHQL_DEPTH \<and> list_all (value_ok (Suc d)) vs)"

definition args_ok :: "gargs \<Rightarrow> bool" where
  "args_ok as \<longleftrightarrow> list_all (\<lambda>(n, v). name_ok n \<and> value_ok 0 v) as"

definition directives_ok :: "(string \<times> gargs) list \<Rightarrow> bool" where
  "directives_ok ds \<longleftrightarrow> list_all (\<lambda>(n, as). name_ok n \<and> args_ok as) ds"

fun field_ok :: "nat \<Rightarrow> gfield \<Rightarrow> bool" where
  "field_ok d (Field a n as ds fs) \<longleftrightarrow>
     d \<le> MAX_GRAPHQL_DEPTH \<and> (case a of None \<Rightarrow> True | Some l \<Rightarrow> name_ok l) \<and> name_ok n \<and> args_ok as \<and> directives_ok ds
     \<and> list_all (field_ok (Suc d)) fs"

fun type_ok :: "nat \<Rightarrow> gtype \<Rightarrow> bool" where
  "type_ok d (TName n req) = (d \<le> MAX_GRAPHQL_DEPTH \<and> name_ok n)"
| "type_ok d (TList t req) = (d \<le> MAX_GRAPHQL_DEPTH \<and> type_ok (Suc d) t)"

definition variables_ok :: "(string \<times> gtype \<times> gvalue option) list \<Rightarrow> bool" where
  "variables_ok xs \<longleftrightarrow> list_all (\<lambda>(n, t, v). name_ok n \<and> type_ok 0 t \<and> (case v of None \<Rightarrow> True | Some v \<Rightarrow> value_ok 0 v)) xs"

fun operation_ok :: "goperation \<Rightarrow> bool" where
  "operation_ok (Selection fs) = list_all (field_ok 1) fs"
| "operation_ok (Operation k n xs ds fs) =
     ((case n of None \<Rightarrow> True | Some n \<Rightarrow> name_ok n) \<and> variables_ok xs \<and> directives_ok ds \<and> list_all (field_ok 1) fs)"

fun field_count :: "gfield \<Rightarrow> nat" where
  "field_count (Field a n as ds fs) = Suc (sum_list (map field_count fs))"

fun operation_fields :: "goperation \<Rightarrow> gfield list" where
  "operation_fields (Selection fs) = fs"
| "operation_fields (Operation k n xs ds fs) = fs"

definition document_ok :: "string \<Rightarrow> goperation list \<Rightarrow> bool" where
  "document_ok w ops \<longleftrightarrow>
     list_all operation_ok ops \<and> length ops \<le> MAX_GRAPHQL_OPERATIONS
     \<and> sum_list (map (\<lambda>op. sum_list (map field_count (operation_fields op))) ops) \<le> MAX_GRAPHQL_FIELDS
     \<and> length (spell_document w ops) \<le> MAX_INSPECTED_BODY_BYTES"

text \<open>What the policy sees of an operation: an alias does not hide the field behind it.\<close>

definition distinct_fields :: "gfield list \<Rightarrow> string list" where
  "distinct_fields fs = fold (\<lambda>f acc. if f \<in> set acc then acc else acc @ [f]) (map field_name fs) []"

fun summary :: "goperation \<Rightarrow> graphql_operation" where
  "summary (Selection fs) = \<lparr>op_kind = Query, op_name = None, op_root_fields = distinct_fields fs\<rparr>"
| "summary (Operation k n xs ds fs) = \<lparr>op_kind = k, op_name = n, op_root_fields = distinct_fields fs\<rparr>"

function trivia :: "string \<Rightarrow> bool" where
  "trivia [] = True"
| "trivia (b # s) =
     (if b \<in> {CHR '' '', CHR 0x09, CHR 0x0D, CHR 0x0A, CHR '',''} then trivia s
      else b = CHR ''#'' \<and> CHR 0x0A \<in> set s \<and> trivia (skip_comment s))"
  by pat_completeness auto
termination
  by (relation "measure length") (auto simp: length_skip_comment le_imp_less_Suc)

definition separator :: "string \<Rightarrow> bool" where
  "separator w \<longleftrightarrow> w \<noteq> [] \<and> trivia w"

section \<open>Separators\<close>

lemma skip_comment_append: "CHR 0x0A \<in> set s \<Longrightarrow> skip_comment (s @ t) = skip_comment s @ t"
  by (induction s) auto

lemma skip_trivia_append: "trivia w \<Longrightarrow> skip_trivia (w @ s) = skip_trivia s"
  by (induction w rule: trivia.induct) (auto simp: skip_comment_append split: if_splits)

lemma separator_skip [simp]: "separator w \<Longrightarrow> skip_trivia (w @ s) = skip_trivia s"
  by (simp add: separator_def skip_trivia_append)

definition separator_byte :: "char \<Rightarrow> bool" where
  "separator_byte b \<longleftrightarrow> b \<in> {CHR '' '', CHR 0x09, CHR 0x0D, CHR 0x0A, CHR '','', CHR ''#''}"

lemma separator_Cons: "separator w \<Longrightarrow> \<exists>b t. w = b # t \<and> separator_byte b"
  by (cases w) (auto simp: separator_def separator_byte_def split: if_splits)

lemma skip_trivia_byte: "\<not> separator_byte b \<Longrightarrow> skip_trivia (b # s) = b # s"
  by (simp add: separator_byte_def)

lemma name_start_byte: "name_start b \<Longrightarrow> name_byte b"
  by (auto simp: name_start_def name_byte_def is_ascii_alphanumeric_def)

lemma separator_not_name: "separator_byte b \<Longrightarrow> \<not> name_byte b"
  by (auto simp: separator_byte_def name_byte_def byte_defs less_eq_char_def)

lemma separator_not_number: "separator_byte b \<Longrightarrow> \<not> number_byte b"
  by (auto simp: separator_byte_def number_byte_def byte_defs less_eq_char_def)

lemma name_byte_ascii: "name_byte b \<Longrightarrow> is_ascii_byte b"
  by (auto simp: name_byte_def byte_defs less_eq_char_def)

lemma gql_name_skip [simp]: "separator w \<Longrightarrow> gql_name (w @ s) = gql_name s"
  by (simp add: gql_name_def)

lemma gql_value_skip [simp]: "separator w \<Longrightarrow> gql_value d (w @ s) = gql_value d s"
  by (simp add: gql_value.simps)

lemma gql_items_skip [simp]: "separator w \<Longrightarrow> gql_items c d (w @ s) = gql_items c d s"
  by (simp add: gql_items.simps)

lemma argument_loop_skip [simp]: "separator w \<Longrightarrow> argument_loop d (w @ s) = argument_loop d s"
  by (simp add: argument_loop.simps)

lemma eat_skip [simp]: "separator w \<Longrightarrow> eat c (w @ s) = eat c s"
  by (simp add: eat_def)

lemma expect_skip [simp]: "separator w \<Longrightarrow> expect c (w @ s) = expect c s"
  by (simp add: expect_def)

lemma peek_skip [simp]: "separator w \<Longrightarrow> peek (w @ s) = peek s"
  by (simp add: peek_def)

lemma arguments_skip [simp]: "separator w \<Longrightarrow> arguments d (w @ s) = arguments d s"
  by (simp add: arguments_def)

lemma type_ref_skip [simp]: "separator w \<Longrightarrow> type_ref d (w @ s) = type_ref d s"
  by (simp add: type_ref.simps)

lemma variable_loop_skip [simp]: "separator w \<Longrightarrow> variable_loop d (w @ s) = variable_loop d s"
  by (simp add: variable_loop.simps)

lemma directives_skip [simp]: "separator w \<Longrightarrow> directives (w @ s) = directives s"
  by (simp add: directives.simps)

lemma selection_loop_skip [simp]:
  "separator w \<Longrightarrow> selection_loop d roots n (w @ s) = selection_loop d roots n s"
  by (simp add: selection_loop.simps)

lemma selection_set_skip [simp]: "separator w \<Longrightarrow> selection_set d n (w @ s) = selection_set d n s"
  by (simp add: selection_set.simps)

lemma document_loop_skip [simp]: "separator w \<Longrightarrow> document_loop ops n (w @ s) = document_loop ops n s"
  by (simp add: document_loop.simps)

section \<open>Reading back names and values\<close>

lemma punctuation [simp]:
  "skip_trivia (CHR ''('' # s) = CHR ''('' # s" "skip_trivia (CHR '')'' # s) = CHR '')'' # s"
  "skip_trivia (CHR ''['' # s) = CHR ''['' # s" "skip_trivia (CHR '']'' # s) = CHR '']'' # s"
  "skip_trivia (CHR ''{'' # s) = CHR ''{'' # s" "skip_trivia (CHR ''}'' # s) = CHR ''}'' # s"
  "skip_trivia (CHR '':'' # s) = CHR '':'' # s" "skip_trivia (CHR ''@'' # s) = CHR ''@'' # s"
  "skip_trivia (CHR ''$'' # s) = CHR ''$'' # s" "skip_trivia (CHR 0x22 # s) = CHR 0x22 # s"
  "skip_trivia (CHR ''='' # s) = CHR ''='' # s" "skip_trivia (CHR ''!'' # s) = CHR ''!'' # s"
  by simp_all

declare skip_trivia.simps(2) [simp del]

lemma expect_here [simp]: "\<not> separator_byte c \<Longrightarrow> expect c (c # s) = Inr s"
  by (simp add: expect_def eat_def skip_trivia_byte byte_at_def)

lemma name_ok_Cons: "name_ok n \<Longrightarrow> \<exists>b t. n = b # t \<and> name_start b \<and> \<not> separator_byte b"
  by (cases n) (auto simp: name_ok_def dest: separator_not_name name_start_byte)

definition stops :: "(char \<Rightarrow> bool) \<Rightarrow> string \<Rightarrow> bool" where
  "stops P s \<longleftrightarrow> (case s of [] \<Rightarrow> True | b # _ \<Rightarrow> \<not> P b)"

lemma separator_stops [simp]:
  "separator w \<Longrightarrow> stops name_byte (w @ s)" "separator w \<Longrightarrow> stops number_byte (w @ s)"
  using separator_Cons [of w] by (auto simp: stops_def separator_not_name separator_not_number)

lemma takeWhile_stops: "list_all P n \<Longrightarrow> stops P s \<Longrightarrow> takeWhile P (n @ s) = n"
  by (cases s) (auto simp: stops_def list_all_iff takeWhile_append)

lemma dropWhile_stops: "list_all P n \<Longrightarrow> stops P s \<Longrightarrow> dropWhile P (n @ s) = s"
  by (cases s) (auto simp: stops_def list_all_iff dropWhile_append)

lemma gql_name_read:
  assumes "name_ok n" "stops name_byte s"
  shows "gql_name (n @ s) = Inr (n, s)"
proof -
  obtain b t where n: "n = b # t" and b: "name_start b" "\<not> separator_byte b"
    using name_ok_Cons [OF assms(1)] by blast
  have t: "list_all name_byte t" and ln: "\<not> MAX_OPERATION_NAME_BYTES < length (b # t)"
    using assms(1) n by (auto simp: name_ok_def)
  have "list_all is_ascii_byte (b # t)"
    using t b name_byte_ascii name_start_byte by (auto simp: list_all_iff)
  then have "from_utf8 (b # t) = Some (b # t)"
    using valid_utf8_ascii by (simp add: from_utf8_def del: valid_utf8.simps)
  then show ?thesis
    using n b t ln assms(2)
    by (simp add: gql_name_def skip_trivia_byte takeWhile_stops dropWhile_stops ok_or_def)
qed

lemma line_string_read:
  "list_all (\<lambda>b. b \<notin> {CHR 0x22, CHR 0x5C, CHR 0x0A}) t \<Longrightarrow> line_string (t @ CHR 0x22 # s) = Inr s"
  by (induction t) auto

lemma gql_string_read:
  assumes "list_all (\<lambda>b. b \<notin> {CHR 0x22, CHR 0x5C, CHR 0x0A}) t" "separator w"
  shows "gql_string (CHR 0x22 # t @ CHR 0x22 # w @ s) = Inr (w @ s)"
proof -
  have "\<not> starts_with (CHR 0x22 # t @ CHR 0x22 # w @ s) triple_quote"
    using assms separator_Cons [OF assms(2)]
    by (cases t) (auto simp: triple_quote_def starts_with_def separator_byte_def)
  with line_string_read [OF assms(1)] show ?thesis by (simp add: gql_string_def)
qed

lemma name_start_plain:
  "name_start b \<Longrightarrow> \<not> separator_byte b \<and> b \<notin> set '')]}({[:@$.!='' \<and> b \<noteq> CHR 0x22 \<and> \<not> is_ascii_digit b
     \<and> b \<noteq> CHR ''-'' \<and> b \<noteq> CHR ''+''"
  by (auto simp: name_start_def separator_byte_def byte_defs less_eq_char_def)

lemma digit_plain: "is_ascii_digit b \<or> b = CHR ''-'' \<or> b = CHR ''+'' \<Longrightarrow>
  \<not> separator_byte b \<and> b \<notin> set '')]}({[:@$.!='' \<and> b \<noteq> CHR 0x22 \<and> \<not> name_start b"
  by (auto simp: name_start_def separator_byte_def byte_defs less_eq_char_def)

lemma spell_value_Cons:
  "value_ok d v \<Longrightarrow> \<exists>b r. spell_value w v = b # r \<and> \<not> separator_byte b \<and> b \<noteq> CHR '']'' \<and> b \<noteq> CHR '')''"
proof (cases v)
  case (VName n)
  assume "value_ok d v"
  with VName obtain b t where "n = b # t" "name_start b" using name_ok_Cons by force
  with VName name_start_plain [of b] show ?thesis by auto
next
  case (VNum n)
  assume "value_ok d v"
  with VNum have "n \<noteq> []" "is_ascii_digit (hd n) \<or> hd n = CHR ''-'' \<or> hd n = CHR ''+''" by auto
  with VNum digit_plain [of "hd n"] show ?thesis by (cases n) auto
qed (auto simp: separator_byte_def)

lemma gql_value_name:
  "d \<le> MAX_GRAPHQL_DEPTH \<Longrightarrow> name_ok n \<Longrightarrow> stops name_byte s \<Longrightarrow> gql_value d (n @ s) = Inr s"
proof -
  assume "d \<le> MAX_GRAPHQL_DEPTH" "name_ok n" "stops name_byte s"
  moreover obtain b t where b: "n = b # t" "name_start b" using name_ok_Cons [OF \<open>name_ok n\<close>] by blast
  ultimately show ?thesis
    using gql_name_read [of n s] name_start_plain [OF b(2)] by (simp add: gql_value.simps skip_trivia_byte)
qed

lemma gql_value_number:
  "value_ok d (VNum n) \<Longrightarrow> stops number_byte s \<Longrightarrow> gql_value d (n @ s) = Inr s"
  using dropWhile_stops [of number_byte n s] digit_plain [of "hd n"]
  by (cases n) (auto simp: gql_value.simps skip_trivia_byte gql_number_def)

lemma gql_items_read:
  assumes "separator w"
    and "\<And>v s. v \<in> set vs \<Longrightarrow> value_ok (Suc d) v \<and> gql_value (Suc d) (spell_value w v @ w @ s) = Inr (w @ s)"
  shows "gql_items (CHR '']'') d (concat (map (\<lambda>v. spell_value w v @ w) vs) @ CHR '']'' # s) = Inr s"
  using assms(2)
proof (induction vs)
  case Nil
  then show ?case by (simp add: gql_items.simps)
next
  case (Cons v vs)
  obtain b r where b: "spell_value w v = b # r" "\<not> separator_byte b" "b \<noteq> CHR '']''"
    using spell_value_Cons [of "Suc d" v w] Cons.prems by auto
  have "gql_value (Suc d) (spell_value w v @ w @ concat (map (\<lambda>v. spell_value w v @ w) vs) @ CHR '']'' # s)
      = Inr (w @ concat (map (\<lambda>v. spell_value w v @ w) vs) @ CHR '']'' # s)"
    using Cons.prems by simp
  moreover have "gql_items (CHR '']'') d (concat (map (\<lambda>v. spell_value w v @ w) vs) @ CHR '']'' # s) = Inr s"
    using Cons by simp
  ultimately show ?case
    using b assms(1) by (subst gql_items.simps) (simp add: skip_trivia_byte)
qed

lemma gql_value_read:
  "separator w \<Longrightarrow> value_ok d v \<Longrightarrow> gql_value d (spell_value w v @ w @ s) = Inr (w @ s)"
proof (induction v arbitrary: d s)
  case (VStr t)
  then show ?case by (simp add: gql_value.simps gql_string_read)
next
  case (VVar n)
  then show ?case by (simp add: gql_value.simps gql_name_read)
next
  case (VName n)
  then show ?case by (simp add: gql_value_name)
next
  case (VNum n)
  then show ?case by (simp add: gql_value_number)
next
  case (VList vs)
  have "gql_items (CHR '']'') d (concat (map (\<lambda>v. spell_value w v @ w) vs) @ CHR '']'' # w @ s) = Inr (w @ s)"
    by (rule gql_items_read) (use VList in \<open>auto simp: list_all_iff\<close>)
  with VList.prems show ?case by (simp add: gql_value.simps)
qed

section \<open>Reading back arguments, directives and types\<close>

lemma argument_loop_read:
  "separator w \<Longrightarrow> args_ok as \<Longrightarrow>
     argument_loop 0 (concat (map (spell_arg w) as) @ CHR '')'' # s) = Inr s"
proof (induction as)
  case Nil
  then show ?case by (simp add: argument_loop.simps)
next
  case (Cons a as)
  obtain n v where a: "a = (n, v)" by (cases a)
  with Cons.prems have ok: "name_ok n" "value_ok 0 v" "args_ok as" by (auto simp: args_ok_def)
  obtain b t where b: "n = b # t" "name_start b" using name_ok_Cons [OF ok(1)] by blast
  have "argument_loop 0 (concat (map (spell_arg w) as) @ CHR '')'' # s) = Inr s"
    using Cons.IH Cons.prems ok by simp
  with ok b Cons.prems(1) name_start_plain [OF b(2)] gql_name_read [OF ok(1)] a show ?case
    by (subst argument_loop.simps)
      (simp add: spell_arg_def skip_trivia_byte gql_value_read separator_byte_def)
qed

lemma arguments_read:
  "separator w \<Longrightarrow> args_ok as \<Longrightarrow> as \<noteq> [] \<Longrightarrow> arguments 0 (spell_args w as @ s) = Inr (w @ s)"
  by (simp add: arguments_def spell_args_def argument_loop_read separator_byte_def)

lemma skip_trivia_idem [simp]: "skip_trivia (skip_trivia s) = skip_trivia s"
proof (induction s rule: skip_trivia.induct)
  case (2 b s)
  then show ?case by (cases "separator_byte b") (auto simp: skip_trivia.simps separator_byte_def)
qed simp

lemma after_skip [simp]:
  "peek (skip_trivia s) = peek s" "directives (skip_trivia s) = directives s"
  "arguments d (skip_trivia s) = arguments d s" "selection_set d n (skip_trivia s) = selection_set d n s"
  "selection_loop d roots n (skip_trivia s) = selection_loop d roots n s"
  by (simp_all add: peek_def directives.simps [of "skip_trivia s"] directives.simps [of s] arguments_def
      expect_def eat_def selection_set.simps selection_loop.simps [of d roots n "skip_trivia s"]
      selection_loop.simps [of d roots n s])

lemma peek_Cons: "\<not> separator_byte b \<Longrightarrow> peek (b # s) = Some b"
  by (simp add: peek_def skip_trivia_byte byte_at_def)

lemma spell_args_Cons: "as \<noteq> [] \<Longrightarrow> \<exists>r. spell_args w as = CHR ''('' # r"
  by (simp add: spell_args_def)

lemma peek_args:
  "separator w \<Longrightarrow> peek (spell_args w as @ s) = (if as = [] then peek s else Some (CHR ''(''))"
  using spell_args_Cons [of as w] by (auto simp: spell_args_def peek_Cons separator_byte_def)

lemma peek_directives:
  "separator w \<Longrightarrow> peek (concat (map (spell_directive w) ds) @ s) = (if ds = [] then peek s else Some (CHR ''@''))"
  by (cases ds) (auto simp: spell_directive_def peek_Cons separator_byte_def)

lemma directives_read:
  assumes "separator w" "directives_ok ds" "peek s \<noteq> Some (CHR ''('')" "peek s \<noteq> Some (CHR ''@'')"
  shows "directives (concat (map (spell_directive w) ds) @ s) = Inr (skip_trivia s)"
  using assms(2)
proof (induction ds)
  case Nil
  then show ?case using assms(4) by (simp add: directives.simps peek_def)
next
  case (Cons x ds)
  obtain n as where x: "x = (n, as)" by (cases x)
  with Cons.prems have ok: "name_ok n" "args_ok as" "directives_ok ds" by (auto simp: directives_ok_def)
  define t where "t = concat (map (spell_directive w) ds) @ s"
  have t: "peek t \<noteq> Some (CHR ''('')" using assms peek_directives by (simp add: t_def)
  have "directives (CHR ''@'' # n @ w @ spell_args w as @ t) = directives t"
  proof (cases "as = []")
    case True
    with t ok assms(1) show ?thesis
      by (subst directives.simps) (simp add: gql_name_read byte_at_def spell_args_def)
  next
    case False
    with ok assms(1) show ?thesis
      by (subst directives.simps) (simp add: gql_name_read byte_at_def peek_args arguments_read)
  qed
  with Cons.IH ok(3) x show ?case by (simp add: spell_directive_def [of w "(n, as)"] t_def)
qed

section \<open>Reading back selections\<close>

definition follows :: "string \<Rightarrow> bool" where
  "follows s \<longleftrightarrow> peek s \<notin> {Some (CHR ''(''), Some (CHR ''@''), Some (CHR ''{''), Some (CHR '':'')}"

lemma field_tail:
  assumes "separator w" "args_ok as" "directives_ok ds" "follows s"
    and "fs \<noteq> [] \<Longrightarrow> \<exists>xs. selection_set (d + 1) (n + 1) (spell_selection w fs @ w @ s) = Inr (xs, m, w @ s)"
    and "fs = [] \<Longrightarrow> m = n + 1"
  defines "rest \<equiv> spell_args w as @ concat (map (spell_directive w) ds)
      @ (if fs = [] then [] else spell_selection w fs @ w) @ s"
  shows "\<exists>v u xs t. (if peek rest = Some (CHR ''('') then arguments 0 rest else Inr rest) = Inr v
    \<and> directives v = Inr u
    \<and> (if peek u = Some (CHR ''{'') then selection_set (d + 1) (n + 1) u else Inr ([], n + 1, u)) = Inr (xs, m, t)
    \<and> skip_trivia t = skip_trivia s"
proof -
  define sub where "sub = (if fs = [] then [] else spell_selection w fs @ w) @ s"
  define dr where "dr = concat (map (spell_directive w) ds) @ sub"
  have sub: "peek sub = (if fs = [] then peek s else Some (CHR ''{''))"
    by (simp add: sub_def spell_selection_def peek_Cons separator_byte_def)
  then have no: "peek sub \<noteq> Some (CHR ''('')" "peek sub \<noteq> Some (CHR ''@'')"
    using assms(4) by (auto simp: follows_def)
  have "peek dr \<noteq> Some (CHR ''('')" using no assms(1) by (simp add: dr_def peek_directives)
  have rest: "rest = spell_args w as @ dr" by (simp add: rest_def dr_def sub_def)
  obtain v where v: "(if peek rest = Some (CHR ''('') then arguments 0 rest else Inr rest) = Inr v"
      and v': "directives v = directives dr"
  proof (cases "as = []")
    case True
    with that [of rest] \<open>peek dr \<noteq> _\<close> show ?thesis by (simp add: rest spell_args_def)
  next
    case False
    with that [of "w @ dr"] assms(1,2) show ?thesis by (simp add: rest peek_args arguments_read)
  qed
  have u: "directives v = Inr (skip_trivia sub)"
    unfolding v' dr_def by (rule directives_read [OF assms(1,3) no])
  have "\<exists>xs t. (if peek (skip_trivia sub) = Some (CHR ''{'') then selection_set (d + 1) (n + 1) (skip_trivia sub)
      else Inr ([], n + 1, skip_trivia sub)) = Inr (xs, m, t) \<and> skip_trivia t = skip_trivia s"
  proof (cases "fs = []")
    case True
    then show ?thesis using assms(4,6) sub by (auto simp: follows_def sub_def)
  next
    case False
    with assms(1,5) sub show ?thesis by (auto simp: sub_def)
  qed
  with v u show ?thesis by blast
qed

lemma field_step:
  assumes "separator w" "field_ok d (Field a nm as ds fs)" "follows s" "n + 1 \<le> MAX_GRAPHQL_FIELDS"
    and "fs \<noteq> [] \<Longrightarrow> \<exists>xs. selection_set (d + 1) (n + 1) (spell_selection w fs @ w @ s) = Inr (xs, m, w @ s)"
    and "fs = [] \<Longrightarrow> m = n + 1"
  shows "selection_loop d roots n (spell_field w (Field a nm as ds fs) @ s)
    = selection_loop d (if d = 1 \<and> nm \<notin> set roots then roots @ [nm] else roots) m s"
proof -
  define rest where "rest = spell_args w as @ concat (map (spell_directive w) ds)
      @ (if fs = [] then [] else spell_selection w fs @ w) @ s"
  from assms(2) have ok: "args_ok as" "directives_ok ds" "name_ok nm" by auto
  obtain v u xs t where tail: "(if peek rest = Some (CHR ''('') then arguments 0 rest else Inr rest) = Inr v"
    "directives v = Inr u"
    "(if peek u = Some (CHR ''{'') then selection_set (d + 1) (n + 1) u else Inr ([], n + 1, u)) = Inr (xs, m, t)"
    "skip_trivia t = skip_trivia s"
    using field_tail [OF assms(1) ok(1,2) assms(3,5,6)] unfolding rest_def by blast
  have t: "selection_loop d rs m t = selection_loop d rs m s" for rs
    using after_skip(5) [of d rs m t] after_skip(5) [of d rs m s] tail(4) by simp
  define first where "first = (case a of None \<Rightarrow> nm | Some l \<Rightarrow> l)"
  define more where "more = (case a of None \<Rightarrow> rest | Some l \<Rightarrow> CHR '':'' # w @ nm @ w @ rest)"
  have spell: "spell_field w (Field a nm as ds fs) @ s = first @ w @ more"
    by (simp add: first_def more_def rest_def spell_selection_def split: option.splits)
  have first: "name_ok first" using assms(2) by (auto simp: first_def split: option.splits)
  obtain b f where b: "first = b # f" "name_start b" using name_ok_Cons [OF first] by blast
  have no_colon: "peek rest \<noteq> Some (CHR '':'')"
    using assms(1,3) by (auto simp: rest_def peek_args peek_directives spell_selection_def peek_Cons
        separator_byte_def follows_def)
  have field: "\<exists>r. (case eat (CHR '':'') (w @ more) of (True, s) \<Rightarrow> gql_name s | (False, s) \<Rightarrow> Inr (first, s)) = Inr (nm, r)
    \<and> skip_trivia r = skip_trivia rest"
  proof (cases a)
    case None
    with no_colon assms(1) show ?thesis
      by (simp add: eat_def Let_def more_def first_def peek_def)
  next
    case (Some l)
    with assms(1) ok(3) show ?thesis
      by (simp add: eat_def Let_def more_def byte_at_def gql_name_read)
  qed
  then obtain r where r: "(case eat (CHR '':'') (w @ more) of (True, s) \<Rightarrow> gql_name s | (False, s) \<Rightarrow> Inr (first, s)) = Inr (nm, r)"
    and r': "skip_trivia r = skip_trivia rest" by blast
  have same: "peek r = peek rest" "arguments 0 r = arguments 0 rest" "directives r = directives rest"
    using r' after_skip(1) [of r] after_skip(2) [of r] after_skip(3) [of 0 r] by simp_all
  have "\<exists>v'. (if peek r = Some (CHR ''('') then arguments 0 r else Inr r) = Inr v' \<and> directives v' = Inr u"
    using tail(1,2) same by (cases "peek rest = Some (CHR ''('')") auto
  then obtain v' where v': "(if peek r = Some (CHR ''('') then arguments 0 r else Inr r) = Inr v'" "directives v' = Inr u"
    by blast
  have start: "skip_trivia (first @ w @ more) = b # f @ w @ more"
      "gql_name (b # f @ w @ more) = Inr (first, w @ more)"
    using b name_start_plain [OF b(2)] gql_name_read [OF first separator_stops(1) [OF assms(1), of more]]
    by (simp_all add: skip_trivia_byte)
  have guards: "(b = CHR ''}'') = False" "(b = CHR ''.'') = False" "(MAX_GRAPHQL_FIELDS < n + 1) = False"
    using name_start_plain [OF b(2)] assms(4) by auto
  show ?thesis
    unfolding spell
    by (subst selection_loop.simps)
      (simp only: start list.case guards if_False bind_r.simps case_prod_conv r v' tail(3) t)
qed

lemma fields_peek:
  assumes "separator w" "list_all (field_ok d) fs"
  shows "peek (concat (map (spell_field w) fs) @ CHR ''}'' # s) \<notin> {Some (CHR ''(''), Some (CHR ''@''), Some (CHR ''{''), Some (CHR '':'')}"
proof (cases fs)
  case (Cons f gs)
  obtain a nm as ds sub where f: "f = Field a nm as ds sub" by (cases f)
  have "name_ok (case a of None \<Rightarrow> nm | Some l \<Rightarrow> l)"
    using assms(2) Cons f by (auto split: option.splits)
  then obtain b t where "(case a of None \<Rightarrow> nm | Some l \<Rightarrow> l) = b # t" "name_start b"
    using name_ok_Cons by blast
  with name_start_plain [of b] show ?thesis
    by (auto simp: Cons f peek_Cons split: option.splits)
qed (simp add: peek_Cons separator_byte_def)

definition push_field :: "gfield \<Rightarrow> string list \<Rightarrow> string list" where
  "push_field f roots = (if field_name f \<in> set roots then roots else roots @ [field_name f])"

lemma selection_loop_read:
  assumes "separator w" "list_all (field_ok d) fs"
    "n + sum_list (map field_count fs) \<le> MAX_GRAPHQL_FIELDS"
  shows "selection_loop d roots n (concat (map (spell_field w) fs) @ CHR ''}'' # s)
    = Inr (if d = 1 then fold push_field fs roots else roots, n + sum_list (map field_count fs), s)"
  using assms(2,3)
proof (induction fs arbitrary: d roots n s rule: measure_induct_rule [where f = "size_list size"])
  case (less fs)
  show ?case
  proof (cases fs)
    case Nil
    then show ?thesis by (simp add: selection_loop.simps)
  next
    case (Cons f gs)
    obtain a nm as ds sub where f: "f = Field a nm as ds sub" by (cases f)
    define rest where "rest = concat (map (spell_field w) gs) @ CHR ''}'' # s"
    define m where "m = n + 1 + sum_list (map field_count sub)"
    have ok: "field_ok d (Field a nm as ds sub)" "list_all (field_ok d) gs" "list_all (field_ok (Suc d)) sub"
      using less.prems(1) Cons f by auto
    have cnt: "n + 1 \<le> MAX_GRAPHQL_FIELDS" "m + sum_list (map field_count gs) \<le> MAX_GRAPHQL_FIELDS"
      using less.prems(2) by (auto simp: Cons f m_def)
    have "follows rest" using fields_peek [OF assms(1) ok(2)] by (auto simp: follows_def rest_def)
    have sub: "\<exists>xs. selection_set (d + 1) (n + 1) (spell_selection w sub @ w @ rest) = Inr (xs, m, w @ rest)"
      if "sub \<noteq> []"
    proof -
      have "Suc d \<le> MAX_GRAPHQL_DEPTH" using ok(3) that by (cases sub; cases "hd sub") auto
      moreover have "\<exists>xs. selection_loop (Suc d) [] (n + 1) (concat (map (spell_field w) sub) @ CHR ''}'' # w @ rest)
        = Inr (xs, m, w @ rest)"
        using less.IH [of sub "Suc d" "n + 1" "[]" "w @ rest"] ok(3) cnt by (simp add: Cons f m_def)
      ultimately show ?thesis
        using assms(1) by (simp add: selection_set.simps spell_selection_def separator_byte_def)
    qed
    have "selection_loop d roots n (spell_field w f @ rest)
      = selection_loop d (if d = 1 \<and> nm \<notin> set roots then roots @ [nm] else roots) m rest"
      unfolding f by (rule field_step [OF assms(1) ok(1) \<open>follows rest\<close> cnt(1) sub]) (auto simp: m_def)
    also have "\<dots> = Inr (if d = 1 then fold push_field fs roots else roots, n + sum_list (map field_count fs), s)"
      using less.IH [of gs d m _ s] ok(2) cnt(2) by (simp add: Cons f rest_def m_def push_field_def)
    finally show ?thesis by (simp add: Cons rest_def)
  qed
qed

lemma selection_set_read:
  "separator w \<Longrightarrow> list_all (field_ok 1) fs \<Longrightarrow> n + sum_list (map field_count fs) \<le> MAX_GRAPHQL_FIELDS
    \<Longrightarrow> selection_set 1 n (spell_selection w fs @ s)
      = Inr (distinct_fields fs, n + sum_list (map field_count fs), s)"
proof -
  have "fold push_field fs [] = distinct_fields fs"
    by (simp add: distinct_fields_def fold_map comp_def push_field_def [abs_def])
  then show "separator w \<Longrightarrow> list_all (field_ok 1) fs
    \<Longrightarrow> n + sum_list (map field_count fs) \<le> MAX_GRAPHQL_FIELDS \<Longrightarrow> ?thesis"
    using selection_loop_read [of w 1 fs n "[]" s]
    by (simp add: selection_set.simps spell_selection_def separator_byte_def MAX_GRAPHQL_DEPTH_def)
qed

section \<open>Reading back operations and documents\<close>

lemma type_ref_read:
  "type_ok d t \<Longrightarrow> stops name_byte s \<Longrightarrow> byte_at s \<noteq> Some (CHR ''!'') \<Longrightarrow> type_ref d (spell_type t @ s) = Inr s"
proof (induction t arbitrary: d s)
  case (TName n req)
  then obtain b r where b: "n = b # r" "name_start b" using name_ok_Cons [of n] by auto
  have stop: "stops name_byte (CHR ''!'' # s)" by (simp add: stops_def name_byte_def byte_defs less_eq_char_def)
  have "skip_trivia (n @ x) = n @ x" "byte_at (n @ x) \<noteq> Some (CHR ''['')" for x
    using b name_start_plain [OF b(2)] by (auto simp: skip_trivia_byte byte_at_def)
  with TName stop show ?case
    by (subst type_ref.simps) (simp add: gql_name_read byte_at_def)
next
  case (TList t req)
  have stop: "stops name_byte (CHR '']'' # s)" for s by (simp add: stops_def name_byte_def byte_defs less_eq_char_def)
  have "type_ref (Suc d) (spell_type t @ CHR '']'' # x) = Inr (CHR '']'' # x)" for x
    using TList.IH [of "Suc d" "CHR '']'' # x"] TList.prems stop by (simp add: byte_at_def)
  with TList.prems show ?case
    by (subst type_ref.simps) (simp add: byte_at_def separator_byte_def)
qed

lemma separator_byte_at: "separator w \<Longrightarrow> \<not> separator_byte c \<Longrightarrow> byte_at (w @ s) \<noteq> Some c"
  using separator_Cons [of w] by (auto simp: byte_at_def)

lemma variable_loop_read:
  "separator w \<Longrightarrow> variables_ok xs \<Longrightarrow>
     variable_loop 0 (concat (map (spell_variable w) xs) @ CHR '')'' # s) = Inr s"
proof (induction xs)
  case Nil
  then show ?case by (simp add: variable_loop.simps)
next
  case (Cons x xs)
  obtain n t v where x: "x = (n, t, v)" by (cases x)
  with Cons.prems have ok: "name_ok n" "type_ok 0 t" "variables_ok xs" "\<And>u. v = Some u \<Longrightarrow> value_ok 0 u"
    by (auto simp: variables_ok_def)
  define rest where "rest = concat (map (spell_variable w) xs) @ CHR '')'' # s"
  define tail where "tail = (case v of None \<Rightarrow> [] | Some v \<Rightarrow> ''='' @ w @ spell_value w v) @ w @ rest"
  have tail: "stops name_byte tail" "byte_at tail \<noteq> Some (CHR ''!'')"
    using Cons.prems(1) separator_byte_at [of w "CHR ''!''"]
    by (auto simp: tail_def stops_def byte_at_def name_byte_def byte_defs less_eq_char_def
        separator_byte_def split: option.splits)
      (use separator_stops(1) [OF Cons.prems(1), of rest] in \<open>auto simp: stops_def name_byte_def byte_defs split: list.splits\<close>)
  have default: "(if byte_at tail = Some (CHR ''='') then gql_value 0 (drop 1 tail) else Inr tail) = Inr (w @ rest)"
  proof (cases v)
    case None
    then show ?thesis using separator_byte_at [OF Cons.prems(1), of "CHR ''=''" rest]
      by (simp add: tail_def separator_byte_def)
  next
    case (Some u)
    then show ?thesis using gql_value_read [OF Cons.prems(1) ok(4) [OF Some]] Cons.prems(1)
      by (simp add: tail_def byte_at_def)
  qed
  have "variable_loop 0 rest = Inr s" using Cons ok by (simp add: rest_def)
  moreover have "concat (map (spell_variable w) (x # xs)) @ CHR '')'' # s
      = CHR ''$'' # n @ w @ CHR '':'' # w @ spell_type t @ tail"
    by (simp add: x spell_variable_def tail_def rest_def)
  ultimately show ?case
    using default ok Cons.prems(1) tail
    by (simp only:) (subst variable_loop.simps,
        simp add: gql_name_read type_ref_read separator_byte_def del: if_split_asm)
qed

lemma peek_selection: "peek (spell_selection w fs @ s) = Some (CHR ''{'')"
  by (simp add: spell_selection_def peek_Cons separator_byte_def)

lemma peek_variables:
  "separator w \<Longrightarrow> peek (spell_variables w xs @ s) = (if xs = [] then peek s else Some (CHR ''(''))"
  by (simp add: spell_variables_def peek_Cons separator_byte_def)

lemma variable_definitions_skip [simp]:
  "separator w \<Longrightarrow> variable_definitions d (w @ s) = variable_definitions d s"
  by (simp add: variable_definitions_def)

lemma variable_definitions_read:
  "separator w \<Longrightarrow> variables_ok xs \<Longrightarrow> xs \<noteq> []
    \<Longrightarrow> variable_definitions 0 (spell_variables w xs @ s) = Inr (w @ s)"
  by (simp add: variable_definitions_def spell_variables_def variable_loop_read separator_byte_def)

lemma operation_tail:
  fixes s :: string and fs :: "gfield list"
  assumes "separator w" "variables_ok xs" "directives_ok ds"
  defines "rest \<equiv> spell_variables w xs @ concat (map (spell_directive w) ds) @ spell_selection w fs @ s"
  shows "\<exists>v. (if peek rest = Some (CHR ''('') then variable_definitions 0 rest else Inr rest) = Inr v
    \<and> directives v = Inr (skip_trivia (spell_selection w fs @ s))"
proof -
  define dr where "dr = concat (map (spell_directive w) ds) @ spell_selection w fs @ s"
  have "directives dr = Inr (skip_trivia (spell_selection w fs @ s))"
    unfolding dr_def by (rule directives_read [OF assms(1,3)]) (simp_all add: peek_selection)
  moreover have "peek dr \<noteq> Some (CHR ''('')"
    using assms(1) by (simp add: dr_def peek_directives peek_selection)
  moreover have "rest = spell_variables w xs @ dr" by (simp add: rest_def dr_def)
  ultimately show ?thesis
    using assms(1,2) variable_definitions_read [OF assms(1,2), of dr]
    by (cases "xs = []") (simp_all add: peek_variables, simp add: spell_variables_def)
qed

lemma gql_operation_read:
  assumes "separator w" "operation_ok (Operation k nm xs ds fs)"
    "n + sum_list (map field_count fs) \<le> MAX_GRAPHQL_FIELDS"
  shows "gql_operation k n (w @ (case nm of None \<Rightarrow> [] | Some n \<Rightarrow> n @ w) @ spell_variables w xs
      @ concat (map (spell_directive w) ds) @ spell_selection w fs @ s)
    = Inr (summary (Operation k nm xs ds fs), n + sum_list (map field_count fs), s)"
proof -
  define rest where "rest = spell_variables w xs @ concat (map (spell_directive w) ds) @ spell_selection w fs @ s"
  from assms(2) have ok: "variables_ok xs" "directives_ok ds" "list_all (field_ok 1) fs" by auto
  obtain v where v: "(if peek rest = Some (CHR ''('') then variable_definitions 0 rest else Inr rest) = Inr v"
      and d: "directives v = Inr (skip_trivia (spell_selection w fs @ s))"
    using operation_tail [OF assms(1) ok(1,2)] unfolding rest_def by blast
  have "\<exists>v. (if peek (w @ rest) = Some (CHR ''('') then variable_definitions 0 (w @ rest) else Inr (w @ rest)) = Inr v
      \<and> directives v = Inr (skip_trivia (spell_selection w fs @ s))"
    using v d assms(1) by (cases "peek rest = Some (CHR ''('')") auto
  then obtain v where v: "(if peek (w @ rest) = Some (CHR ''('') then variable_definitions 0 (w @ rest) else Inr (w @ rest)) = Inr v"
      and d: "directives v = Inr (skip_trivia (spell_selection w fs @ s))" by blast
  define start where "start = w @ (case nm of None \<Rightarrow> [] | Some n \<Rightarrow> n @ w) @ rest"
  have "peek rest \<in> {Some (CHR ''(''), Some (CHR ''@''), Some (CHR ''{'')}"
    using assms(1) by (simp add: rest_def peek_variables peek_directives peek_selection)
  then have name: "(if peek start \<in> {Some (CHR ''(''), Some (CHR ''@''), Some (CHR ''{'')} then Inr (None, start)
       else bind_r (gql_name start) (\<lambda>(name, s). Inr (Some name, s))) = Inr (nm, w @ rest)"
  proof (cases nm)
    case (Some l)
    then have l: "name_ok l" using assms(2) by simp
    then obtain b t where b: "l = b # t" "name_start b" using name_ok_Cons by blast
    then have "peek start = Some b"
      using assms(1) Some name_start_plain [OF b(2)] by (simp add: start_def peek_Cons)
    moreover have "gql_name start = Inr (l, w @ rest)"
      using assms(1) Some l by (simp add: start_def gql_name_read)
    ultimately show ?thesis using Some name_start_plain [OF b(2)] by simp
  qed (use assms(1) in \<open>simp add: start_def\<close>)
  have "gql_operation k n start = Inr (summary (Operation k nm xs ds fs), n + sum_list (map field_count fs), s)"
    unfolding gql_operation_def name bind_r.simps case_prod_conv v d
    using selection_set_read [OF assms(1) ok(3) assms(3), of s] by simp
  then show ?thesis by (simp add: start_def rest_def)
qed

lemma kind_word_read:
  assumes "separator w"
  shows "operation_keyword (kind_word k @ w @ s) = Inr (k, length (kind_word k))"
    "\<not> keyword ''fragment'' (kind_word k @ w @ s)"
    "\<exists>b r. kind_word k = b # r \<and> \<not> separator_byte b \<and> b \<noteq> CHR ''{''"
proof -
  have w: "case byte_at (w @ s) of Some b \<Rightarrow> \<not> name_byte b | None \<Rightarrow> True"
    using separator_stops(1) [OF assms, of s] by (simp add: stops_def byte_at_def split: list.splits)
  then show "operation_keyword (kind_word k @ w @ s) = Inr (k, length (kind_word k))"
    by (cases k) (simp_all add: operation_keyword_def keyword_def skip_trivia_byte separator_byte_def starts_with_def)
  show "\<not> keyword ''fragment'' (kind_word k @ w @ s)"
    by (cases k) (simp_all add: keyword_def skip_trivia_byte separator_byte_def starts_with_def)
  show "\<exists>b r. kind_word k = b # r \<and> \<not> separator_byte b \<and> b \<noteq> CHR ''{''"
    by (cases k) (simp_all add: separator_byte_def)
qed

lemma document_step:
  assumes "separator w" "operation_ok op" "n + sum_list (map field_count (operation_fields op)) \<le> MAX_GRAPHQL_FIELDS"
    "length ops < MAX_GRAPHQL_OPERATIONS"
  shows "document_loop ops n (spell_operation w op @ s)
    = document_loop (ops @ [summary op]) (n + sum_list (map field_count (operation_fields op))) s"
proof (cases op)
  case (Selection fs)
  have "selection_set 1 n (spell_selection w fs @ w @ s) = Inr (distinct_fields fs, n + sum_list (map field_count fs), w @ s)"
    using assms Selection by (intro selection_set_read) auto
  then show ?thesis
    using assms(1,4) unfolding Selection
    by (subst document_loop.simps) (simp add: spell_selection_def)
next
  case (Operation k nm xs ds fs)
  define rest where "rest = (case nm of None \<Rightarrow> [] | Some n \<Rightarrow> n @ w) @ spell_variables w xs
      @ concat (map (spell_directive w) ds) @ spell_selection w fs @ w @ s"
  obtain b r where b: "kind_word k = b # r" "\<not> separator_byte b" "b \<noteq> CHR ''{''"
    using kind_word_read(3) [OF assms(1)] by blast
  have "gql_operation k n (w @ rest) = Inr (summary op, n + sum_list (map field_count fs), w @ s)"
    using gql_operation_read [of w k nm xs ds fs n "w @ s"] assms Operation by (simp add: rest_def)
  moreover have "spell_operation w op @ s = kind_word k @ w @ rest" by (simp add: Operation rest_def)
  moreover have "operation_keyword (b # r @ w @ rest) = Inr (k, length (kind_word k))"
    "\<not> keyword ''fragment'' (b # r @ w @ rest)"
    using kind_word_read(1,2) [OF assms(1), of k rest] b by simp_all
  ultimately show ?thesis
    using assms(1,4) b
    by (subst document_loop.simps) (simp add: skip_trivia_byte Operation)
qed

lemma document_loop_read:
  assumes "separator w"
  shows "list_all operation_ok ops \<Longrightarrow> length done_ops + length ops \<le> MAX_GRAPHQL_OPERATIONS
    \<Longrightarrow> n + sum_list (map (\<lambda>op. sum_list (map field_count (operation_fields op))) ops) \<le> MAX_GRAPHQL_FIELDS
    \<Longrightarrow> document_loop done_ops n (concat (map (spell_operation w) ops)) = Inr (done_ops @ map summary ops)"
proof (induction ops arbitrary: done_ops n)
  case Nil
  then show ?case by (simp add: document_loop.simps)
next
  case (Cons op ops)
  then show ?case by (simp add: document_step [OF assms])
qed

lemma parse_graphql_read:
  "separator w \<Longrightarrow> document_ok w ops \<Longrightarrow> parse_graphql (spell_document w ops) = Inr (map summary ops)"
  using document_loop_read [of w ops "[]" 0]
  by (simp add: parse_graphql_def document_ok_def) (simp add: spell_document_def)

end
