(* ===== verification/L7_Laws.thy ===== *)
theory L7_Laws
  imports Guard_L7 Graphql_Laws "HOL-Library.Sublist"
begin

text \<open>
  What the layer 7 decisions mean: a host with a method or path rule is reached by requests on
  the listed methods and paths only and never through a tunnel, a JSON-RPC body is admitted when
  every message of it is, whichever of two equal keys its reader would keep, and a GraphQL
  document is admitted when every operation it spells is.
\<close>

section \<open>Paths by segments\<close>

definition path_below :: "string \<Rightarrow> string \<Rightarrow> bool" where
  "path_below rule path \<longleftrightarrow>
     (let rs = split_on (CHR ''/'') rule; ps = split_on (CHR ''/'') path
      in if ends_with rule ''/'' then prefix (butlast rs) ps \<and> length rs \<le> length ps else prefix rs ps)"

lemma split_on_inject: "split_on c a = split_on c b \<longleftrightarrow> a = b"
  by (metis join_split_on)

lemma split_on_prefix:
  "prefix (split_on c a) (split_on c b) \<longleftrightarrow> b = a \<or> (\<exists>r. b = a @ c # r)"
proof
  assume "prefix (split_on c a) (split_on c b)"
  then obtain zs where zs: "split_on c b = split_on c a @ zs" by (auto simp: prefix_def)
  show "b = a \<or> (\<exists>r. b = a @ c # r)"
  proof (cases zs)
    case Nil
    with zs show ?thesis by (simp add: split_on_inject)
  next
    case (Cons y ys)
    have sep: "\<forall>x \<in> set zs. c \<notin> set x" using split_on_no_sep [of _ c b] zs by auto
    have join: "join_with [c] (xs @ ws) = join_with [c] xs @ c # join_with [c] ws"
      if "xs \<noteq> []" "ws \<noteq> []" for xs ws
      using that by (induction xs rule: induct_list012) (auto simp: neq_Nil_conv)
    have "b = a @ c # join_with [c] zs"
      using join [of "split_on c a" zs] zs Cons join_split_on [of c a] join_split_on [of c b] by simp
    then show ?thesis by blast
  qed
qed (auto simp: split_on_append_sep)

lemma path_matches_iff: "path_matches rule path \<longleftrightarrow> path_below rule path"
proof (cases "ends_with rule ''/''")
  case True
  then obtain q where q: "rule = q @ ''/''" by (auto simp: ends_with_iff)
  have "split_on (CHR ''/'') rule = split_on (CHR ''/'') q @ [[]]"
    using split_on_append_sep [of "CHR ''/''" q "[]"] q by simp
  then have below: "path_below rule path \<longleftrightarrow>
      (path = q \<or> (\<exists>r. path = q @ CHR ''/'' # r))
      \<and> Suc (length (split_on (CHR ''/'') q)) \<le> length (split_on (CHR ''/'') path)"
    using True by (simp add: path_below_def split_on_prefix)
  have "1 \<le> length (split_on (CHR ''/'') r)" for r by (cases "split_on (CHR ''/'') r") auto
  then have "path_below rule path \<longleftrightarrow> (\<exists>r. path = q @ CHR ''/'' # r)"
    unfolding below by (auto simp: split_on_append_sep)
  moreover have "path_matches rule path \<longleftrightarrow> (\<exists>r. path = q @ CHR ''/'' # r)"
    using True q by (auto simp: path_matches_def starts_with_iff strip_prefix_Some split: option.splits)
  ultimately show ?thesis by simp
next
  case False
  then show ?thesis
    by (auto simp: path_matches_def path_below_def split_on_prefix starts_with_iff strip_prefix_Some
        strip_prefix_None split: option.splits)
qed

section \<open>Governed hosts\<close>

text \<open>
  C16. A host that an HTTP rule with methods or paths names is never reached through an opaque
  tunnel, and a visible request line to it is admitted exactly when the method is a bounded
  token, the target a bounded absolute path, the method is listed when methods are listed, and
  the target lies below one of the listed paths, compared segment by segment.
\<close>

theorem governed_host_exact:
  assumes "rule_for policy host = Some rule"
  shows "(allowed (http_verdict policy host method path) \<longleftrightarrow>
      valid_method method \<and> l7_safe_path path
      \<and> (hr_methods rule = [] \<or> method \<in> set (hr_methods rule))
      \<and> (hr_paths rule = [] \<or> (\<exists>p. p \<in> set (hr_paths rule) \<and> path_below p path)))
    \<and> (hr_methods rule \<noteq> [] \<or> hr_paths rule \<noteq> [] \<longrightarrow> \<not> allowed (tunnel_verdict (Some policy) host))"
  using assms by (auto simp: http_verdict_def tunnel_verdict_def path_matches_iff list_ex_iff Let_def)

definition sample_l7 :: l7_policy where
  "sample_l7 = \<lparr>l7_mode_of = Sni,
     l7_http = [\<lparr>hr_host = ''api.example.com'', hr_methods = [''GET''], hr_paths = [''/v1'']\<rparr>],
     l7_mcp = \<lparr>mcp_allowed_methods = [''tools/call''], mcp_allowed_tools = [''search''], mcp_denied_tools = []\<rparr>,
     l7_graphql = \<lparr>gq_allow_mutations = False, gq_operations = [], gq_root_fields = [''viewer'']\<rparr>,
     l7_intercept_ack = False\<rparr>"

theorem governed_host_exact_witness:
  "allowed (http_verdict sample_l7 ''api.example.com'' ''GET'' ''/v1/x'')
   \<and> \<not> allowed (http_verdict sample_l7 ''api.example.com'' ''GET'' ''/v10'')
   \<and> \<not> allowed (tunnel_verdict (Some sample_l7) ''api.example.com'')"
proof -
  define rule where "rule = \<lparr>hr_host = ''api.example.com'', hr_methods = [''GET''], hr_paths = [''/v1'']\<rparr>"
  have rule: "rule_for sample_l7 ''api.example.com'' = Some rule"
    by (simp add: rule_for_def sample_l7_def rule_def eq_ignore_case_def strip_suffix_def ends_with_def
        eq_ignore_ascii_case_def)
  have "valid_method ''GET''"
    by (simp add: valid_method_def L7_MAX_METHOD_BYTES_def byte_defs less_eq_char_def)
  moreover have "l7_safe_path ''/v1/x''"
    by (simp add: l7_safe_path_def starts_with_def MAX_TARGET_BYTES_def less_eq_char_def)
  moreover have "path_below ''/v1'' ''/v1/x''" "\<not> path_below ''/v1'' ''/v10''"
    by (simp_all add: path_below_def ends_with_def)
  ultimately show ?thesis
    using governed_host_exact [OF rule, of "''GET''" "''/v1/x''"] governed_host_exact [OF rule, of "''GET''" "''/v10''"]
    by (simp add: rule_def)
qed

section \<open>JSON-RPC bodies\<close>

fun unique_keys :: "'n json_value \<Rightarrow> bool" where
  "unique_keys (JsArray items) = list_all unique_keys items"
| "unique_keys (JsObject members) = (distinct (map fst members) \<and> list_all (\<lambda>(_, v). unique_keys v) members)"
| "unique_keys _ = True"

lemma strict_json_exact:
  fixes v :: "'n json_value" and vs items :: "'n json_value list"
    and object members :: "(string \<times> 'n json_value) list"
  shows "strict_json v = (if unique_keys v then Some v else None)"
  "visit_seq vs items = (if list_all unique_keys items then Some (JsArray (vs @ items)) else None)"
  "visit_map seen object members =
     (if distinct (map fst members) \<and> set (map fst members) \<inter> set seen = {}
         \<and> list_all (\<lambda>(_, v). unique_keys v) members
      then Some (JsObject (object @ members)) else None)"
  by (induction v and vs items and seen object members rule: strict_json_visit_seq_visit_map.induct) auto

text \<open>Another reader of the body keeps, of the members of an object, those that \<open>pick\<close> keeps.\<close>

fun resolve :: "((string \<times> 'n json_value) list \<Rightarrow> (string \<times> 'n json_value) list) \<Rightarrow> 'n json_value \<Rightarrow> 'n json_value" where
  "resolve pick (JsArray items) = JsArray (map (resolve pick) items)"
| "resolve pick (JsObject members) = JsObject (pick (map (\<lambda>(k, v). (k, resolve pick v)) members))"
| "resolve pick scalar = scalar"

lemma resolve_unique:
  assumes "\<And>ms. distinct (map fst ms) \<Longrightarrow> pick ms = ms"
  shows "unique_keys v \<Longrightarrow> resolve pick v = v"
proof (induction v)
  case (JsArray items)
  then show ?case by (simp add: list_all_iff map_idI)
next
  case (JsObject members)
  have "map (\<lambda>(k, v). (k, resolve pick v)) members = members"
    using JsObject by (intro map_idI) (force simp: list_all_iff)
  with JsObject.prems assms show ?case by simp
qed simp_all

definition rpc_permitted :: "mcp_rules \<Rightarrow> 'n json_value \<Rightarrow> bool" where
  "rpc_permitted rules message \<longleftrightarrow> (\<exists>object method.
     message = JsObject object \<and> map_of object ''jsonrpc'' = Some (JsString ''2.0'')
     \<and> map_of object ''method'' = Some (JsString method) \<and> valid_json_rpc_method method
     \<and> method \<in> set (mcp_allowed_methods rules) \<and> method \<notin> set (mcp_denied_tools rules)
     \<and> (method \<noteq> ''tools/call'' \<or> (\<exists>params tool.
          map_of object ''params'' = Some (JsObject params) \<and> map_of params ''name'' = Some (JsString tool)
          \<and> valid_tool_name tool \<and> tool \<in> set (mcp_allowed_tools rules) \<and> tool \<notin> set (mcp_denied_tools rules))))"

lemma case_no_string:
  "\<forall>t. x \<noteq> Some (JsString t) \<Longrightarrow> (case x of Some (JsString t) \<Rightarrow> f t | _ \<Rightarrow> g) = g"
  by (auto split: option.splits json_value.splits)

lemma case_no_object:
  "\<forall>t. x \<noteq> Some (JsObject t) \<Longrightarrow> (case x of Some (JsObject t) \<Rightarrow> f t | _ \<Rightarrow> g) = g"
  by (auto split: option.splits json_value.splits)

lemma message_tool_exact:
  "allowed (case (case params of Some (JsObject ps) \<Rightarrow> map_of ps ''name'' | _ \<Rightarrow> None) of
      Some (JsString tool) \<Rightarrow>
        if \<not> valid_tool_name tool then DenyVerdict l1 r1 t1
        else if list_ex (\<lambda>d. d = tool) denied then DenyVerdict l2 r2 t2
        else if \<not> list_ex (\<lambda>a. a = tool) allow then DenyVerdict l3 r3 t3
        else AllowVerdict t4
    | _ \<Rightarrow> DenyVerdict l5 r5 t5)
   \<longleftrightarrow> (\<exists>ps tool. params = Some (JsObject ps) \<and> map_of ps ''name'' = Some (JsString tool)
        \<and> valid_tool_name tool \<and> tool \<in> set allow \<and> tool \<notin> set denied)"
proof (cases "\<exists>ps. params = Some (JsObject ps)")
  case True
  then obtain ps where ps: "params = Some (JsObject ps)" by blast
  show ?thesis
  proof (cases "\<exists>tool. map_of ps ''name'' = Some (JsString tool)")
    case True
    with ps show ?thesis by (auto simp: list_ex_iff split: if_split_asm)
  next
    case False
    with ps show ?thesis by (simp add: case_no_string)
  qed
next
  case False
  then show ?thesis by (simp add: case_no_object)
qed

lemma message_verdict_exact: "allowed (message_verdict rules m) \<longleftrightarrow> rpc_permitted rules m"
proof (cases m)
  case (JsObject object)
  have version: "(case map_of object ''jsonrpc'' of Some (JsString version) \<Rightarrow> version = ''2.0'' | _ \<Rightarrow> False)
      \<longleftrightarrow> map_of object ''jsonrpc'' = Some (JsString ''2.0'')"
    by (auto split: option.splits json_value.splits)
  show ?thesis
  proof (cases "\<exists>method. map_of object ''method'' = Some (JsString method)")
    case True
    then obtain called where m: "map_of object ''method'' = Some (JsString called)" by blast
    show ?thesis
      unfolding message_verdict_def rpc_permitted_def JsObject json_value.case version m option.case
      by (simp add: m message_tool_exact if_distrib [of allowed] list_ex_iff)
  next
    case False
    then show ?thesis
      by (simp add: message_verdict_def rpc_permitted_def JsObject version case_no_string)
  qed
qed (simp_all add: message_verdict_def rpc_permitted_def)

lemma batch_verdict_exact: "allowed (batch_verdict rules ms) \<longleftrightarrow> (\<forall>m \<in> set ms. rpc_permitted rules m)"
  by (induction ms) (auto simp: message_verdict_exact Let_def)

fun rpc_messages :: "'n json_value \<Rightarrow> 'n json_value list" where
  "rpc_messages (JsArray items) = items"
| "rpc_messages v = [v]"

definition rpc_body :: "'n json_value \<Rightarrow> bool" where
  "rpc_body v \<longleftrightarrow> (case v of
     JsArray items \<Rightarrow> items \<noteq> []
   | JsObject ms \<Rightarrow> map_of ms ''method'' \<noteq> None \<or> map_of ms ''jsonrpc'' \<noteq> None \<and> map_of ms ''query'' = None
   | _ \<Rightarrow> False)"

lemma json_verdict_rpc:
  "rpc_body v \<Longrightarrow> allowed (json_verdict policy v) \<longleftrightarrow>
     length (rpc_messages v) \<le> MAX_JSONRPC_MESSAGES \<and> (\<forall>m \<in> set (rpc_messages v). rpc_permitted (l7_mcp policy) m)"
  by (cases v) (auto simp: rpc_body_def json_verdict_def mcp_verdict_def batch_verdict_exact
      message_verdict_exact MAX_JSONRPC_MESSAGES_def)

text \<open>
  C10. A visible JSON-RPC body on an admitted request line is admitted exactly when no object of
  it repeats a key, it holds at most 64 messages, and every message is JSON-RPC 2.0 with an
  allowed, not denied method and, for \<open>tools/call\<close>, an allowed, not denied tool. No reader of the
  body that agrees on objects without repeated keys sees other messages than Guard has checked.
\<close>

theorem rpc_body_exact:
  assumes "is_ok (effective_mode policy)"
    and "allowed (http_verdict policy (vr_host request) (vr_method request) (vr_path request))"
    and "vr_body request = Some body" "body \<noteq> []" "length body \<le> MAX_INSPECTED_BODY_BYTES" "valid_utf8 body"
    and "is_json (vr_content_type request) body" "\<not> graphql_media_type (vr_content_type request)"
    and "read_json body = Some raw" "rpc_body raw"
  shows "(allowed (request_verdict read_json (Some policy) request) \<longleftrightarrow>
      unique_keys raw \<and> length (rpc_messages raw) \<le> MAX_JSONRPC_MESSAGES
      \<and> (\<forall>m \<in> set (rpc_messages raw). rpc_permitted (l7_mcp policy) m))
    \<and> (allowed (request_verdict read_json (Some policy) request)
      \<and> (\<forall>ms. distinct (map fst ms) \<longrightarrow> pick ms = ms) \<longrightarrow> rpc_messages (resolve pick raw) = rpc_messages raw)"
proof -
  have "request_verdict read_json (Some policy) request =
      (if unique_keys raw then json_verdict policy raw
       else DenyVerdict McpLayer Malformed ''l7: request body is not JSON without duplicate keys'')"
    using assms by (simp add: request_verdict_def body_verdict_def from_utf8_def strict_json_exact)
  with json_verdict_rpc [OF assms(10)] resolve_unique [of pick raw] show ?thesis by auto
qed

definition sample_call :: "int json_value" where
  "sample_call = JsObject [(''jsonrpc'', JsString ''2.0''), (''method'', JsString ''tools/call''),
     (''params'', JsObject [(''name'', JsString ''search'')])]"

theorem rpc_body_exact_witness:
  "let request = \<lparr>vr_host = ''other.example.com'', vr_method = ''POST'', vr_path = ''/'',
       vr_content_type = None, vr_body = Some ''{}''\<rparr>
   in allowed (request_verdict (\<lambda>_. Some sample_call) (Some sample_l7) request)
      \<and> \<not> allowed (request_verdict (\<lambda>_. Some (JsArray [sample_call, JsObject []])) (Some sample_l7) request)"
proof -
  define request where "request = \<lparr>vr_host = ''other.example.com'', vr_method = ''POST'', vr_path = ''/'',
       vr_content_type = None, vr_body = Some ''{}''\<rparr>"
  have pre: "is_ok (effective_mode sample_l7)"
    "allowed (http_verdict sample_l7 (vr_host request) (vr_method request) (vr_path request))"
    "vr_body request = Some ''{}''" "''{}'' \<noteq> []" "length ''{}'' \<le> MAX_INSPECTED_BODY_BYTES" "valid_utf8 ''{}''"
    "is_json (vr_content_type request) ''{}''" "\<not> graphql_media_type (vr_content_type request)"
    by (simp_all add: effective_mode_def sample_l7_def request_def http_verdict_def rule_for_def eq_ignore_case_def
        strip_suffix_def ends_with_def is_json_def graphql_media_type_def MAX_INSPECTED_BODY_BYTES_def byte_in_def)
  have ok: "rpc_permitted (l7_mcp sample_l7) sample_call" "unique_keys sample_call" "rpc_body sample_call"
    by (simp_all add: rpc_permitted_def sample_call_def sample_l7_def rpc_body_def valid_json_rpc_method_def
        valid_tool_name_def L7_MAX_METHOD_BYTES_def MAX_TOOL_NAME_BYTES_def byte_defs less_eq_char_def)
  have "rpc_messages sample_call = [sample_call]" by (simp add: sample_call_def)
  then have "allowed (request_verdict (\<lambda>_. Some sample_call) (Some sample_l7) request)"
    using rpc_body_exact [OF pre, of "\<lambda>_. Some sample_call" sample_call id] ok
    by (simp add: MAX_JSONRPC_MESSAGES_def)
  moreover have "\<not> allowed (request_verdict (\<lambda>_. Some (JsArray [sample_call, JsObject []])) (Some sample_l7) request)"
    using rpc_body_exact [OF pre, of "\<lambda>_. Some (JsArray [sample_call, JsObject []])" _ id]
    by (simp add: rpc_body_def rpc_permitted_def)
  ultimately show ?thesis unfolding request_def Let_def by blast
qed

section \<open>GraphQL documents\<close>










declare skip_trivia.simps(2) [simp del]

lemma stops_punctuation:
  "c \<in> set ''(:=! '' \<Longrightarrow> stops name_byte (c # s)"
  by (auto simp: stops_def name_byte_def byte_defs less_eq_char_def)

lemma input_object_refused:
  assumes "name_ok n"
  shows "gql_value 0 (''{'' @ n @ '':'' @ s) = Inl not_parsable"
proof -
  obtain b t where b: "n = b # t" "name_start b" using name_ok_Cons [OF assms] by blast
  have colon: "gql_value (Suc 0) (CHR '':'' # s) = Inl not_parsable"
    by (simp add: gql_value.simps MAX_GRAPHQL_DEPTH_def name_start_def byte_defs less_eq_char_def)
  have "gql_value (Suc 0) (n @ CHR '':'' # s) = Inr (CHR '':'' # s)"
    using assms by (intro gql_value_name) (simp_all add: MAX_GRAPHQL_DEPTH_def stops_punctuation)
  moreover have "gql_items (CHR ''}'') 0 (CHR '':'' # s) = Inl not_parsable"
    by (subst gql_items.simps) (simp add: colon)
  ultimately have "gql_items (CHR ''}'') 0 (n @ CHR '':'' # s) = Inl not_parsable"
    using b name_start_plain [OF b(2)] by (subst gql_items.simps) (simp add: skip_trivia_byte)
  then show ?thesis by (simp add: gql_value.simps)
qed

lemma spaced_default_refused:
  assumes "name_ok n" "name_ok t"
  shows "variable_loop 0 (''$'' @ n @ '':'' @ t @ '' ='' @ s) = Inl not_parsable"
proof -
  have "type_ref 0 (t @ CHR '' '' # CHR ''='' # s) = Inr (CHR '' '' # CHR ''='' # s)"
    using type_ref_read [of 0 "TName t False" "CHR '' '' # CHR ''='' # s"] assms
    by (simp add: stops_punctuation byte_at_def)
  moreover have "variable_loop 0 (CHR '' '' # CHR ''='' # s) = Inl not_parsable"
    by (subst variable_loop.simps) (simp add: skip_trivia.simps)
  moreover have "gql_name (n @ CHR '':'' # u) = Inr (n, CHR '':'' # u)" for u
    using assms by (intro gql_name_read) (simp_all add: stops_punctuation)
  ultimately show ?thesis
    by (simp, subst variable_loop.simps) (simp add: separator_byte_def byte_at_def)
qed

lemma input_object_document:
  assumes "name_ok f" "name_ok a" "name_ok b"
  shows "document_loop [] 0 (''{'' @ f @ ''('' @ a @ '':{'' @ b @ '':'' @ s) = Inl not_parsable"
proof -
  obtain fb ft where f: "f = fb # ft" "name_start fb" using name_ok_Cons [OF assms(1)] by blast
  obtain ab at where a: "a = ab # at" "name_start ab" using name_ok_Cons [OF assms(2)] by blast
  have names: "gql_name (f @ CHR ''('' # u) = Inr (f, CHR ''('' # u)" "gql_name (a @ CHR '':'' # u) = Inr (a, CHR '':'' # u)" for u
    using assms by (auto intro!: gql_name_read stops_punctuation)
  define rest where "rest = a @ '':{'' @ b @ '':'' @ s"
  have "argument_loop 0 rest = Inl not_parsable"
    using input_object_refused [OF assms(3), of s] a name_start_plain [OF a(2)] names(2)
    by (subst argument_loop.simps) (simp add: rest_def skip_trivia_byte separator_byte_def)
  then have "arguments 0 (CHR ''('' # rest) = Inl not_parsable"
    by (simp add: arguments_def separator_byte_def)
  moreover have "eat (CHR '':'') (CHR ''('' # rest) = (False, CHR ''('' # rest)"
    by (simp add: eat_def byte_at_def)
  ultimately have "selection_loop 1 [] 0 (f @ CHR ''('' # rest) = Inl not_parsable"
    using f name_start_plain [OF f(2)] names(1) [of rest]
    by (subst selection_loop.simps)
      (simp add: skip_trivia_byte peek_Cons separator_byte_def MAX_GRAPHQL_FIELDS_def)
  then show ?thesis
    by (subst document_loop.simps)
      (simp add: selection_set.simps separator_byte_def MAX_GRAPHQL_DEPTH_def rest_def)
qed

lemma spaced_default_document:
  assumes "name_ok f" "name_ok a" "name_ok b"
  shows "document_loop [] 0 (''query '' @ f @ ''($'' @ a @ '':'' @ b @ '' ='' @ s) = Inl not_parsable"
proof -
  obtain fb ft where f: "f = fb # ft" "name_start fb" using name_ok_Cons [OF assms(1)] by blast
  define rest where "rest = CHR ''$'' # a @ '':'' @ b @ '' ='' @ s"
  define doc where "doc = f @ CHR ''('' # rest"
  have space: "skip_trivia (CHR '' '' # x) = skip_trivia x" for x by (simp add: skip_trivia.simps)
  have "gql_name doc = Inr (f, CHR ''('' # rest)"
    unfolding doc_def by (rule gql_name_read [OF assms(1)]) (simp add: stops_punctuation)
  moreover have "peek doc = Some fb"
    using f name_start_plain [OF f(2)] by (simp add: doc_def peek_Cons)
  ultimately have name: "gql_name (CHR '' '' # doc) = Inr (f, CHR ''('' # rest)" "peek (CHR '' '' # doc) = Some fb"
    by (simp_all add: gql_name_def peek_def space)
  have "variable_definitions 0 (CHR ''('' # rest) = Inl not_parsable"
    using spaced_default_refused [OF assms(2,3), of s] by (simp add: variable_definitions_def rest_def separator_byte_def)
  then have "gql_operation Query 0 (CHR '' '' # doc) = Inl not_parsable"
    using name name_start_plain [OF f(2)] by (simp add: gql_operation_def peek_Cons separator_byte_def)
  moreover have "separator '' ''" by (simp add: separator_def)
  ultimately have "document_loop [] 0 (''query'' @ '' '' @ doc) = Inl not_parsable"
    using kind_word_read(1,2) [of "'' ''" Query doc]
    by (subst document_loop.simps) (simp add: skip_trivia_byte separator_byte_def)
  then show ?thesis by (simp add: doc_def rest_def)
qed

text \<open>
  C36. Two forms of valid GraphQL are refused as not parsable, whatever follows them: an argument
  whose value is an input object with a field, and a variable with a space between its type and
  its default value.
\<close>

theorem graphql_reader_gaps:
  assumes "name_ok f" "name_ok a" "name_ok b"
  shows "(length (''{'' @ f @ ''('' @ a @ '':{'' @ b @ '':'' @ s) \<le> MAX_INSPECTED_BODY_BYTES \<longrightarrow>
      parse_graphql (''{'' @ f @ ''('' @ a @ '':{'' @ b @ '':'' @ s) = Inl not_parsable)
    \<and> (length (''query '' @ f @ ''($'' @ a @ '':'' @ b @ '' ='' @ s) \<le> MAX_INSPECTED_BODY_BYTES \<longrightarrow>
      parse_graphql (''query '' @ f @ ''($'' @ a @ '':'' @ b @ '' ='' @ s) = Inl not_parsable)"
  using input_object_document [OF assms, of s] spaced_default_document [OF assms, of s]
  by (simp add: parse_graphql_def)

theorem graphql_reader_gaps_witness:
  "parse_graphql ''{f(a:{b:1})}'' = Inl not_parsable
   \<and> parse_graphql ''query q($a:Int =1){f}'' = Inl not_parsable"
proof -
  have names: "name_ok ''f''" "name_ok ''a''" "name_ok ''b''" "name_ok ''q''" "name_ok ''Int''"
    by (simp_all add: name_ok_def name_start_def name_byte_def MAX_OPERATION_NAME_BYTES_def byte_defs less_eq_char_def)
  show ?thesis
    using graphql_reader_gaps [OF names(1-3), of "''1})}''"] graphql_reader_gaps [OF names(4,2,5), of "''1){f}''"]
    by (simp add: MAX_INSPECTED_BODY_BYTES_def)
qed

end
