(* ===== verification/Spec2Isabelle.thy ===== *)
theory Spec2Isabelle
  imports Core_Laws Approval_Digest Ledger_Progress Store_Views L7_Laws
begin

text \<open>
  AIec runs untrusted agents in sandboxes. A control plane (\<^verbatim>\<open>crates/aiec-api\<close>) admits requests,
  keeps its records in a metadata store (\<^verbatim>\<open>crates/aiec-storage\<close>) and drives workers that run the
  sandboxes; a Guard outside the guest (\<^verbatim>\<open>crates/aiec-guard\<close>) decides what a sandbox may reach,
  accounts for it and records what it decided; both share the domain types of
  \<^verbatim>\<open>crates/aiec-core\<close>. This library models the parts of that system that decide: the policy
  language, the intake checks, the layer 7 decisions, the journal, and the metadata store with
  its object ledger, as executable definitions over the source's own data, and proves what
  makes them correct.

  \<^bold>\<open>How the code is read.\<close> A \<^verbatim>\<open>String\<close> is its list of UTF-8 bytes, a \<^verbatim>\<open>Uuid\<close> a 128-bit word, a
  fixed-width integer a word of that width with the wrapping, checked or saturating operation
  the code names, \<^verbatim>\<open>usize\<close> a natural number. \<^verbatim>\<open>Result\<close> is a sum and \<^verbatim>\<open>?\<close> is \<^const>\<open>bind_r\<close> or
  \<^const>\<open>then_r\<close>; a loop with early return is \<^const>\<open>each_r\<close> or a recursive function. A \<^verbatim>\<open>HashMap\<close> is an
  association list with distinct keys, a \<^verbatim>\<open>BTreeMap\<close> one that is iterated in key order. An
  instant counts nanoseconds; every reading of the clock is an argument, and so is every fresh
  identifier. Code of other packages is an argument of the definitions that use it: SHA-256 and
  the text forms of \<^typ>\<open>texts\<close>, the YAML and JSON readers and writers. What is relied on of them is
  a named hypothesis, with a witness that instantiates it. The text of an error message of the
  policy validators is not kept; each refusal has a constructor of its own.

  \<^bold>\<open>Theories and sources.\<close>
  \<^item> \<open>Prelude\<close>: results, bytes and strings, checked arithmetic, decimal display, sorting and
    hash maps; the \<open>named_theorems\<close> collections of the library. \<open>Paging\<close>: keyset pagination
    (\<^verbatim>\<open>aiec-core/src/storage.rs\<close>, the listings of \<^verbatim>\<open>aiec-storage\<close>) and the interface
    \<open>keyset_listing\<close> every listing of the store implements.
  \<^item> \<open>Guard_Policy\<close> and \<open>Policy_Laws\<close>: \<^verbatim>\<open>aiec-guard/src/policy.rs\<close>. The validator accepts exactly the
    declaratively described policies, the templates open exactly what they name, the hash does
    not depend on the order of set-like lists, a name is resolved exactly when a zone covers it.
  \<^item> \<open>Graphql_Parser\<close>, \<open>Graphql_Laws\<close>, \<open>Guard_L7\<close>, \<open>L7_Laws\<close>: \<^verbatim>\<open>aiec-guard/src/l7.rs\<close>. The methods of
    the GraphQL reader are total functions; that each one consumes input is proved by partial
    induction and gives their termination. Reading back any spelling of a syntax tree finds its
    operations and root fields; from this the verdicts on documents, JSON-RPC bodies, request
    lines and tunnels are characterised exactly.
  \<^item> \<open>Core_Domain\<close>, \<open>Core_Laws\<close>, \<open>Approval_Digest\<close>: the types and validators of \<^verbatim>\<open>aiec-core/src/lib.rs\<close>
    and its \<^verbatim>\<open>policy.rs\<close>, \<^verbatim>\<open>network.rs\<close>. Workspace paths stay confined, quota sums never wrap, the
    admission conditions are exact, and the approval digest determines the approved call unless
    SHA-256 collides.
  \<^item> \<open>Guard_Events\<close>, \<open>Guard_Control\<close>: \<^verbatim>\<open>aiec-guard/src/events.rs\<close>, \<^verbatim>\<open>control.rs\<close> and the data of
    \<^verbatim>\<open>proposals.rs\<close>. A verified journal is determined by its head unless SHA-256 collides, and
    appending keeps it verified.
  \<^item> \<open>Mem_Data\<close>, \<open>Mem_Store\<close>, \<open>Artifact_Ledger\<close>, \<open>Mem_Guard\<close>, \<open>Mem_Approvals\<close>: the in-memory metadata
    store, \<^verbatim>\<open>MemoryRepository\<close> of \<^verbatim>\<open>aiec-storage/src/lib.rs\<close> with \<^verbatim>\<open>memory_artifact_gc.rs\<close> and
    \<^verbatim>\<open>guard.rs\<close>. Its state is the record \<^typ>\<open>memory_data\<close>; each operation takes the state and returns
    its result with the new state, as one step under the lock the code holds.
  \<^item> \<open>Ledger_Laws\<close>, \<open>Guard_Laws\<close>, \<open>Approval_Laws\<close>, \<open>Table_Laws\<close>: what each operation keeps of the
    invariants of the ledger, the Guard rows, the approvals and the tables.
  \<^item> \<open>Mem_Machine\<close>, \<open>Store_Runs\<close>, \<open>Store_Machines\<close>: the store as a machine with one step per operation.
    The interface \<open>invariant_machine\<close> and its extension \<open>monotone_machine\<close> are interpreted on the
    store once for the invariant and once for each relation that only grows (retired keys, the
    history of approvals, budgets, incidents, leases, proposals). \<open>Store_Claims\<close> and \<open>Store_Views\<close>
    hold what follows for every sequence of operations, a refinement of the abstract sandbox life
    cycle, and complete listings.
  \<^item> \<open>Ledger_Progress\<close>: the collector reaches every object that may be claimed; the interface
    \<open>progress_machine\<close> is interpreted on its pass.

  \<^bold>\<open>Bounds.\<close> Following the cursors of a listing is given one page more than there are rows in the
  table, which is enough because every page but the last shows at least one new row. The
  collector needs at most \<open>2 * n + 2\<close> passes over a ledger of \<open>n\<close> entries: at most
  \<open>n\<close> to the end of the key order and one that finds nothing behind it, twice. No
  other definition has fuel. The GraphQL bounds (depth 12, 256 fields, 8 operations, 64 KiB) are
  those of the code.

  \<^bold>\<open>Assumptions.\<close> A run of the store starts from the empty store with some worker leases, which no
  operation of the store creates, and enters tool approvals as the only route of the control
  plane does: pending and undecided. Sums of usage wrap, as in the release profile. Arithmetic
  that would panic is the value \<^const>\<open>StorePanic\<close>, which no run reaches.

  \<^bold>\<open>Not modelled.\<close> The PostgreSQL store, whose behaviour is that of its SQL; the HTTP routes and the
  worker protocol of the control plane, the container and network backends, the gateway's
  sockets, the command line, the clients and the guest agent, which are input and output around
  the modelled decisions; the file and remote event sinks and the object store backends; the
  policy compiler, the proposal store, the watchdog and the watcher, which the model of the
  policy language is a basis for; key generation and the floating-point node score.
\<close>

end
